(* ===== verification/Prelude.thy ===== *)
theory Prelude
  imports Main "HOL-Library.Word" "HOL-Library.Multiset"
begin

text \<open>
  Shared vocabulary of the development: the machine integer types of the C++ sources, the
  collections of rewrite rules the component theories fill, and the generic facts on words
  and lists that several components use.
\<close>

unbundle bit_operations_syntax

type_synonym u8 = "8 word"
type_synonym u16 = "16 word"
type_synonym u32 = "32 word"
type_synonym u64 = "64 word"

text \<open>
  \<open>array_simps\<close> evaluates reads of arrays that are written out element by element;
  \<open>len_simps\<close> collects the lengths of the fixed-size arrays of the sources.
\<close>

named_theorems array_simps
named_theorems len_simps

section \<open>Lists as fixed-size arrays\<close>

lemma upt_Cons_numeral [array_simps]:
  "[numeral m..<numeral n] =
     (if (numeral m :: nat) < numeral n then numeral m # [Suc (numeral m)..<numeral n] else [])"
  by (simp add: upt_rec)

lemma length_Suc_obtain:
  assumes "length xs = Suc n"
  obtains y ys where "xs = y # ys" and "length ys = n"
  using assms by (cases xs) auto

lemma map_nth_upt: "length xs = n \<Longrightarrow> map ((!) xs) [0..<n] = xs"
  by (auto intro: nth_equalityI)

lemma fold_invariant:
  assumes "P s" and "\<And>x s. x \<in> set xs \<Longrightarrow> P s \<Longrightarrow> P (f x s)"
  shows "P (fold f xs s)"
  using assms by (induction xs arbitrary: s) auto

lemma fold_rel:
  assumes "R s t" and "\<And>x s t. x \<in> set xs \<Longrightarrow> R s t \<Longrightarrow> R (f x s) (g x t)"
  shows "R (fold f xs s) (fold g xs t)"
  using assms by (induction xs arbitrary: s t) auto

lemma fold_pair:
  "fold (\<lambda>j (a, b). (f j a, g j b)) xs (a, b) = (fold f xs a, fold g xs b)"
  by (induction xs arbitrary: a b) simp_all

lemma fold_quad:
  "fold (\<lambda>j (a, b, c, d). (f j a, g j b, h j c, k j d)) xs (a, b, c, d) =
     (fold f xs a, fold g xs b, fold h xs c, fold k xs d)"
  by (induction xs arbitrary: a b c d) simp_all

section \<open>Swapping two entries of an array\<close>

definition swap_at :: "nat \<Rightarrow> nat \<Rightarrow> 'a list \<Rightarrow> 'a list" where
  "swap_at i j xs = xs[i := xs ! j, j := xs ! i]"

lemma length_swap_at [simp, len_simps]: "length (swap_at i j xs) = length xs"
  by (simp add: swap_at_def)

lemma mset_swap_at [simp]:
  "i < length xs \<Longrightarrow> j < length xs \<Longrightarrow> mset (swap_at i j xs) = mset xs"
  by (simp add: swap_at_def mset_swap)

section \<open>Slices of an array\<close>

text \<open>
  \<open>slice w i xs\<close> is the \<open>i\<close>-th group of \<open>w\<close> entries, the view of an array of words as an array
  of structures of \<open>w\<close> words; \<open>put_slice\<close> stores such a structure.
\<close>

definition slice :: "nat \<Rightarrow> nat \<Rightarrow> 'a list \<Rightarrow> 'a list" where
  "slice w i xs = take w (drop (w * i) xs)"

definition put_slice :: "nat \<Rightarrow> nat \<Rightarrow> 'a list \<Rightarrow> 'a list \<Rightarrow> 'a list" where
  "put_slice w i ys xs = take (w * i) xs @ ys @ drop (w * i + w) xs"

lemma slice_end_le: "i < n \<Longrightarrow> w * i + w \<le> w * (n :: nat)"
  by (metis Suc_leI mult_Suc_right mult_le_mono2 add.commute)

lemma length_slice: "w * n \<le> length xs \<Longrightarrow> i < n \<Longrightarrow> length (slice w i xs) = w"
  using slice_end_le [of i n w] by (simp add: slice_def)

lemma length_put_slice:
  "w * n \<le> length xs \<Longrightarrow> i < n \<Longrightarrow> length ys = w \<Longrightarrow> length (put_slice w i ys xs) = length xs"
  using slice_end_le [of i n w] by (simp add: put_slice_def)

lemma slice_put_same:
  "w * n \<le> length xs \<Longrightarrow> i < n \<Longrightarrow> length ys = w \<Longrightarrow> slice w i (put_slice w i ys xs) = ys"
  using slice_end_le [of i n w] by (simp add: put_slice_def slice_def)

lemma nth_put_slice:
  assumes "w * n \<le> length xs" and "i < n" and "length ys = w" and "k < length xs"
  shows "put_slice w i ys xs ! k =
    (if w * i \<le> k \<and> k < w * i + w then ys ! (k - w * i) else xs ! k)"
  using assms slice_end_le [of i n w] by (auto simp: put_slice_def nth_append)

lemma slice_put_other:
  assumes "w * n \<le> length xs" and "i < n" and "j < n" and "length ys = w" and "i \<noteq> j"
  shows "slice w j (put_slice w i ys xs) = slice w j xs"
proof (rule nth_equalityI)
  have "w * j + w \<le> length xs" using slice_end_le [of j n w] assms by simp
  then show "length (slice w j (put_slice w i ys xs)) = length (slice w j xs)"
    using assms length_put_slice [of w n xs i ys] by (simp add: slice_def)
  fix k assume "k < length (slice w j (put_slice w i ys xs))"
  then have k: "k < w" by (simp add: slice_def)
  have "\<not> (w * i \<le> w * j + k \<and> w * j + k < w * i + w)"
  proof (cases i j rule: linorder_cases)
    case less
    then show ?thesis using slice_end_le [of i j w] by simp
  next
    case greater
    then show ?thesis using slice_end_le [of j i w] k by simp
  qed (use assms in simp)
  with k \<open>w * j + w \<le> length xs\<close> show "slice w j (put_slice w i ys xs) ! k = slice w j xs ! k"
    using assms nth_put_slice [of w n xs i ys "w * j + k"] length_put_slice [of w n xs i ys]
    by (auto simp: slice_def)
qed

lemma put_slice_id: "w * n \<le> length xs \<Longrightarrow> i < n \<Longrightarrow> put_slice w i (slice w i xs) xs = xs"
  using slice_end_le [of i n w]
  by (intro nth_equalityI) (auto simp: length_put_slice length_slice nth_put_slice slice_def)

lemma take_put_slice_beyond: "m \<le> w * i \<Longrightarrow> w * i \<le> length xs \<Longrightarrow> take m (put_slice w i ys xs) = take m xs"
  by (simp add: put_slice_def)

lemma slice_take: "w * n \<le> m \<Longrightarrow> i < n \<Longrightarrow> slice w i (take m xs) = slice w i xs"
  using slice_end_le [of i n w] by (auto simp: slice_def drop_take min_def)

section \<open>Truncating division\<close>

text \<open>Division and remainder of signed C integers round toward zero.\<close>

definition cdiv :: "int \<Rightarrow> int \<Rightarrow> int" where
  "cdiv a b = sgn a * sgn b * (\<bar>a\<bar> div \<bar>b\<bar>)"

definition cmod :: "int \<Rightarrow> int \<Rightarrow> int" where
  "cmod a b = a - cdiv a b * b"

lemma cdiv_nonneg: "0 \<le> a \<Longrightarrow> 0 < b \<Longrightarrow> cdiv a b = a div b"
  by (cases "a = 0") (simp_all add: cdiv_def)

lemma cmod_nonneg: "0 \<le> a \<Longrightarrow> 0 < b \<Longrightarrow> cmod a b = a mod b"
  by (simp add: cmod_def cdiv_nonneg minus_div_mult_eq_mod)

section \<open>Words\<close>

lemma unat_mod_less:
  fixes x n :: "'a::len word"
  assumes "0 < unat n"
  shows "unat (x mod n) < unat n"
  using assms by (simp add: unat_mod)

lemma unat_Suc_less:
  fixes x y :: "'a::len word"
  assumes "x < y"
  shows "unat (x + 1) = unat x + 1"
proof -
  have "unat x + 1 < 2 ^ LENGTH('a)"
    using assms unsigned_less [of y] by (metis Suc_eq_plus1 Suc_leI le_less_trans word_less_nat_alt)
  then show ?thesis by (simp add: unat_word_ariths)
qed

lemma xor_right_inj: "u XOR b = v XOR b \<Longrightarrow> u = (v :: 'a::len word)"
  by (drule arg_cong [where f = "\<lambda>y. y XOR b"]) (simp only: xor.assoc xor_self_eq xor.right_neutral)

section \<open>Big-endian values\<close>

text \<open>The number a byte string denotes, most significant byte first.\<close>

definition be_value :: "u8 list \<Rightarrow> int" where
  "be_value bs = fold (\<lambda>b v. v * 256 + uint b) bs 0"

lemma be_value_simps [simp]: "be_value [] = 0" "be_value [b] = uint b"
  by (simp_all add: be_value_def)

lemma be_value_append:
  "be_value (xs @ ys) = be_value xs * 256 ^ length ys + be_value ys"
proof -
  have "fold (\<lambda>b v. v * 256 + uint b) ys a = a * 256 ^ length ys + fold (\<lambda>b v. v * 256 + uint b) ys 0" for a
  proof (induction ys arbitrary: a)
    case (Cons y ys)
    show ?case using Cons [of "a * 256 + uint y"] Cons [of "uint y"] by (simp add: algebra_simps)
  qed simp
  from this [of "be_value xs"] show ?thesis by (simp add: be_value_def)
qed

lemma be_value_bounds: "0 \<le> be_value bs \<and> be_value bs < 256 ^ length bs"
proof (induction bs rule: rev_induct)
  case (snoc b bs)
  have "uint b < 256" using uint_lt2p [of b] by simp
  with snoc show ?case by (auto simp: be_value_append)
qed simp

lemma be_value_Cons: "be_value (b # bs) = uint b * 256 ^ length bs + be_value bs"
  using be_value_append [of "[b]" bs] by simp

lemma be_value_inj: "length xs = length ys \<Longrightarrow> be_value xs = be_value ys \<longleftrightarrow> xs = ys"
proof (induction xs ys rule: list_induct2)
  case (Cons x xs y ys)
  have "u = v" if "u * (256 ^ n) + a = v * 256 ^ n + b" "0 \<le> a" "a < 256 ^ n" "0 \<le> b" "b < 256 ^ n" for u v a b :: int and n
  proof -
    have "(u * 256 ^ n + a) div 256 ^ n = u" using that(2,3) by simp
    moreover have "(v * 256 ^ n + b) div 256 ^ n = v" using that(4,5) by simp
    ultimately show ?thesis using that(1) by simp
  qed
  from this [of "uint x" "length xs" "be_value xs" "uint y" "be_value ys"]
  have "be_value (x # xs) = be_value (y # ys) \<Longrightarrow> uint x = uint y"
    using be_value_bounds [of xs] be_value_bounds [of ys] Cons.hyps by (simp add: be_value_Cons)
  with Cons show ?case by (auto simp: be_value_Cons word_uint_eq_iff)
qed simp

lemma uint_shift_byte:
  fixes a :: u64 and b :: u8
  assumes "uint a < 2 ^ 56"
  shows "uint (push_bit 8 a OR ucast b) = uint a * 256 + uint b"
proof -
  have "uint b < 256" using uint_lt2p [of b] by simp
  have "push_bit 8 a OR ucast b = push_bit 8 a + (ucast b :: u64)"
  proof (rule disjunctive_add [symmetric])
    fix n
    show "\<not> bit (push_bit 8 a) n \<or> \<not> bit (ucast b :: u64) n"
      using bit_imp_le_length [of b n] by (simp add: bit_push_bit_iff bit_unsigned_iff) linarith
  qed
  moreover define n where "n = uint a * 256 + uint b"
  moreover have "push_bit 8 a + ucast b = (of_int n :: u64)"
    unfolding n_def by (simp add: push_bit_eq_mult)
  moreover have "0 \<le> n" "n < 2 ^ 64" using assms \<open>uint b < 256\<close> by (simp_all add: n_def)
  then have "uint (of_int n :: u64) = n" by (simp add: uint_word_of_int_eq take_bit_int_eq_self)
  ultimately show ?thesis by simp
qed

lemma uint_fold_bytes:
  "length bs \<le> 8 \<Longrightarrow> uint (fold (\<lambda>b acc. push_bit 8 acc OR ucast b) bs (0 :: u64)) = be_value bs"
proof (induction bs rule: rev_induct)
  case (snoc b bs)
  have "be_value bs < 256 ^ length bs" using be_value_bounds by blast
  also have "256 ^ length bs \<le> (256 ^ 7 :: int)" using snoc.prems by (intro power_increasing) auto
  finally have "be_value bs < 2 ^ 56" by simp
  with snoc show ?case by (simp add: be_value_append uint_shift_byte)
qed simp

end
