(* ===== verification/BitOps.thy ===== *)
theory BitOps
  imports Prelude
begin

text \<open>
  The arithmetic primitives of the proof of work: \<open>src/libethash/bit_manipulation.h\<close>
  (rotations, bit counts, high multiplication, the FNV hashes), the KISS99 generator of
  \<open>src/libethash/kiss99.hpp\<close> and the byte-order helpers of
  \<open>src/libethash/endianness.hpp\<close> in their little-endian variant, the one built on the
  supported (x86) targets.
\<close>

section \<open>Rotations\<close>

text \<open>
  The code masks the count to five bits and negates it as an \<^verbatim>\<open>int\<close> converted back to
  \<^verbatim>\<open>unsigned\<close>, which is negation modulo two to the 32.
\<close>

definition rotl32 :: "u32 \<Rightarrow> u32 \<Rightarrow> u32" where
  "rotl32 n c =
     (let mask = 31; c = c AND mask; neg_c = - c
      in push_bit (unat c) n OR drop_bit (unat (neg_c AND mask)) n)"

definition rotr32 :: "u32 \<Rightarrow> u32 \<Rightarrow> u32" where
  "rotr32 n c =
     (let mask = 31; c = c AND mask; neg_c = - c
      in drop_bit (unat c) n OR push_bit (unat (neg_c AND mask)) n)"

section \<open>Bit counts\<close>

text \<open>The compiler builtins: leading zero bits of a non-zero word, number of set bits.\<close>

definition builtin_clz :: "u32 \<Rightarrow> u32" where
  "builtin_clz x = of_nat (length (takeWhile (\<lambda>i. \<not> bit x i) (rev [0..<32])))"

definition builtin_popcount :: "u32 \<Rightarrow> u32" where
  "builtin_popcount x = of_nat (length (filter (bit x) [0..<32]))"

definition clz32 :: "u32 \<Rightarrow> u32" where
  "clz32 x = (if x \<noteq> 0 then builtin_clz x else 32)"

definition popcount32 :: "u32 \<Rightarrow> u32" where
  "popcount32 x = builtin_popcount x"

definition mul_hi32 :: "u32 \<Rightarrow> u32 \<Rightarrow> u32" where
  "mul_hi32 x y = ucast (drop_bit 32 ((ucast x :: u64) * (ucast y :: u64)))"

section \<open>FNV\<close>

definition fnv_prime :: u32 where
  "fnv_prime = 0x01000193"

definition fnv_offset_basis :: u32 where
  "fnv_offset_basis = 0x811c9dc5"

definition fnv1 :: "u32 \<Rightarrow> u32 \<Rightarrow> u32" where
  "fnv1 u v = (u * fnv_prime) XOR v"

definition fnv1a :: "u32 \<Rightarrow> u32 \<Rightarrow> u32" where
  "fnv1a u v = (u XOR v) * fnv_prime"

section \<open>KISS99\<close>

record kiss99 =
  kiss_z :: u32
  kiss_w :: u32
  kiss_jsr :: u32
  kiss_jcong :: u32

definition kiss99_default :: kiss99 where
  "kiss99_default =
     \<lparr>kiss_z = 362436069, kiss_w = 521288629, kiss_jsr = 123456789, kiss_jcong = 380116160\<rparr>"

definition kiss99_next :: "kiss99 \<Rightarrow> u32 \<times> kiss99" where
  "kiss99_next r =
     (let z = kiss_z r; w = kiss_w r; jsr = kiss_jsr r; jcong = kiss_jcong r;
          z = 36969 * (z AND 0xffff) + drop_bit 16 z;
          w = 18000 * (w AND 0xffff) + drop_bit 16 w;
          jcong = 69069 * jcong + 1234567;
          jsr = jsr XOR push_bit 17 jsr;
          jsr = jsr XOR drop_bit 13 jsr;
          jsr = jsr XOR push_bit 5 jsr
      in (((push_bit 16 z + w) XOR jcong) + jsr,
          \<lparr>kiss_z = z, kiss_w = w, kiss_jsr = jsr, kiss_jcong = jcong\<rparr>))"

section \<open>Byte order\<close>

text \<open>On a little-endian target the \<^verbatim>\<open>le\<close> helpers are the identity.\<close>

definition le_uint32 :: "u32 \<Rightarrow> u32" where
  "le_uint32 x = x"

definition le_uint64 :: "u64 \<Rightarrow> u64" where
  "le_uint64 x = x"

definition byte_at :: "'a::len word \<Rightarrow> nat \<Rightarrow> u8" where
  "byte_at x i = ucast (drop_bit (8 * i) x)"

definition bswap64 :: "u64 \<Rightarrow> u64" where
  "bswap64 x = fold (\<lambda>i acc. push_bit 8 acc OR ucast (byte_at x i)) [0..<8] 0"

definition be_uint64 :: "u64 \<Rightarrow> u64" where
  "be_uint64 x = bswap64 x"

section \<open>Facts on the primitives\<close>

lemma shift_or_rotl:
  fixes x :: "'a::len word"
  assumes s: "s < LENGTH('a)"
  shows "push_bit s x OR drop_bit (LENGTH('a) - s) x = word_rotl s x"
proof (rule bit_word_eqI)
  fix n assume n: "n < LENGTH('a)"
  show "bit (push_bit s x OR drop_bit (LENGTH('a) - s) x) n \<longleftrightarrow> bit (word_rotl s x) n"
  proof (cases "s \<le> n")
    case True
    then have "(n + (LENGTH('a) - s)) mod LENGTH('a) = (LENGTH('a) + (n - s)) mod LENGTH('a)"
      using s by (simp add: algebra_simps)
    also have "\<dots> = n - s" using n by simp
    finally have "(n + (LENGTH('a) - s)) mod LENGTH('a) = n - s" .
    moreover have "\<not> bit x (LENGTH('a) - s + n)"
      using True s by (auto dest: bit_imp_le_length)
    ultimately show ?thesis
      using True n s by (simp add: bit_simps)
  next
    case False
    then have "(n + (LENGTH('a) - s)) mod LENGTH('a) = LENGTH('a) - s + n"
      using s by simp
    then show ?thesis using False n s by (simp add: bit_simps)
  qed
qed

lemma word_rotl_zero: "word_rotl 0 x = (x :: 'a::len word)"
  by (rule bit_word_eqI) (simp add: bit_simps)

lemma unat_mask5: "unat ((c :: u32) AND 31) = unat c mod 32"
proof -
  have "c AND 31 = take_bit 5 c" by (simp add: take_bit_eq_mask mask_eq_exp_minus_1)
  then show ?thesis by (simp add: unsigned_take_bit_eq take_bit_nat_def)
qed

lemma unat_neg_mask5: "unat (- ((c :: u32) AND 31)) mod 32 = (32 - unat c mod 32) mod 32"
proof -
  define k where "k = unat c mod 32"
  then have k: "k < 32" by simp
  have "c AND 31 = of_nat k"
    by (simp add: k_def unat_mask5 [symmetric])
  then have "- (c AND 31) = of_nat (4294967296 - k)" using k by simp
  then have "unat (- (c AND 31)) mod 32 = (4294967296 - k) mod 4294967296 mod 32"
    by (simp add: unat_of_nat)
  also have "\<dots> = (32 - k) mod 32"
  proof (cases "k = 0")
    case False
    then have "4294967296 - k = 32 * 134217727 + (32 - k)" using k by simp
    then have "(4294967296 - k) mod 32 = (32 - k) mod 32" by (metis mod_mult_self4)
    then show ?thesis using False by simp
  qed simp
  finally show ?thesis by (simp add: k_def)
qed

lemma shift_or_rotl_masked:
  fixes x :: "'a::len word"
  assumes s: "s < LENGTH('a)"
  shows "push_bit s x OR drop_bit ((LENGTH('a) - s) mod LENGTH('a)) x = word_rotl s x"
proof (cases "s = 0")
  case True
  then show ?thesis by (simp add: word_rotl_zero)
next
  case False
  then show ?thesis using shift_or_rotl [OF s, of x] s by simp
qed

lemma word_rotl_mod: "word_rotl (n mod LENGTH('a)) (x :: 'a::len word) = word_rotl n x"
  by (rule bit_word_eqI) (simp add: bit_simps mod_simps)

lemma word_rotr_mod: "word_rotr (n mod LENGTH('a)) (x :: 'a::len word) = word_rotr n x"
  by (rule bit_word_eqI) (simp add: bit_simps mod_simps)

lemma rotl32_eq: "rotl32 n c = word_rotl (unat c) n"
proof -
  have "rotl32 n c = word_rotl (unat c mod 32) n"
    using shift_or_rotl_masked [of "unat c mod 32" n]
    by (simp only: rotl32_def Let_def unat_mask5 unat_neg_mask5) simp
  then show ?thesis using word_rotl_mod [of "unat c" n] by simp
qed

lemma rotr32_eq: "rotr32 n c = word_rotr (unat c) n"
proof -
  let ?s = "unat c mod 32"
  have "drop_bit ?s n OR push_bit ((32 - ?s) mod 32) n = word_rotl (32 - ?s) n"
    using shift_or_rotl_masked [of "(32 - ?s) mod 32" n] word_rotl_mod [of "32 - ?s" n]
    by (cases "?s = 0") (simp_all add: or.commute)
  also have "\<dots> = word_rotr ?s n"
    using word_rotr_mod [of 32 n] by (cases "?s = 0") (simp_all add: word_rotl_eq_word_rotr)
  finally show ?thesis
    using word_rotr_mod [of "unat c" n] by (simp only: rotr32_def Let_def unat_mask5 unat_neg_mask5) simp
qed

lemma rotr32_rotl32: "rotr32 (rotl32 n c) c = n" "rotl32 (rotr32 n c) c = n"
  by (simp_all add: rotl32_eq rotr32_eq)

lemma rotl32_inj: "rotl32 a c = rotl32 b c \<Longrightarrow> a = b"
  by (drule arg_cong [where f = "\<lambda>y. rotr32 y c"]) (simp only: rotr32_rotl32)

lemma rotr32_inj: "rotr32 a c = rotr32 b c \<Longrightarrow> a = b"
  by (drule arg_cong [where f = "\<lambda>y. rotl32 y c"]) (simp only: rotr32_rotl32)

lemma mul_hi32_eq: "uint (mul_hi32 x y) = uint x * uint y div 2 ^ 32"
proof -
  have "uint x < 2 ^ 32" "uint y < 2 ^ 32" using uint_lt2p [of x] uint_lt2p [of y] by simp_all
  then have p: "uint x * uint y < 2 ^ 64" 
    using mult_strict_mono [of "uint x" "2 ^ 32" "uint y" "2 ^ 32"] by simp
  then have "0 \<le> uint x * uint y div 2 ^ 32" "uint x * uint y div 2 ^ 32 < 2 ^ 32"
    by (simp_all add: pos_imp_zdiv_nonneg_iff)
  with p show ?thesis
    by (simp add: mul_hi32_def unsigned_ucast_eq unsigned_drop_bit_eq uint_word_ariths(3) uint_up_ucast is_up drop_bit_eq_div take_bit_eq_mod uint_div_distrib
        mod_simps)
qed

end
