(* ===== verification/Keccak.thy ===== *)
theory Keccak
  imports BitOps
begin

text \<open>
  The Keccak permutations and the sponge of \<open>src/libethash\<close>: \<open>keccakf800.c\<close>,
  \<open>keccakf1600.c\<close> and \<open>keccak.c\<close>. The unrolled rounds are shown equal to the five step
  mappings of the Keccak reference (theta, rho, pi, chi, iota), their constants to the
  ones the reference derives from a shift register, and the streaming sponge to padding
  the whole message first.
\<close>

section \<open>The permutations\<close>

text \<open>
  \<open>rol\<close> is called with constant shifts between 1 and the word size minus 1 only. The loop
  body of the C code performs two rounds, one from the \<^verbatim>\<open>Axx\<close> variables to the
  \<^verbatim>\<open>Exx\<close> ones and one back; the two halves are the same text with the names
  exchanged, so the half round is one definition, applied twice with the two constants.
\<close>

definition rol :: "'a::len word \<Rightarrow> nat \<Rightarrow> 'a word" where
  "rol x s = push_bit s x OR drop_bit (LENGTH('a) - s) x"

definition round_constants_800 :: "u32 list" where
  "round_constants_800 =
     [0x00000001, 0x00008082, 0x0000808A, 0x80008000,
      0x0000808B, 0x80000001, 0x80008081, 0x00008009,
      0x0000008A, 0x00000088, 0x80008009, 0x8000000A,
      0x8000808B, 0x0000008B, 0x00008089, 0x00008003,
      0x00008002, 0x00000080, 0x0000800A, 0x8000000A,
      0x80008081, 0x00008080]"

definition keccakf800_round :: "u32 \<Rightarrow> u32 list \<Rightarrow> u32 list" where
  "keccakf800_round rc A =
     (let Aba = A ! 0; Abe = A ! 1; Abi = A ! 2; Abo = A ! 3; Abu = A ! 4;
          Aga = A ! 5; Age = A ! 6; Agi = A ! 7; Ago = A ! 8; Agu = A ! 9;
          Aka = A ! 10; Ake = A ! 11; Aki = A ! 12; Ako = A ! 13; Aku = A ! 14;
          Ama = A ! 15; Ame = A ! 16; Ami = A ! 17; Amo = A ! 18; Amu = A ! 19;
          Asa = A ! 20; Ase = A ! 21; Asi = A ! 22; Aso = A ! 23; Asu = A ! 24;
          Ba = Aba XOR Aga XOR Aka XOR Ama XOR Asa;
          Be = Abe XOR Age XOR Ake XOR Ame XOR Ase;
          Bi = Abi XOR Agi XOR Aki XOR Ami XOR Asi;
          Bo = Abo XOR Ago XOR Ako XOR Amo XOR Aso;
          Bu = Abu XOR Agu XOR Aku XOR Amu XOR Asu;
          Da = Bu XOR rol Be 1;
          De = Ba XOR rol Bi 1;
          Di = Be XOR rol Bo 1;
          Do = Bi XOR rol Bu 1;
          Du = Bo XOR rol Ba 1;
          Ba = Aba XOR Da;
          Be = rol (Age XOR De) 12;
          Bi = rol (Aki XOR Di) 11;
          Bo = rol (Amo XOR Do) 21;
          Bu = rol (Asu XOR Du) 14;
          Eba = Ba XOR (NOT Be AND Bi) XOR rc;
          Ebe = Be XOR (NOT Bi AND Bo);
          Ebi = Bi XOR (NOT Bo AND Bu);
          Ebo = Bo XOR (NOT Bu AND Ba);
          Ebu = Bu XOR (NOT Ba AND Be);
          Ba = rol (Abo XOR Do) 28;
          Be = rol (Agu XOR Du) 20;
          Bi = rol (Aka XOR Da) 3;
          Bo = rol (Ame XOR De) 13;
          Bu = rol (Asi XOR Di) 29;
          Ega = Ba XOR (NOT Be AND Bi);
          Ege = Be XOR (NOT Bi AND Bo);
          Egi = Bi XOR (NOT Bo AND Bu);
          Ego = Bo XOR (NOT Bu AND Ba);
          Egu = Bu XOR (NOT Ba AND Be);
          Ba = rol (Abe XOR De) 1;
          Be = rol (Agi XOR Di) 6;
          Bi = rol (Ako XOR Do) 25;
          Bo = rol (Amu XOR Du) 8;
          Bu = rol (Asa XOR Da) 18;
          Eka = Ba XOR (NOT Be AND Bi);
          Eke = Be XOR (NOT Bi AND Bo);
          Eki = Bi XOR (NOT Bo AND Bu);
          Eko = Bo XOR (NOT Bu AND Ba);
          Eku = Bu XOR (NOT Ba AND Be);
          Ba = rol (Abu XOR Du) 27;
          Be = rol (Aga XOR Da) 4;
          Bi = rol (Ake XOR De) 10;
          Bo = rol (Ami XOR Di) 15;
          Bu = rol (Aso XOR Do) 24;
          Ema = Ba XOR (NOT Be AND Bi);
          Eme = Be XOR (NOT Bi AND Bo);
          Emi = Bi XOR (NOT Bo AND Bu);
          Emo = Bo XOR (NOT Bu AND Ba);
          Emu = Bu XOR (NOT Ba AND Be);
          Ba = rol (Abi XOR Di) 30;
          Be = rol (Ago XOR Do) 23;
          Bi = rol (Aku XOR Du) 7;
          Bo = rol (Ama XOR Da) 9;
          Bu = rol (Ase XOR De) 2;
          Esa = Ba XOR (NOT Be AND Bi);
          Ese = Be XOR (NOT Bi AND Bo);
          Esi = Bi XOR (NOT Bo AND Bu);
          Eso = Bo XOR (NOT Bu AND Ba);
          Esu = Bu XOR (NOT Ba AND Be)
      in [Eba, Ebe, Ebi, Ebo, Ebu,
          Ega, Ege, Egi, Ego, Egu,
          Eka, Eke, Eki, Eko, Eku,
          Ema, Eme, Emi, Emo, Emu,
          Esa, Ese, Esi, Eso, Esu])"

definition ethash_keccakf800 :: "u32 list \<Rightarrow> u32 list" where
  "ethash_keccakf800 state =
     fold (\<lambda>round A. keccakf800_round (round_constants_800 ! (round + 1))
                        (keccakf800_round (round_constants_800 ! round) A))
       (map ((*) 2) [0..<11]) state"

definition round_constants_1600 :: "u64 list" where
  "round_constants_1600 =
     [0x0000000000000001, 0x0000000000008082, 0x800000000000808a, 0x8000000080008000,
      0x000000000000808b, 0x0000000080000001, 0x8000000080008081, 0x8000000000008009,
      0x000000000000008a, 0x0000000000000088, 0x0000000080008009, 0x000000008000000a,
      0x000000008000808b, 0x800000000000008b, 0x8000000000008089, 0x8000000000008003,
      0x8000000000008002, 0x8000000000000080, 0x000000000000800a, 0x800000008000000a,
      0x8000000080008081, 0x8000000000008080, 0x0000000080000001, 0x8000000080008008]"

definition keccakf1600_round :: "u64 \<Rightarrow> u64 list \<Rightarrow> u64 list" where
  "keccakf1600_round rc A =
     (let Aba = A ! 0; Abe = A ! 1; Abi = A ! 2; Abo = A ! 3; Abu = A ! 4;
          Aga = A ! 5; Age = A ! 6; Agi = A ! 7; Ago = A ! 8; Agu = A ! 9;
          Aka = A ! 10; Ake = A ! 11; Aki = A ! 12; Ako = A ! 13; Aku = A ! 14;
          Ama = A ! 15; Ame = A ! 16; Ami = A ! 17; Amo = A ! 18; Amu = A ! 19;
          Asa = A ! 20; Ase = A ! 21; Asi = A ! 22; Aso = A ! 23; Asu = A ! 24;
          Ba = Aba XOR Aga XOR Aka XOR Ama XOR Asa;
          Be = Abe XOR Age XOR Ake XOR Ame XOR Ase;
          Bi = Abi XOR Agi XOR Aki XOR Ami XOR Asi;
          Bo = Abo XOR Ago XOR Ako XOR Amo XOR Aso;
          Bu = Abu XOR Agu XOR Aku XOR Amu XOR Asu;
          Da = Bu XOR rol Be 1;
          De = Ba XOR rol Bi 1;
          Di = Be XOR rol Bo 1;
          Do = Bi XOR rol Bu 1;
          Du = Bo XOR rol Ba 1;
          Ba = Aba XOR Da;
          Be = rol (Age XOR De) 44;
          Bi = rol (Aki XOR Di) 43;
          Bo = rol (Amo XOR Do) 21;
          Bu = rol (Asu XOR Du) 14;
          Eba = Ba XOR (NOT Be AND Bi) XOR rc;
          Ebe = Be XOR (NOT Bi AND Bo);
          Ebi = Bi XOR (NOT Bo AND Bu);
          Ebo = Bo XOR (NOT Bu AND Ba);
          Ebu = Bu XOR (NOT Ba AND Be);
          Ba = rol (Abo XOR Do) 28;
          Be = rol (Agu XOR Du) 20;
          Bi = rol (Aka XOR Da) 3;
          Bo = rol (Ame XOR De) 45;
          Bu = rol (Asi XOR Di) 61;
          Ega = Ba XOR (NOT Be AND Bi);
          Ege = Be XOR (NOT Bi AND Bo);
          Egi = Bi XOR (NOT Bo AND Bu);
          Ego = Bo XOR (NOT Bu AND Ba);
          Egu = Bu XOR (NOT Ba AND Be);
          Ba = rol (Abe XOR De) 1;
          Be = rol (Agi XOR Di) 6;
          Bi = rol (Ako XOR Do) 25;
          Bo = rol (Amu XOR Du) 8;
          Bu = rol (Asa XOR Da) 18;
          Eka = Ba XOR (NOT Be AND Bi);
          Eke = Be XOR (NOT Bi AND Bo);
          Eki = Bi XOR (NOT Bo AND Bu);
          Eko = Bo XOR (NOT Bu AND Ba);
          Eku = Bu XOR (NOT Ba AND Be);
          Ba = rol (Abu XOR Du) 27;
          Be = rol (Aga XOR Da) 36;
          Bi = rol (Ake XOR De) 10;
          Bo = rol (Ami XOR Di) 15;
          Bu = rol (Aso XOR Do) 56;
          Ema = Ba XOR (NOT Be AND Bi);
          Eme = Be XOR (NOT Bi AND Bo);
          Emi = Bi XOR (NOT Bo AND Bu);
          Emo = Bo XOR (NOT Bu AND Ba);
          Emu = Bu XOR (NOT Ba AND Be);
          Ba = rol (Abi XOR Di) 62;
          Be = rol (Ago XOR Do) 55;
          Bi = rol (Aku XOR Du) 39;
          Bo = rol (Ama XOR Da) 41;
          Bu = rol (Ase XOR De) 2;
          Esa = Ba XOR (NOT Be AND Bi);
          Ese = Be XOR (NOT Bi AND Bo);
          Esi = Bi XOR (NOT Bo AND Bu);
          Eso = Bo XOR (NOT Bu AND Ba);
          Esu = Bu XOR (NOT Ba AND Be)
      in [Eba, Ebe, Ebi, Ebo, Ebu,
          Ega, Ege, Egi, Ego, Egu,
          Eka, Eke, Eki, Eko, Eku,
          Ema, Eme, Emi, Emo, Emu,
          Esa, Ese, Esi, Eso, Esu])"

definition ethash_keccakf1600 :: "u64 list \<Rightarrow> u64 list" where
  "ethash_keccakf1600 state =
     fold (\<lambda>round A. keccakf1600_round (round_constants_1600 ! (round + 1))
                        (keccakf1600_round (round_constants_1600 ! round) A))
       (map ((*) 2) [0..<12]) state"

section \<open>The sponge\<close>

text \<open>
  \<open>load_le\<close> reads up to eight bytes as a little-endian number; the code's \<^verbatim>\<open>last_word\<close> is
  zero before the trailing bytes are stored into it from the low end, so it is the same
  read of the remaining bytes followed by the padding byte 1. The block loop advances by
  \<^verbatim>\<open>block_size\<close>, which is 136 or 72 for the two digest sizes in use; the test
  \<open>0 < block_size\<close> only serves the termination argument.
\<close>

definition load_le :: "u8 list \<Rightarrow> u64" where
  "load_le bs = foldr (\<lambda>b acc. push_bit 8 acc OR ucast b) (take 8 bs) 0"

definition xor_block :: "nat \<Rightarrow> u64 list \<Rightarrow> u8 list \<Rightarrow> u64 list" where
  "xor_block block_size state data =
     fold (\<lambda>i state. state[i := state ! i XOR load_le (drop (8 * i) data)])
       [0..<block_size div 8] state"

function absorb_blocks :: "nat \<Rightarrow> u64 list \<Rightarrow> u8 list \<Rightarrow> u64 list \<times> u8 list" where
  "absorb_blocks block_size state data =
     (if block_size \<le> length data \<and> 0 < block_size
      then absorb_blocks block_size (ethash_keccakf1600 (xor_block block_size state data))
             (drop block_size data)
      else (state, data))"
  by pat_completeness auto
termination
  by (relation "measure (\<lambda>(_, _, data). length data)") auto

function absorb_words :: "u64 list \<Rightarrow> nat \<Rightarrow> u8 list \<Rightarrow> u64 list \<times> nat \<times> u8 list" where
  "absorb_words state i data =
     (if 8 \<le> length data
      then absorb_words (state[i := state ! i XOR load_le data]) (i + 1) (drop 8 data)
      else (state, i, data))"
  by pat_completeness auto
termination
  by (relation "measure (\<lambda>(_, _, data). length data)") auto

declare absorb_blocks.simps [simp del] absorb_words.simps [simp del]

definition keccak :: "nat \<Rightarrow> u8 list \<Rightarrow> u64 list" where
  "keccak bits data =
     (let hash_size = bits div 8;
          block_size = (1600 - bits * 2) div 8;
          (state, data) = absorb_blocks block_size (replicate 25 0) data;
          (state, i, data) = absorb_words state 0 data;
          last_word = load_le (data @ [0x01]);
          state = state[i := state ! i XOR last_word];
          last = block_size div 8 - 1;
          state = state[last := state ! last XOR 0x8000000000000000];
          state = ethash_keccakf1600 state
      in take (hash_size div 8) state)"

text \<open>The hash unions: \<open>word32s\<close>, \<open>word64s\<close> and \<open>bytes\<close> views of the same memory.\<close>

type_synonym hash256 = "u32 list"
type_synonym hash512 = "u32 list"
type_synonym hash1024 = "u32 list"
type_synonym hash2048 = "u32 list"

definition bytes_of_words :: "u32 list \<Rightarrow> u8 list" where
  "bytes_of_words ws = concat (map (\<lambda>x. map (byte_at x) [0..<4]) ws)"

definition words_of_word64s :: "u64 list \<Rightarrow> u32 list" where
  "words_of_word64s ws = concat (map (\<lambda>x. [ucast x, ucast (drop_bit 32 x)]) ws)"

definition word64_at :: "u32 list \<Rightarrow> nat \<Rightarrow> u64" where
  "word64_at ws i = push_bit 32 (ucast (ws ! (2 * i + 1))) OR ucast (ws ! (2 * i))"

definition ethash_keccak256 :: "u8 list \<Rightarrow> hash256" where
  "ethash_keccak256 data = words_of_word64s (keccak 256 data)"

definition ethash_keccak256_32 :: "u8 list \<Rightarrow> hash256" where
  "ethash_keccak256_32 data = words_of_word64s (keccak 256 (take 32 data))"

definition ethash_keccak512 :: "u8 list \<Rightarrow> hash512" where
  "ethash_keccak512 data = words_of_word64s (keccak 512 data)"

definition ethash_keccak512_64 :: "u8 list \<Rightarrow> hash512" where
  "ethash_keccak512_64 data = words_of_word64s (keccak 512 (take 64 data))"

section \<open>The Keccak reference\<close>

text \<open>
  The step mappings of the Keccak reference on a state of 25 lanes, lane \<open>(x, y)\<close> at
  index \<open>x + 5 * y\<close>, for any lane width.
\<close>

definition theta :: "'a::len word list \<Rightarrow> 'a word list" where
  "theta A =
     (let C = (\<lambda>x. A ! x XOR A ! (x + 5) XOR A ! (x + 10) XOR A ! (x + 15) XOR A ! (x + 20));
          D = (\<lambda>x. C ((x + 4) mod 5) XOR word_rotl 1 (C ((x + 1) mod 5)))
      in map (\<lambda>i. A ! i XOR D (i mod 5)) [0..<25])"

fun rho_pos :: "nat \<Rightarrow> nat \<times> nat" where
  "rho_pos 0 = (1, 0)"
| "rho_pos (Suc t) = (case rho_pos t of (x, y) \<Rightarrow> (y, (2 * x + 3 * y) mod 5))"

definition rho_offset :: "nat \<Rightarrow> nat \<Rightarrow> nat" where
  "rho_offset x y =
     (case filter (\<lambda>t. rho_pos t = (x, y)) [0..<24] of
        [] \<Rightarrow> 0 | t # _ \<Rightarrow> (t + 1) * (t + 2) div 2)"

definition rho :: "'a::len word list \<Rightarrow> 'a word list" where
  "rho A = map (\<lambda>i. word_rotl (rho_offset (i mod 5) (i div 5) mod LENGTH('a)) (A ! i)) [0..<25]"

definition pi_step :: "'a::len word list \<Rightarrow> 'a word list" where
  "pi_step A =
     map (\<lambda>i. let x = i mod 5; y = i div 5 in A ! ((x + 3 * y) mod 5 + 5 * x)) [0..<25]"

definition chi :: "'a::len word list \<Rightarrow> 'a word list" where
  "chi A =
     map (\<lambda>i. let x = i mod 5; y = i div 5
               in A ! i XOR (NOT (A ! ((x + 1) mod 5 + 5 * y)) AND A ! ((x + 2) mod 5 + 5 * y)))
       [0..<25]"

definition iota :: "'a::len word \<Rightarrow> 'a word list \<Rightarrow> 'a word list" where
  "iota rc A = A[0 := A ! 0 XOR rc]"

definition keccak_round :: "'a::len word \<Rightarrow> 'a word list \<Rightarrow> 'a word list" where
  "keccak_round rc A = iota rc (chi (pi_step (rho (theta A))))"

text \<open>The round constants of the reference: bits of an eight-bit shift register.\<close>

fun lfsr_step :: "bool list \<Rightarrow> bool list" where
  "lfsr_step R =
     (let R = False # R; b = R ! 8
      in take 8 (R[0 := (R ! 0 \<noteq> b), 4 := (R ! 4 \<noteq> b), 5 := (R ! 5 \<noteq> b), 6 := (R ! 6 \<noteq> b)]))"

definition rc_bit :: "nat \<Rightarrow> bool" where
  "rc_bit t = ((lfsr_step ^^ (t mod 255)) (True # replicate 7 False)) ! 0"

definition keccak_rc :: "nat \<Rightarrow> 'a::len word" where
  "keccak_rc ir =
     fold (\<lambda>j acc. if rc_bit (j + 7 * ir) then acc OR push_bit (2 ^ j - 1) 1 else acc)
       (filter (\<lambda>j. 2 ^ j - 1 < LENGTH('a)) [0..<7]) 0"

definition keccak_f :: "nat \<Rightarrow> 'a::len word list \<Rightarrow> 'a word list" where
  "keccak_f nr A = fold (\<lambda>ir. keccak_round (keccak_rc ir)) [0..<nr] A"

text \<open>
  The Keccak sponge of the reference: the whole message is padded with a one bit, zero bits and
  a final one bit up to a multiple of the rate, cut into blocks, and the blocks are
  absorbed one after the other.
\<close>

definition keccak_pad :: "nat \<Rightarrow> nat \<Rightarrow> u8 list" where
  "keccak_pad rate len =
     (let q = rate - len mod rate
      in if q = 1 then [0x81] else 0x01 # replicate (q - 2) 0 @ [0x80])"

definition chunks :: "nat \<Rightarrow> 'a list \<Rightarrow> 'a list list" where
  "chunks n xs = map (\<lambda>k. take n (drop (n * k) xs)) [0..<length xs div n]"

definition absorb :: "nat \<Rightarrow> u8 list \<Rightarrow> u64 list \<Rightarrow> u64 list" where
  "absorb rate block S =
     keccak_f 24
       (map (\<lambda>i. if i < rate div 8 then S ! i XOR load_le (drop (8 * i) block) else S ! i) [0..<25])"

definition keccak_sponge :: "nat \<Rightarrow> u8 list \<Rightarrow> u64 list" where
  "keccak_sponge bits data =
     (let rate = (1600 - bits * 2) div 8
      in take (bits div 64)
           (fold (absorb rate) (chunks rate (data @ keccak_pad rate (length data))) (replicate 25 0)))"

text \<open>The output bits of the register and their table, for the evaluation of the constants.\<close>

fun lfsr_run :: "nat \<Rightarrow> bool list \<Rightarrow> bool list" where
  "lfsr_run 0 R = []"
| "lfsr_run (Suc n) R = R ! 0 # lfsr_run n (lfsr_step R)"

definition rc_table :: "bool list" where
  "rc_table =
     [True, False, False, False, False, False, False,
      False, True, False, True, True, False, False,
      False, True, True, True, True, False, True,
      False, False, False, False, True, True, True,
      True, True, True, True, True, False, False,
      True, False, False, False, False, True, False,
      True, False, False, True, True, True, True,
      True, False, True, False, True, False, True,
      False, True, True, True, False, False, False,
      False, False, True, True, False, False, False,
      True, False, True, False, True, True, False,
      False, True, True, False, False, True, False,
      True, True, True, True, True, True, False,
      True, True, True, True, False, False, True,
      True, False, True, True, True, False, True,
      True, True, False, False, True, False, True,
      False, True, False, False, True, False, True,
      False, False, False, True, False, False, True,
      False, True, True, False, True, False, False,
      False, True, True, False, False, True, True,
      True, False, False, True, True, True, True,
      False, False, False, True, True, False, True,
      True, False, False, False, False, True, False,
      False, False, True, False, True, True, True]"

section \<open>The unrolled rounds are the reference rounds\<close>

lemma rol_word_rotl: "s < LENGTH('a) \<Longrightarrow> rol x s = word_rotl s (x :: 'a::len word)"
  by (simp add: rol_def shift_or_rotl)

lemma rho_offsets:
  "map (\<lambda>i. rho_offset (i mod 5) (i div 5)) [0..<25] =
     [0, 1, 190, 28, 91, 36, 300, 6, 55, 276, 3, 10, 171, 153, 231, 105, 45, 15, 21, 136,
      210, 66, 253, 120, 78]"
  by code_simp

lemma nth_theta: "i < 25 \<Longrightarrow> theta A ! i = A ! i XOR (let C = (\<lambda>x. A ! x XOR A ! (x + 5) XOR A ! (x + 10) XOR A ! (x + 15) XOR A ! (x + 20)) in C ((i + 4) mod 5) XOR word_rotl 1 (C ((i + 1) mod 5)))"
  by (simp add: theta_def Let_def mod_simps)

lemma upt25: "[0..<25] = [0,1,2,3,4,5,6,7,8,9,10,11,12,13,14,15,16,17,18,19,20,21,22,23,24]"
  by code_simp

lemma rho_offset_at:
  "i < 25 \<Longrightarrow> rho_offset (i mod 5) (i div 5) =
     [0, 1, 190, 28, 91, 36, 300, 6, 55, 276, 3, 10, 171, 153, 231, 105, 45, 15, 21, 136,
      210, 66, 253, 120, 78] ! i"
  using arg_cong [OF rho_offsets, of "\<lambda>xs. xs ! i"] by simp

lemma nth_rho: 
  fixes A :: "'a::len word list"
  shows "i < 25 \<Longrightarrow> rho A ! i = word_rotl ([0, 1, 190, 28, 91, 36, 300, 6, 55, 276, 3, 10, 171, 153, 231, 105, 45, 15, 21, 136,
      210, 66, 253, 120, 78] ! i mod LENGTH('a)) (A ! i)"
  by (simp add: rho_def rho_offset_at)
lemma nth_pi: "i < 25 \<Longrightarrow> pi_step A ! i = A ! ((i mod 5 + 3 * (i div 5)) mod 5 + 5 * (i mod 5))"
  by (simp add: pi_step_def Let_def)

lemma keccakf800_round_eq: "keccakf800_round rc A = keccak_round rc A"
  by (simp add: keccakf800_round_def keccak_round_def iota_def chi_def upt25 Let_def nth_pi nth_rho nth_theta rol_word_rotl word_rotl_zero xor.assoc numeral_2_eq_2 [symmetric])

lemma keccakf1600_round_eq: "keccakf1600_round rc A = keccak_round rc A"
  by (simp add: keccakf1600_round_def keccak_round_def iota_def chi_def upt25 Let_def nth_pi nth_rho nth_theta rol_word_rotl word_rotl_zero xor.assoc numeral_2_eq_2 [symmetric])

lemma lfsr_run: "lfsr_run n R = map (\<lambda>t. (lfsr_step ^^ t) R ! 0) [0..<n]"
proof (induction n arbitrary: R)
  case (Suc n)
  show ?case
    by (simp add: Suc.IH upt_conv_Cons map_Suc_upt [symmetric] funpow_swap1 comp_def del: upt_Suc lfsr_step.simps)
qed simp

lemma rc_bits: "map rc_bit [0..<168] = lfsr_run 168 (True # replicate 7 False)"
  by (simp add: lfsr_run rc_bit_def del: upt_Suc lfsr_step.simps cong: map_cong)

lemma rc_table: "lfsr_run 168 (True # replicate 7 False) = rc_table"
  by code_simp

lemma rc_bit_table: "t < 168 \<Longrightarrow> rc_bit t = rc_table ! t"
  using arg_cong [OF trans [OF rc_bits rc_table], of "\<lambda>xs. xs ! t"] by simp

lemma upt7: "[0..<7] = [0, 1, 2, 3, 4, 5, 6]"
  by code_simp
lemma upt22: "[0..<22] = [0, 1, 2, 3, 4, 5, 6, 7, 8, 9, 10, 11, 12, 13, 14, 15, 16, 17, 18, 19, 20, 21]"
  by code_simp
lemma upt24: "[0..<24] = [0, 1, 2, 3, 4, 5, 6, 7, 8, 9, 10, 11, 12, 13, 14, 15, 16, 17, 18, 19, 20, 21, 22, 23]"
  by code_simp

lemma rc800: "map keccak_rc [0..<22] = round_constants_800"
  by (simp add: round_constants_800_def keccak_rc_def upt22 upt7 rc_bit_table rc_table_def)
lemma rc1600: "map keccak_rc [0..<24] = round_constants_1600"
  by (simp add: round_constants_1600_def keccak_rc_def upt24 upt7 rc_bit_table rc_table_def)

lemma fold_two_rounds:
  "fold (\<lambda>r A. f (r + 1) (f r A)) (map ((*) 2) [0..<n]) s = fold f [0..<2 * n] s"
  by (induction n) simp_all

lemma ethash_keccakf800_eq: "ethash_keccakf800 A = keccak_f 22 A"
proof -
  have "keccak_round (round_constants_800 ! r) = keccak_round (keccak_rc r)" if "r < 22" for r
    using that by (simp add: rc800 [symmetric])
  then have "fold (\<lambda>r. keccak_round (round_constants_800 ! r)) [0..<22] A = keccak_f 22 A"
    unfolding keccak_f_def by (intro fold_cong) auto
  then show ?thesis
    using fold_two_rounds [of "\<lambda>r. keccak_round (round_constants_800 ! r)" 11 A]
    by (simp add: ethash_keccakf800_def keccakf800_round_eq)
qed

lemma ethash_keccakf1600_eq: "ethash_keccakf1600 A = keccak_f 24 A"
proof -
  have "keccak_round (round_constants_1600 ! r) = keccak_round (keccak_rc r)" if "r < 24" for r
    using that by (simp add: rc1600 [symmetric])
  then have "fold (\<lambda>r. keccak_round (round_constants_1600 ! r)) [0..<24] A = keccak_f 24 A"
    unfolding keccak_f_def by (intro fold_cong) auto
  then show ?thesis
    using fold_two_rounds [of "\<lambda>r. keccak_round (round_constants_1600 ! r)" 12 A]
    by (simp add: ethash_keccakf1600_def keccakf1600_round_eq)
qed

lemma length_keccak_f: "0 < n \<Longrightarrow> length (keccak_f n A) = 25"
  by (cases n) (simp_all add: keccak_f_def keccak_round_def iota_def chi_def)

text \<open>
  C12: the unrolled permutations are the Keccak permutations: \<open>ethash_keccakf800\<close> applies the
  22 rounds of Keccak-f[800] and \<open>ethash_keccakf1600\<close> the 24 rounds of Keccak-f[1600], each
  round being the five reference step mappings and each round constant the one generated by the
  reference shift register.
\<close>
theorem keccak_permutations_correct:
  "ethash_keccakf800 A = keccak_f 22 A \<and> ethash_keccakf1600 B = keccak_f 24 B"
  by (simp add: ethash_keccakf800_eq ethash_keccakf1600_eq)

section \<open>The streaming sponge is the reference sponge\<close>

lemma bit_load_le_aux:
  "length bs \<le> 8 \<Longrightarrow> bit (foldr (\<lambda>b acc. push_bit 8 acc OR ucast b) bs (0 :: u64)) n \<longleftrightarrow>
     n div 8 < length bs \<and> bit ((bs :: u8 list) ! (n div 8)) (n mod 8)"
proof (induction bs arbitrary: n)
  case (Cons b bs)
  show ?case
  proof (cases "n < 8")
    case True
    then show ?thesis by (simp add: bit_simps)
  next
    case False
    then obtain m where m: "n = m + 8" by (metis add.commute le_Suc_ex not_less)
    let ?F = "foldr (\<lambda>b acc. push_bit 8 acc OR ucast b)"
    have "\<not> bit b n" using False by (auto dest: bit_imp_le_length)
    then have "bit (?F (b # bs) (0 :: u64)) n \<longleftrightarrow> m < 56 \<and> bit (?F bs (0 :: u64)) m"
      by (simp add: m bit_or_iff bit_push_bit_iff bit_unsigned_iff)
    also have "\<dots> \<longleftrightarrow> m < 56 \<and> m div 8 < length bs \<and> bit (bs ! (m div 8)) (m mod 8)"
      using Cons by simp
    also have "\<dots> \<longleftrightarrow> m div 8 < length bs \<and> bit (bs ! (m div 8)) (m mod 8)"
      using Cons.prems by auto
    also have "\<dots> \<longleftrightarrow> n div 8 < length (b # bs) \<and> bit ((b # bs) ! (n div 8)) (n mod 8)"
      by (simp add: m div_add1_eq)
    finally show ?thesis .
  qed
qed simp

lemma bit_load_le [bit_simps]:
  "bit (load_le bs) n \<longleftrightarrow> n < 64 \<and> n div 8 < length bs \<and> bit (bs ! (n div 8)) (n mod 8)"
  by (auto simp: load_le_def bit_load_le_aux)

lemma bit_load_le_drop:
  "bit (load_le (drop k bs)) n \<longleftrightarrow>
     n < 64 \<and> k + n div 8 < length bs \<and> bit (bs ! (k + n div 8)) (n mod 8)"
  by (cases "k \<le> length bs") (auto simp: bit_load_le)

lemma load_le_Nil [simp]: "load_le [] = 0"
  by (simp add: load_le_def)

lemma load_le_beyond: "length bs \<le> k \<Longrightarrow> load_le (drop k bs) = 0"
  by (simp add: load_le_def)

lemma load_le_append: "k + 8 \<le> length bs \<Longrightarrow> load_le (drop k (bs @ cs)) = load_le (drop k bs)"
  by (rule bit_word_eqI) (auto simp: bit_load_le_drop nth_append simp del: drop_append)

lemma length_keccak_pad: "0 < rate \<Longrightarrow> length (keccak_pad rate len) = rate - len mod rate"
proof -
  assume "0 < rate"
  then have "0 < rate - len mod rate" by simp
  then show ?thesis by (auto simp: keccak_pad_def Let_def)
qed

lemma bit_padded:
  assumes "length data < rate" and "k < rate"
  shows "bit ((data @ keccak_pad rate (length data)) ! k) m \<longleftrightarrow>
    (k < length data \<and> bit (data ! k) m \<or> k = length data \<and> m = 0) \<noteq> (k = rate - 1 \<and> m = 7)"
proof -
  have e: "(0x81 :: u8) = 1 OR push_bit 7 1" "(0x80 :: u8) = push_bit 7 1" by simp_all
  have b: "bit (0x81 :: u8) m \<longleftrightarrow> m = 0 \<or> m = 7" "bit (0x80 :: u8) m \<longleftrightarrow> m = 7" "bit (1 :: u8) m \<longleftrightarrow> m = 0"
    unfolding e bit_or_iff bit_push_bit_iff bit_1_iff by auto
  consider "k < length data" | "k = length data" | "length data < k" by linarith
  then show ?thesis
  proof cases
    case 1
    then show ?thesis using assms by (auto simp: nth_append)
  next
    case 2
    then show ?thesis using assms b by (auto simp: nth_append keccak_pad_def Let_def)
  next
    case 3
    then have "keccak_pad rate (length data) ! (k - length data) = (if k = rate - 1 then 0x80 else 0)"
      using assms by (auto simp: keccak_pad_def Let_def nth_Cons nth_append split: nat.splits)
    then show ?thesis using 3 assms b by (simp add: nth_append)
  qed
qed

lemma load_le_padded:
  assumes "length data < 8 * w" and "j < w"
  shows "load_le (drop (8 * j) (data @ keccak_pad (8 * w) (length data))) =
    load_le (drop (8 * j) (data @ [1])) XOR (if j = w - 1 then 0x8000000000000000 else 0)"
proof (rule bit_word_eqI)
  fix n assume "n < LENGTH(64)"
  then have n: "n < 64" by simp
  define k where "k = 8 * j + n div 8"
  have k: "k < 8 * w" using assms n unfolding k_def by auto
  have last: "k = 8 * w - 1 \<and> n mod 8 = 7 \<longleftrightarrow> j = w - 1 \<and> n = 63"
  proof -
    define a b where "a = n div 8" and "b = n mod 8"
    then have ab: "n = 8 * a + b" "b < 8" by simp_all
    have "8 * j + a = 8 * w - 1 \<and> b = 7 \<longleftrightarrow> j = w - 1 \<and> 8 * a + b = 63"
    proof (intro iffI conjI; elim conjE)
      assume "8 * j + a = 8 * w - 1" "b = 7"
      then show "j = w - 1" "8 * a + b = 63" using assms n ab by linarith+
    next
      assume "j = w - 1" "8 * a + b = 63"
      moreover from this have "b = 7" using ab(2) by presburger
      ultimately show "8 * j + a = 8 * w - 1" "b = 7" using assms by linarith+
    qed
    then show ?thesis by (simp only: k_def ab(1) [symmetric] a_def [symmetric] b_def [symmetric])
  qed
  have e: "(0x8000000000000000 :: u64) = push_bit 63 1" by simp
  have "bit (load_le (drop (8 * j) (data @ keccak_pad (8 * w) (length data)))) n \<longleftrightarrow>
     bit ((data @ keccak_pad (8 * w) (length data)) ! k) (n mod 8)"
    using n k assms by (simp add: bit_load_le_drop length_keccak_pad k_def [symmetric] del: drop_append)
  also have "\<dots> \<longleftrightarrow> (k < length data \<and> bit (data ! k) (n mod 8) \<or> k = length data \<and> n mod 8 = 0) \<noteq>
    (j = w - 1 \<and> n = 63)"
    unfolding last [symmetric] by (rule bit_padded [OF assms(1) k])
  also have "(k < length data \<and> bit (data ! k) (n mod 8) \<or> k = length data \<and> n mod 8 = 0) \<longleftrightarrow>
     bit (load_le (drop (8 * j) (data @ [1]))) n"
    using n by (auto simp: bit_load_le_drop k_def [symmetric] nth_append less_Suc_eq bit_1_iff simp del: drop_append)
  finally show "bit (load_le (drop (8 * j) (data @ keccak_pad (8 * w) (length data)))) n \<longleftrightarrow>
     bit (load_le (drop (8 * j) (data @ [1])) XOR (if j = w - 1 then 0x8000000000000000 else 0)) n"
    unfolding e bit_xor_iff if_distrib [of "\<lambda>x. bit x n"] bit_push_bit_iff bit_1_iff using n by auto
qed

lemma length_xor_block [len_simps]: "length (xor_block b S data) = length S"
  unfolding xor_block_def by (rule fold_invariant) auto

lemma nth_fold_xor:
  "n \<le> length S \<Longrightarrow> j < length S \<Longrightarrow>
     fold (\<lambda>i S. S[i := S ! i XOR f i]) [0..<n] S ! j = (if j < n then S ! j XOR f j else (S :: u64 list) ! j)"
  and length_fold_xor: "length (fold (\<lambda>i S. S[i := S ! i XOR f i]) [0..<n] S) = length S"
proof (induction n)
  case (Suc n)
  { case 1 then show ?case using Suc by (auto simp: nth_list_update) }
  { case 2 then show ?case using Suc by simp }
qed simp_all

lemma absorb_full_block:
  assumes "length S = 25" and "w \<le> 25" and "8 * w \<le> length data"
  shows "ethash_keccakf1600 (xor_block (8 * w) S data) = absorb (8 * w) (take (8 * w) data) S"
proof -
  have "load_le (drop (8 * i) (take (8 * w) data)) = load_le (drop (8 * i) data)" if "i < w" for i
    using that load_le_append [of "8 * i" "take (8 * w) data" "drop (8 * w) data"] assms(3) by simp
  then have "xor_block (8 * w) S data =
    map (\<lambda>i. if i < w then S ! i XOR load_le (drop (8 * i) (take (8 * w) data)) else S ! i) [0..<25]"
    using assms by (intro nth_equalityI) (simp_all add: xor_block_def nth_fold_xor length_fold_xor)
  then show ?thesis by (simp add: ethash_keccakf1600_eq absorb_def)
qed

lemma absorb_words_eq:
  "i + length data div 8 \<le> length S \<Longrightarrow> 
   absorb_words S i data =
     (fold (\<lambda>k S. S[i + k := S ! (i + k) XOR load_le (drop (8 * k) data)]) [0..<length data div 8] S,
      i + length data div 8, drop (8 * (length data div 8)) data)"
proof (induction S i data rule: absorb_words.induct)
  case (1 S i data)
  show ?case
  proof (cases "8 \<le> length data")
    case True
    then have d: "length data div 8 = Suc ((length data - 8) div 8)" by (simp add: le_div_geq)
    have u: "[0..<Suc m] = 0 # map Suc [0..<m]" for m by (simp add: upt_conv_Cons map_Suc_upt)
    from 1 True d show ?thesis
      by (simp add: absorb_words.simps [of S] u fold_map comp_def algebra_simps del: upt_Suc)
  qed (simp add: absorb_words.simps)
qed

lemma chunks_Cons: "0 < n \<Longrightarrow> n \<le> length xs \<Longrightarrow> chunks n xs = take n xs # chunks n (drop n xs)"
proof -
  assume "0 < n" "n \<le> length xs"
  then have d: "length xs div n = Suc ((length xs - n) div n)" by (simp add: le_div_geq)
  have u: "[0..<Suc m] = 0 # map Suc [0..<m]" for m by (simp add: upt_conv_Cons map_Suc_upt)
  show ?thesis unfolding chunks_def d u by (simp add: comp_def algebra_simps)
qed

lemma last_block:
  assumes "length S = 25" and "0 < w" and "w \<le> 25" and "length data < 8 * w"
  shows "(case absorb_words S 0 data of (state, i, data) \<Rightarrow>
      let state = state[i := state ! i XOR load_le (data @ [1])]
      in ethash_keccakf1600 (state[w - 1 := state ! (w - 1) XOR 0x8000000000000000])) =
    absorb (8 * w) (data @ keccak_pad (8 * w) (length data)) S"
proof -
  let ?i = "length data div 8"
  have i: "?i < w" using assms by auto
  have beyond: "load_le (drop (8 * j) (data @ [1])) = 0" if "?i < j" for j
    using that by (intro load_le_beyond) auto
  have inside: "load_le (drop (8 * j) (data @ [1])) = load_le (drop (8 * j) data)" if "j < ?i" for j
    using that by (intro load_le_append) auto
  have at: "drop (8 * j) data @ [1] = drop (8 * j) (data @ [1])" if "?i = j" for j
    using that by auto
  with assms i show ?thesis
    by (auto simp: absorb_words_eq Let_def at ethash_keccakf1600_eq absorb_def load_le_padded
        nth_fold_xor length_fold_xor nth_list_update xor.assoc inside beyond
        intro!: arg_cong [where f = "keccak_f 24"] nth_equalityI simp del: drop_append)
qed

lemma keccak_pad_mod: "keccak_pad rate (len + rate) = keccak_pad rate len"
  by (simp add: keccak_pad_def)

lemma length_absorb [len_simps]: "length (absorb rate block S) = 25"
  by (simp add: absorb_def length_keccak_f)

lemma chunks_single: "0 < n \<Longrightarrow> length xs = n \<Longrightarrow> chunks n xs = [xs]"
  by (simp add: chunks_Cons) (simp add: chunks_def)

lemma absorb_blocks_eq:
  assumes "length S = 25" and "0 < w" and "w \<le> 25" and "absorb_blocks (8 * w) S data = (S', rest)"
  shows "length S' = 25 \<and> length rest < 8 * w \<and>
    fold (absorb (8 * w)) (chunks (8 * w) (data @ keccak_pad (8 * w) (length data))) S =
      absorb (8 * w) (rest @ keccak_pad (8 * w) (length rest)) S'"
  using assms
proof (induction "8 * w" S data rule: absorb_blocks.induct)
  case (1 S data)
  show ?case
  proof (cases "8 * w \<le> length data")
    case True
    let ?S = "absorb (8 * w) (take (8 * w) data) S"
    have e: "ethash_keccakf1600 (xor_block (8 * w) S data) = ?S"
      using 1 True by (simp add: absorb_full_block)
    have p: "keccak_pad (8 * w) (length data) = keccak_pad (8 * w) (length (drop (8 * w) data))"
      using keccak_pad_mod [of "8 * w" "length data - 8 * w"] True by simp
    have c: "chunks (8 * w) (data @ keccak_pad (8 * w) (length data)) =
      take (8 * w) data # chunks (8 * w) (drop (8 * w) data @ keccak_pad (8 * w) (length (drop (8 * w) data)))"
      using 1 True by (subst chunks_Cons) (simp_all add: p)
    have "absorb_blocks (8 * w) ?S (drop (8 * w) data) = (S', rest)"
      using 1 True e by (simp add: absorb_blocks.simps [of _ S])
    then show ?thesis
      using 1 True e unfolding c by (simp add: length_absorb)
  next
    case False
    with 1 show ?thesis
      by (simp add: absorb_blocks.simps chunks_single length_keccak_pad)
  qed
qed

lemma keccak_sponge_eq:
  assumes "(1600 - bits * 2) div 8 = 8 * w" and "0 < w" and "w \<le> 25"
  shows "keccak bits data = keccak_sponge bits data"
proof -
  obtain S rest where S: "absorb_blocks (8 * w) (replicate 25 0) data = (S, rest)" by fastforce
  obtain S' i d where S': "absorb_words S 0 rest = (S', i, d)" by (metis prod_cases3)
  from absorb_blocks_eq [OF _ assms(2,3) S] have b: "length S = 25" "length rest < 8 * w"
    "fold (absorb (8 * w)) (chunks (8 * w) (data @ keccak_pad (8 * w) (length data))) (replicate 25 0) =
      absorb (8 * w) (rest @ keccak_pad (8 * w) (length rest)) S" by simp_all
  show ?thesis
    using last_block [OF b(1) assms(2,3) b(2)]
    by (simp add: keccak_def keccak_sponge_def assms(1) S S' b(3) Let_def div_mult2_eq [symmetric])
qed

text \<open>
  C7: the streaming implementation computes the Keccak sponge: for every message, absorbing whole
  blocks, then the remaining words, then the trailing bytes and the two padding bits in place
  gives the digest of the reference construction that pads the message first and cuts it into
  blocks, for both digest sizes the code uses.
\<close>
theorem keccak_sponge_correct:
  "keccak 256 data = keccak_sponge 256 data \<and> keccak 512 data = keccak_sponge 512 data"
  using keccak_sponge_eq [of 256 17 data] keccak_sponge_eq [of 512 9 data] by simp

lemma length_keccak [len_simps]:
  "length (keccak 256 data) = 4" "length (keccak 512 data) = 8"
  by (simp_all add: keccak_def Let_def ethash_keccakf1600_eq length_keccak_f split: prod.split)

end
