(* ===== verification/Primes.thy ===== *)
theory Primes
  imports Prelude
begin

text \<open>
  The prime search of \<open>src/libethash/primes.c\<close>, which sizes the light cache and the full
  dataset. The C ints are modelled as unbounded integers: the function is called with
  positive upper bounds only, every intermediate value stays below the upper bound plus
  two, and the square is computed in 64 bits.
\<close>

section \<open>The code\<close>

text \<open>\<open>is_odd_prime_from number d\<close> is the loop of \<open>is_odd_prime\<close> entered with the divisor \<open>d\<close>.\<close>

function is_odd_prime_from :: "int \<Rightarrow> int \<Rightarrow> bool" where
  "is_odd_prime_from number d =
     (if d * d \<le> number
      then if number mod d = 0 then False else is_odd_prime_from number (d + 2)
      else True)"
  by pat_completeness auto
termination
proof (relation "measure (\<lambda>(number, d). nat (number + 2 - d))")
  fix number d :: int
  assume "d * d \<le> number"
  moreover have "d \<le> d * d"
  proof (cases "d \<le> 0")
    case True
    moreover have "0 \<le> d * d" by simp
    ultimately show ?thesis by linarith
  qed (simp add: mult_le_cancel_left1)
  ultimately show "((number, d + 2), number, d) \<in> measure (\<lambda>(number, d). nat (number + 2 - d))"
    by simp
qed simp

definition is_odd_prime :: "int \<Rightarrow> bool" where
  "is_odd_prime number = is_odd_prime_from number 3"

lemma is_odd_prime_small: "n < 9 \<Longrightarrow> is_odd_prime n"
  by (simp add: is_odd_prime_def)

function find_prime_from :: "int \<Rightarrow> int" where
  "find_prime_from n = (if \<not> is_odd_prime n then find_prime_from (n - 2) else n)"
  by pat_completeness auto
termination
proof (relation "measure (\<lambda>n. nat n)")
  fix n :: int
  assume "\<not> is_odd_prime n"
  then have "9 \<le> n" using is_odd_prime_small [of n] by linarith
  then show "(n - 2, n) \<in> measure (\<lambda>n. nat n)" by simp
qed simp

declare is_odd_prime_from.simps [simp del] find_prime_from.simps [simp del]

definition ethash_find_largest_prime :: "int \<Rightarrow> int" where
  "ethash_find_largest_prime upper_bound =
     (let n = upper_bound
      in if n < 2 then 0
         else if n = 2 then 2
         else let n = (if n mod 2 = 0 then n - 1 else n) in find_prime_from n)"

section \<open>Specification\<close>

definition is_prime :: "int \<Rightarrow> bool" where
  "is_prime p \<longleftrightarrow> 1 < p \<and> (\<forall>k. 1 < k \<and> k < p \<longrightarrow> \<not> k dvd p)"

section \<open>Correctness\<close>

lemma is_odd_prime_from_iff:
  assumes "odd d" and "3 \<le> d"
  shows "is_odd_prime_from n d \<longleftrightarrow> (\<forall>k. d \<le> k \<and> odd k \<and> k * k \<le> n \<longrightarrow> \<not> k dvd n)"
  using assms
proof (induction n d rule: is_odd_prime_from.induct)
  case (1 n d)
  show ?case
  proof (cases "d * d \<le> n")
    case le: True
    show ?thesis
    proof (cases "n mod d = 0")
      case True
      with le "1.prems" show ?thesis
        by (auto simp: is_odd_prime_from.simps [of n d] dvd_eq_mod_eq_0)
    next
      case False
      have "d \<le> k \<and> odd k \<longleftrightarrow> k = d \<or> d + 2 \<le> k \<and> odd k" for k
        using "1.prems" by presburger
      moreover have "\<not> d dvd n" using False by (simp add: dvd_eq_mod_eq_0)
      moreover have "is_odd_prime_from n d = is_odd_prime_from n (d + 2)"
        using False le by (simp add: is_odd_prime_from.simps [of n d])
      moreover have "odd (d + 2)" "3 \<le> d + 2" using "1.prems" by simp_all
      ultimately show ?thesis using "1.IH" [OF le False] by metis
    qed
  next
    case False
    have "\<not> k * k \<le> n" if "d \<le> k" for k
      using mult_mono [OF that that] False that "1.prems" by auto
    with False show ?thesis by (auto simp: is_odd_prime_from.simps [of n d])
  qed
qed

lemma is_odd_prime_iff:
  assumes n: "2 < n" "odd n"
  shows "is_odd_prime n \<longleftrightarrow> is_prime n"
proof -
  have "(\<forall>k. 3 \<le> k \<and> odd k \<and> k * k \<le> n \<longrightarrow> \<not> k dvd n) \<longleftrightarrow>
        (\<forall>k. 1 < k \<and> k < n \<longrightarrow> \<not> k dvd n)" (is "?L \<longleftrightarrow> ?R")
  proof
    assume L: ?L
    show ?R
    proof (intro allI impI notI)
      fix k assume k: "1 < k \<and> k < n" and "k dvd n"
      then obtain m where m: "n = k * m" by (auto simp: dvd_def)
      have "0 < k * m" using m n(1) by simp
      then have "0 < m" using k by (simp add: zero_less_mult_iff)
      moreover have "m \<noteq> 1" using m k by auto
      ultimately have m1: "1 < m" by linarith
      have "odd k" "odd m" using m n(2) by auto
      then have "3 \<le> k" "3 \<le> m" using k m1 by presburger+
      moreover have "k * k \<le> n \<or> m * m \<le> n"
      proof (cases "k \<le> m")
        case True
        with m k show ?thesis by (simp add: mult_le_cancel_left)
      next
        case False
        with m m1 show ?thesis by (simp add: mult_le_cancel_right)
      qed
      moreover have "m dvd n" using m by simp
      ultimately show False using L \<open>odd k\<close> \<open>odd m\<close> \<open>k dvd n\<close> by blast
    qed
  next
    assume R: ?R
    show ?L
    proof (intro allI impI)
      fix k assume k: "3 \<le> k \<and> odd k \<and> k * k \<le> n"
      then have "k < k * k" by (simp add: mult_less_cancel_left1)
      with k have "k < n" by linarith
      with R k show "\<not> k dvd n" by simp
    qed
  qed
  with n show ?thesis
    by (simp add: is_odd_prime_def is_odd_prime_from_iff is_prime_def)
qed

lemma even_not_prime: "2 < n \<Longrightarrow> even n \<Longrightarrow> \<not> is_prime n"
  by (auto simp: is_prime_def intro!: exI [of _ 2])

lemma find_prime_from_largest:
  assumes "2 < n" and "odd n"
  shows "is_prime (find_prime_from n) \<and> find_prime_from n \<le> n \<and>
    (\<forall>q. find_prime_from n < q \<and> q \<le> n \<longrightarrow> \<not> is_prime q)"
  using assms
proof (induction n rule: find_prime_from.induct)
  case (1 n)
  show ?case
  proof (cases "is_odd_prime n")
    case True
    with "1.prems" show ?thesis by (auto simp: find_prime_from.simps [of n] is_odd_prime_iff)
  next
    case False
    then have "9 \<le> n" using is_odd_prime_small by (meson not_le)
    then have IH: "is_prime (find_prime_from (n - 2)) \<and> find_prime_from (n - 2) \<le> n - 2 \<and>
      (\<forall>q. find_prime_from (n - 2) < q \<and> q \<le> n - 2 \<longrightarrow> \<not> is_prime q)"
      using "1.IH" [OF False] "1.prems" by simp
    have "\<not> is_prime q" if "n - 2 < q" "q \<le> n" for q
    proof -
      from that have "q = n \<or> q = n - 1" by auto
      then show ?thesis
        using False "1.prems" \<open>9 \<le> n\<close> even_not_prime [of "n - 1"] by (auto simp: is_odd_prime_iff)
    qed
    moreover have "find_prime_from n = find_prime_from (n - 2)"
      using False by (simp add: find_prime_from.simps [of n])
    ultimately have "is_prime (find_prime_from n)" "find_prime_from n \<le> n - 2"
      "\<And>q. find_prime_from n < q \<Longrightarrow> q \<le> n \<Longrightarrow> \<not> is_prime q"
      using IH by (simp, simp, metis not_le)
    then show ?thesis by simp
  qed
qed

lemma ethash_find_largest_prime_spec:
  assumes "2 \<le> upper_bound"
  shows "is_prime (ethash_find_largest_prime upper_bound) \<and>
    ethash_find_largest_prime upper_bound \<le> upper_bound \<and>
    (\<forall>q. ethash_find_largest_prime upper_bound < q \<and> q \<le> upper_bound \<longrightarrow> \<not> is_prime q)"
proof -
  consider "upper_bound = 2" | "2 < upper_bound" "odd upper_bound" | "2 < upper_bound" "even upper_bound"
    using assms by linarith
  then show ?thesis
  proof cases
    case 1
    then show ?thesis by (auto simp: ethash_find_largest_prime_def is_prime_def)
  next
    case 2
    then show ?thesis
      using find_prime_from_largest [of upper_bound]
      by (simp add: ethash_find_largest_prime_def Let_def odd_iff_mod_2_eq_one)
  next
    case 3
    let ?n = "upper_bound - 1"
    from 3 have n: "2 < ?n" "odd ?n" by presburger+
    have "\<not> is_prime q" if "find_prime_from ?n < q" "q \<le> upper_bound" for q
      using that 3 find_prime_from_largest [OF n] even_not_prime [of upper_bound]
      by (cases "q = upper_bound") auto
    then show ?thesis
      using find_prime_from_largest [OF n] 3
      by (auto simp: ethash_find_largest_prime_def Let_def even_iff_mod_2_eq_zero)
  qed
qed

lemma ethash_find_largest_prime_ge:
  assumes "is_prime q" and "q \<le> upper_bound"
  shows "q \<le> ethash_find_largest_prime upper_bound"
proof -
  have "2 \<le> upper_bound" using assms by (simp add: is_prime_def)
  from ethash_find_largest_prime_spec [OF this] assms show ?thesis by (meson not_le)
qed

text \<open>
  C30: for every upper bound of at least 2, \<open>ethash_find_largest_prime\<close> terminates with a prime
  number that does not exceed the bound, and no prime lies between the result and the bound.
\<close>
theorem ethash_find_largest_prime_correct:
  assumes "2 \<le> upper_bound"
  shows "is_prime (ethash_find_largest_prime upper_bound) \<and>
    ethash_find_largest_prime upper_bound \<le> upper_bound \<and>
    (\<forall>q. ethash_find_largest_prime upper_bound < q \<and> q \<le> upper_bound \<longrightarrow> \<not> is_prime q)"
  by (rule ethash_find_largest_prime_spec [OF assms])

theorem ethash_find_largest_prime_witness:
  "ethash_find_largest_prime 9 = 7 \<and> is_prime 7 \<and> \<not> is_prime 8 \<and> \<not> is_prime 9"
proof -
  have "ethash_find_largest_prime 9 = 7"
    by (simp add: ethash_find_largest_prime_def find_prime_from.simps is_odd_prime_def
        is_odd_prime_from.simps)
  then show ?thesis using ethash_find_largest_prime_correct [of 9] by simp
qed

end
