(* ===== verification/Ethash.thy ===== *)
theory Ethash
  imports Keccak Primes
begin

text \<open>
  The Ethash proof of work of \<open>src/libethash/ethash.cpp\<close> with the declarations of
  \<open>ethash-internal.hpp\<close>, \<open>ethash/ethash.hpp\<close> and \<open>ethash/ethash.h\<close>: the light cache, the dataset
  items, the hash of a light and of a full context, verification and nonce search.

  A hash union is the list of its 32-bit words. A context owns one block of memory that
  holds the light cache and, behind it, the region to which both \<^verbatim>\<open>l1_cache\<close> and, in a full
  context, \<^verbatim>\<open>full_dataset\<close> point; the region is the field \<open>ctx_region\<close>, so the aliasing of
  the two pointers is part of the model. The lazy lookup of a full context writes the region,
  hence every function that takes a lookup threads the context.
\<close>

section \<open>Constants and hash helpers\<close>

definition light_cache_init_size :: int where "light_cache_init_size = 2 ^ 24"
definition light_cache_growth :: int where "light_cache_growth = 2 ^ 17"
definition light_cache_rounds :: nat where "light_cache_rounds = 3"
definition full_dataset_init_size :: int where "full_dataset_init_size = 2 ^ 30"
definition full_dataset_growth :: int where "full_dataset_growth = 2 ^ 23"
definition full_dataset_item_parents :: nat where "full_dataset_item_parents = 256"
definition light_cache_item_size :: int where "light_cache_item_size = 64"
definition full_dataset_item_size :: int where "full_dataset_item_size = 128"
definition num_dataset_accesses :: nat where "num_dataset_accesses = 64"
definition epoch_length :: int where "epoch_length = 2147483647"
definition l1_cache_size :: nat where "l1_cache_size = 16 * 1024"

definition keccak256_hash :: "hash256 \<Rightarrow> hash256" where
  "keccak256_hash input = ethash_keccak256_32 (bytes_of_words input)"

definition keccak512_hash :: "hash512 \<Rightarrow> hash512" where
  "keccak512_hash input = ethash_keccak512_64 (bytes_of_words input)"

definition fnv1_512 :: "hash512 \<Rightarrow> hash512 \<Rightarrow> hash512" where
  "fnv1_512 u v = map (\<lambda>i. fnv1 (u ! i) (v ! i)) [0..<16]"

definition bitwise_xor :: "hash512 \<Rightarrow> hash512 \<Rightarrow> hash512" where
  "bitwise_xor x y = words_of_word64s (map (\<lambda>i. word64_at x i XOR word64_at y i) [0..<8])"

fun is_less_or_equal_from :: "nat list \<Rightarrow> hash256 \<Rightarrow> hash256 \<Rightarrow> bool" where
  "is_less_or_equal_from [] a b = True"
| "is_less_or_equal_from (i # is) a b =
     (if be_uint64 (word64_at a i) > be_uint64 (word64_at b i) then False
      else if be_uint64 (word64_at a i) < be_uint64 (word64_at b i) then True
      else is_less_or_equal_from is a b)"

definition is_less_or_equal :: "hash256 \<Rightarrow> hash256 \<Rightarrow> bool" where
  "is_less_or_equal a b = is_less_or_equal_from [0..<4] a b"

definition is_equal :: "hash256 \<Rightarrow> hash256 \<Rightarrow> bool" where
  "is_equal a b = (bytes_of_words a = bytes_of_words b)"

definition hash256_from_bytes :: "u8 list \<Rightarrow> hash256" where
  "hash256_from_bytes bs =
     words_of_word64s (map (\<lambda>i. load_le (drop (8 * i) bs)) [0..<4])"

section \<open>Sizes and seeds\<close>

definition get_epoch_number :: "int \<Rightarrow> int" where
  "get_epoch_number block_number = cdiv block_number epoch_length"

definition get_light_cache_size :: "int \<Rightarrow> u64" where
  "get_light_cache_size num_items = of_int num_items * of_int light_cache_item_size"

definition get_full_dataset_size :: "int \<Rightarrow> u64" where
  "get_full_dataset_size num_items = of_int num_items * of_int full_dataset_item_size"

definition ethash_calculate_epoch_seed :: "int \<Rightarrow> hash256" where
  "ethash_calculate_epoch_seed epoch_number =
     fold (\<lambda>_ epoch_seed. ethash_keccak256_32 (bytes_of_words epoch_seed))
       [0..<nat epoch_number] (replicate 8 0)"

definition light_cache_upper_bound :: "int \<Rightarrow> int" where
  "light_cache_upper_bound epoch_number =
     light_cache_init_size div light_cache_item_size +
     epoch_number * (light_cache_growth div light_cache_item_size)"

definition ethash_calculate_light_cache_num_items :: "int \<Rightarrow> int" where
  "ethash_calculate_light_cache_num_items epoch_number =
     ethash_find_largest_prime (light_cache_upper_bound epoch_number)"

definition full_dataset_upper_bound :: "int \<Rightarrow> int" where
  "full_dataset_upper_bound epoch_number =
     full_dataset_init_size div full_dataset_item_size +
     epoch_number * (full_dataset_growth div full_dataset_item_size)"

definition ethash_calculate_full_dataset_num_items :: "int \<Rightarrow> int" where
  "ethash_calculate_full_dataset_num_items epoch_number =
     ethash_find_largest_prime (full_dataset_upper_bound epoch_number)"

text \<open>
  \<open>find_epoch_number\<close> keeps the last match in two thread-local variables; the pair is passed
  in and returned.
\<close>

definition num_tries :: nat where "num_tries = 30000"

fun find_epoch_from :: "nat \<Rightarrow> int \<Rightarrow> hash256 \<Rightarrow> u32 \<Rightarrow> (int \<times> hash256) option" where
  "find_epoch_from 0 i s seed_part = None"
| "find_epoch_from (Suc tries) i s seed_part =
     (if s ! 0 = seed_part then Some (i, s)
      else find_epoch_from tries (i + 1) (keccak256_hash s) seed_part)"

definition find_epoch_number :: "int \<times> hash256 \<Rightarrow> hash256 \<Rightarrow> int \<times> (int \<times> hash256)" where
  "find_epoch_number cache seed =
     (let seed_part = seed ! 0; (e, s) = cache
      in if s ! 0 = seed_part then (e, cache)
         else let s = keccak256_hash s
              in if s ! 0 = seed_part then (e + 1, (e + 1, s))
                 else case find_epoch_from num_tries 0 (replicate 8 0) seed_part of
                        Some (i, s) \<Rightarrow> (i, (i, s))
                      | None \<Rightarrow> (-1, cache))"

section \<open>Contexts\<close>

text \<open>
  \<open>ctx_full_dataset\<close> tells whether the pointer is set; it then leads to \<open>ctx_region\<close>, as
  \<^verbatim>\<open>l1_cache\<close> always does.
\<close>

record epoch_context =
  ctx_epoch_number :: int
  ctx_light_cache_num_items :: int
  ctx_light_cache :: "hash512 list"
  ctx_region :: "u32 list"
  ctx_full_dataset_num_items :: int
  ctx_full_dataset :: bool

definition ctx_l1_cache :: "epoch_context \<Rightarrow> nat \<Rightarrow> u32" where
  "ctx_l1_cache context offset = ctx_region context ! offset"

section \<open>The light cache\<close>

definition generic_build_light_cache ::
  "(u8 list \<Rightarrow> hash512) \<Rightarrow> hash512 list \<Rightarrow> int \<Rightarrow> hash256 \<Rightarrow> hash512 list" where
  "generic_build_light_cache hash_fn cache num_items seed =
     (let item = hash_fn (bytes_of_words seed);
          cache = cache[0 := item];
          (item, cache) =
            fold (\<lambda>i (item, cache). let item = hash_fn (bytes_of_words item) in (item, cache[i := item]))
              [1..<nat num_items] (item, cache)
      in fold (\<lambda>q cache.
             fold (\<lambda>i cache.
                 let index_limit = of_int num_items :: u32;
                     t = le_uint32 ((cache ! i) ! 0);
                     v = t mod index_limit;
                     w = of_int (num_items + (int i - 1)) mod index_limit;
                     x = bitwise_xor (cache ! unat v) (cache ! unat w)
                 in cache[i := hash_fn (bytes_of_words x)])
               [0..<nat num_items] cache)
           [0..<light_cache_rounds] cache)"

definition build_light_cache :: "hash512 list \<Rightarrow> int \<Rightarrow> hash256 \<Rightarrow> hash512 list" where
  "build_light_cache cache num_items seed =
     generic_build_light_cache ethash_keccak512 cache num_items seed"

section \<open>Dataset items\<close>

record item_state =
  ist_cache :: "hash512 list"
  ist_num_cache_items :: int
  ist_seed :: u32
  ist_mix :: hash512

definition item_state_init :: "epoch_context \<Rightarrow> int \<Rightarrow> item_state" where
  "item_state_init context index =
     (let cache = ctx_light_cache context;
          num_cache_items = ctx_light_cache_num_items context;
          seed = of_int index :: u32;
          mix = cache ! nat (cmod index num_cache_items);
          mix = mix[0 := mix ! 0 XOR le_uint32 seed];
          mix = keccak512_hash mix
      in \<lparr>ist_cache = cache, ist_num_cache_items = num_cache_items, ist_seed = seed, ist_mix = mix\<rparr>)"

definition item_state_update :: "u32 \<Rightarrow> item_state \<Rightarrow> item_state" where
  "item_state_update round st =
     (let t = fnv1 (ist_seed st XOR round) (ist_mix st ! (unat round mod 16));
          parent_index = cmod (uint t) (ist_num_cache_items st)
      in st\<lparr>ist_mix := fnv1_512 (ist_mix st) (ist_cache st ! nat parent_index)\<rparr>)"

definition item_state_final :: "item_state \<Rightarrow> hash512" where
  "item_state_final st = keccak512_hash (ist_mix st)"

definition calculate_dataset_item_512 :: "epoch_context \<Rightarrow> int \<Rightarrow> hash512" where
  "calculate_dataset_item_512 context index =
     (let item0 = item_state_init context index;
          item0 = fold (\<lambda>j item0. item_state_update (of_nat j) item0)
                    [0..<full_dataset_item_parents] item0
      in item_state_final item0)"

definition calculate_dataset_item_1024 :: "epoch_context \<Rightarrow> u32 \<Rightarrow> hash1024" where
  "calculate_dataset_item_1024 context index =
     (let item0 = item_state_init context (uint index * 2);
          item1 = item_state_init context (uint index * 2 + 1);
          (item0, item1) =
            fold (\<lambda>j (item0, item1).
                (item_state_update (of_nat j) item0, item_state_update (of_nat j) item1))
              [0..<full_dataset_item_parents] (item0, item1)
      in item_state_final item0 @ item_state_final item1)"

definition calculate_dataset_item_2048 :: "epoch_context \<Rightarrow> u32 \<Rightarrow> hash2048" where
  "calculate_dataset_item_2048 context index =
     (let item0 = item_state_init context (uint index * 4);
          item1 = item_state_init context (uint index * 4 + 1);
          item2 = item_state_init context (uint index * 4 + 2);
          item3 = item_state_init context (uint index * 4 + 3);
          (item0, item1, item2, item3) =
            fold (\<lambda>j (item0, item1, item2, item3).
                (item_state_update (of_nat j) item0, item_state_update (of_nat j) item1,
                 item_state_update (of_nat j) item2, item_state_update (of_nat j) item3))
              [0..<full_dataset_item_parents] (item0, item1, item2, item3)
      in item_state_final item0 @ item_state_final item1 @
         item_state_final item2 @ item_state_final item3)"

text \<open>
  The allocation of a context may fail; \<open>calloc\<close> tells for which sizes it succeeds. Memory
  obtained from it is zero.
\<close>

definition generic_create_epoch_context ::
  "(int \<Rightarrow> bool) \<Rightarrow> (hash512 list \<Rightarrow> int \<Rightarrow> hash256 \<Rightarrow> hash512 list) \<Rightarrow> int \<Rightarrow> bool \<Rightarrow>
     epoch_context option" where
  "generic_create_epoch_context calloc build_fn epoch_number full =
     (let context_alloc_size = 64;
          light_cache_num_items = ethash_calculate_light_cache_num_items epoch_number;
          full_dataset_num_items = ethash_calculate_full_dataset_num_items epoch_number;
          light_cache_size = uint (get_light_cache_size light_cache_num_items);
          full_dataset_size = (if full then full_dataset_num_items * 128 else int l1_cache_size);
          alloc_size = context_alloc_size + light_cache_size + full_dataset_size
      in if \<not> calloc alloc_size then None
         else
           let light_cache = replicate (nat light_cache_num_items) (replicate 16 0);
               epoch_seed = ethash_calculate_epoch_seed epoch_number;
               light_cache = build_fn light_cache light_cache_num_items epoch_seed;
               context = \<lparr>ctx_epoch_number = epoch_number,
                 ctx_light_cache_num_items = light_cache_num_items,
                 ctx_light_cache = light_cache,
                 ctx_region = replicate (nat (full_dataset_size div 4)) 0,
                 ctx_full_dataset_num_items = full_dataset_num_items,
                 ctx_full_dataset = full\<rparr>
           in Some (fold (\<lambda>i context.
                  context\<lparr>ctx_region :=
                    put_slice 64 i (calculate_dataset_item_2048 context (of_nat i)) (ctx_region context)\<rparr>)
                [0..<l1_cache_size div 256] context))"

definition ethash_create_epoch_context :: "(int \<Rightarrow> bool) \<Rightarrow> int \<Rightarrow> epoch_context option" where
  "ethash_create_epoch_context calloc epoch_number =
     generic_create_epoch_context calloc build_light_cache epoch_number False"

definition ethash_create_epoch_context_full :: "(int \<Rightarrow> bool) \<Rightarrow> int \<Rightarrow> epoch_context option" where
  "ethash_create_epoch_context_full calloc epoch_number =
     generic_create_epoch_context calloc build_light_cache epoch_number True"

section \<open>The hash\<close>

record hash_result =
  res_final_hash :: hash256
  res_mix_hash :: hash256

definition hash_seed :: "hash256 \<Rightarrow> u64 \<Rightarrow> hash512" where
  "hash_seed header_hash nonce =
     (let nonce = le_uint64 nonce;
          init_data = bytes_of_words header_hash @ map (byte_at nonce) [0..<8]
      in ethash_keccak512 init_data)"

definition hash_final :: "hash512 \<Rightarrow> hash256 \<Rightarrow> hash256" where
  "hash_final seed mix_hash =
     ethash_keccak256 (bytes_of_words seed @ bytes_of_words mix_hash)"

text \<open>
  A lookup returns the item and the context, which the lazy lookup of a full context changes.
\<close>

type_synonym 'h lookup_fn = "epoch_context \<Rightarrow> u32 \<Rightarrow> 'h \<times> epoch_context"

definition hash_kernel_access :: "hash1024 lookup_fn \<Rightarrow> u32 \<Rightarrow> u32 \<Rightarrow> nat \<Rightarrow>
    hash1024 \<times> epoch_context \<Rightarrow> hash1024 \<times> epoch_context" where
  "hash_kernel_access lookup index_limit seed_init i = (\<lambda>(mix, context).
     let p = fnv1 (of_nat i XOR seed_init) (mix ! (i mod 32)) mod index_limit;
         (newdata, context) = lookup context p;
         mix = map (\<lambda>j. fnv1 (mix ! j) (newdata ! j)) [0..<32]
     in (mix, context))"

definition hash_kernel_compress :: "hash1024 \<Rightarrow> hash256" where
  "hash_kernel_compress mix =
     map (\<lambda>k. let i = 4 * k;
                 h1 = fnv1 (mix ! i) (mix ! (i + 1));
                 h2 = fnv1 h1 (mix ! (i + 2));
                 h3 = fnv1 h2 (mix ! (i + 3))
             in h3) [0..<8]"

definition hash_kernel :: "epoch_context \<Rightarrow> hash512 \<Rightarrow> hash1024 lookup_fn \<Rightarrow> hash256 \<times> epoch_context" where
  "hash_kernel context seed lookup =
     (let index_limit = of_int (ctx_full_dataset_num_items context);
          seed_init = le_uint32 (seed ! 0);
          mix = seed @ seed;
          (mix, context) = fold (hash_kernel_access lookup index_limit seed_init)
                             [0..<num_dataset_accesses] (mix, context)
      in (hash_kernel_compress mix, context))"

definition light_lookup :: "(epoch_context \<Rightarrow> u32 \<Rightarrow> 'h) \<Rightarrow> 'h lookup_fn" where
  "light_lookup calculate context index = (calculate context index, context)"

text \<open>
  The lazy lookup of \<open>ethash.cpp\<close> (items of 32 words) and the one of \<open>progpow.cpp\<close> (items of 64
  words) differ in the item type only: \<open>w\<close> is its number of words and \<open>calculate\<close> the function that
  computes it.
\<close>

definition lazy_lookup :: "nat \<Rightarrow> (epoch_context \<Rightarrow> u32 \<Rightarrow> u32 list) \<Rightarrow> u32 list lookup_fn" where
  "lazy_lookup w calculate context index =
     (let item = slice w (unat index) (ctx_region context)
      in if word64_at item 0 = 0
         then let item = calculate context index
              in (item, context\<lparr>ctx_region := put_slice w (unat index) item (ctx_region context)\<rparr>)
         else (item, context))"

definition lazy_lookup_1024 :: "hash1024 lookup_fn" where
  "lazy_lookup_1024 = lazy_lookup 32 calculate_dataset_item_1024"

definition ethash_hash :: "epoch_context \<Rightarrow> hash256 \<Rightarrow> u64 \<Rightarrow> hash_result \<times> epoch_context" where
  "ethash_hash context header_hash nonce =
     (let seed = hash_seed header_hash nonce;
          (mix_hash, context) = hash_kernel context seed (light_lookup calculate_dataset_item_1024)
      in (\<lparr>res_final_hash = hash_final seed mix_hash, res_mix_hash = mix_hash\<rparr>, context))"

definition ethash_hash_full :: "epoch_context \<Rightarrow> hash256 \<Rightarrow> u64 \<Rightarrow> hash_result \<times> epoch_context" where
  "ethash_hash_full context header_hash nonce =
     (let seed = hash_seed header_hash nonce;
          (mix_hash, context) = hash_kernel context seed lazy_lookup_1024
      in (\<lparr>res_final_hash = hash_final seed mix_hash, res_mix_hash = mix_hash\<rparr>, context))"

section \<open>Verification and search\<close>

definition verify_final_hash :: "hash256 \<Rightarrow> hash256 \<Rightarrow> u64 \<Rightarrow> hash256 \<Rightarrow> bool" where
  "verify_final_hash header_hash mix_hash nonce boundary =
     (let seed = hash_seed header_hash nonce
      in is_less_or_equal (hash_final seed mix_hash) boundary)"

definition ethash_verify ::
  "epoch_context \<Rightarrow> hash256 \<Rightarrow> hash256 \<Rightarrow> u64 \<Rightarrow> hash256 \<Rightarrow> bool" where
  "ethash_verify context header_hash mix_hash nonce boundary =
     (let seed = hash_seed header_hash nonce
      in if \<not> is_less_or_equal (hash_final seed mix_hash) boundary then False
         else let expected_mix_hash =
                fst (hash_kernel context seed (light_lookup calculate_dataset_item_1024))
              in is_equal expected_mix_hash mix_hash)"

record search_result =
  sr_solution_found :: bool
  sr_nonce :: u64
  sr_final_hash :: hash256
  sr_mix_hash :: hash256

definition search_result_default :: search_result where
  "search_result_default =
     \<lparr>sr_solution_found = False, sr_nonce = 0, sr_final_hash = replicate 8 0,
      sr_mix_hash = replicate 8 0\<rparr>"

definition search_result_of :: "hash_result \<Rightarrow> u64 \<Rightarrow> search_result" where
  "search_result_of res nonce =
     \<lparr>sr_solution_found = True, sr_nonce = nonce, sr_final_hash = res_final_hash res,
      sr_mix_hash = res_mix_hash res\<rparr>"

text \<open>
  The four search functions (Ethash and ProgPoW, light and full) have the same loop with
  another call of \<^verbatim>\<open>hash\<close>; it is one definition that takes the hash as an argument.
\<close>

function search_loop :: "('c \<Rightarrow> u64 \<Rightarrow> hash_result \<times> 'c) \<Rightarrow> hash256 \<Rightarrow> 'c \<Rightarrow> u64 \<Rightarrow> u64 \<Rightarrow>
    search_result \<times> 'c" where
  "search_loop hash boundary context nonce end_nonce =
     (if nonce < end_nonce
      then let (r, context) = hash context nonce
           in if is_less_or_equal (res_final_hash r) boundary
              then (search_result_of r nonce, context)
              else search_loop hash boundary context (nonce + 1) end_nonce
      else (search_result_default, context))"
  by pat_completeness auto
termination
proof (relation "measure (\<lambda>(_, _, _, nonce, end_nonce). unat end_nonce - unat nonce)")
  fix nonce end_nonce :: u64
  assume "nonce < end_nonce"
  then have "unat (nonce + 1) = unat nonce + 1" "unat nonce < unat end_nonce"
    by (simp_all add: unat_Suc_less word_less_nat_alt)
  then show "\<And>hash boundary context context'.
    ((hash, boundary, context', nonce + 1, end_nonce), hash, boundary, context, nonce, end_nonce)
      \<in> measure (\<lambda>(_, _, _, nonce, end_nonce). unat end_nonce - unat nonce)"
    by simp
qed simp

declare search_loop.simps [simp del]

definition ethash_search_light ::
  "epoch_context \<Rightarrow> hash256 \<Rightarrow> hash256 \<Rightarrow> u64 \<Rightarrow> u64 \<Rightarrow> search_result \<times> epoch_context" where
  "ethash_search_light context header_hash boundary start_nonce iterations =
     (let end_nonce = start_nonce + iterations
      in search_loop (\<lambda>context nonce. ethash_hash context header_hash nonce) boundary context
           start_nonce end_nonce)"

definition ethash_search ::
  "epoch_context \<Rightarrow> hash256 \<Rightarrow> hash256 \<Rightarrow> u64 \<Rightarrow> u64 \<Rightarrow> search_result \<times> epoch_context" where
  "ethash_search context header_hash boundary start_nonce iterations =
     (let end_nonce = start_nonce + iterations
      in search_loop (\<lambda>context nonce. ethash_hash_full context header_hash nonce) boundary context
           start_nonce end_nonce)"
section \<open>Specification\<close>

fun lex_le :: "int list \<Rightarrow> int list \<Rightarrow> bool" where
  "lex_le (x # xs) (y # ys) \<longleftrightarrow> x < y \<or> x = y \<and> lex_le xs ys"
| "lex_le _ _ \<longleftrightarrow> True"

fun digits_value :: "int \<Rightarrow> int list \<Rightarrow> int" where
  "digits_value B [] = 0"
| "digits_value B (d # ds) = d * B ^ length ds + digits_value B ds"

text \<open>
  Two contexts with the same light cache have the same dataset. \<open>same_static\<close> moreover fixes the part of
  the region that serves as the L1 cache. \<open>region_ok\<close> is the invariant of a lazily filled dataset:
  every item is either the computed one or still marked as absent by a zero first word, and the
  items of the L1 cache are present.
\<close>

definition same_light :: "epoch_context \<Rightarrow> epoch_context \<Rightarrow> bool" where
  "same_light c c' \<longleftrightarrow>
     ctx_light_cache_num_items c = ctx_light_cache_num_items c' \<and>
     ctx_light_cache c = ctx_light_cache c' \<and>
     ctx_full_dataset_num_items c = ctx_full_dataset_num_items c'"

definition same_static :: "epoch_context \<Rightarrow> epoch_context \<Rightarrow> bool" where
  "same_static c c' \<longleftrightarrow> same_light c c' \<and>
     ctx_epoch_number c = ctx_epoch_number c' \<and>
     ctx_full_dataset c = ctx_full_dataset c' \<and>
     length (ctx_region c) = length (ctx_region c') \<and>
     take 4096 (ctx_region c) = take 4096 (ctx_region c')"

definition region_ok ::
  "nat \<Rightarrow> (epoch_context \<Rightarrow> u32 \<Rightarrow> u32 list) \<Rightarrow> (epoch_context \<Rightarrow> nat) \<Rightarrow> epoch_context \<Rightarrow> bool" where
  "region_ok w calculate num_items c \<longleftrightarrow>
     (let n = num_items c; region = ctx_region c
      in 4096 \<le> w * n \<and> w * n \<le> length region \<and> n < 2 ^ 32 \<and>
         (\<forall>i < n. slice w i region = calculate c (of_nat i) \<or>
                  word64_at (slice w i region) 0 = 0 \<and> 4096 \<le> w * i))"

definition num_items_1024 :: "epoch_context \<Rightarrow> nat" where
  "num_items_1024 c = nat (ctx_full_dataset_num_items c)"

definition num_items_2048 :: "epoch_context \<Rightarrow> nat" where
  "num_items_2048 c = nat (ctx_full_dataset_num_items c) div 2"

definition fill_l1 :: "nat \<Rightarrow> epoch_context \<Rightarrow> epoch_context" where
  "fill_l1 k context = fold (\<lambda>i context.
      context\<lparr>ctx_region :=
        put_slice 64 i (calculate_dataset_item_2048 context (of_nat i)) (ctx_region context)\<rparr>) [0..<k] context"

definition region_words :: "int \<Rightarrow> bool \<Rightarrow> nat" where
  "region_words e full = (if full then 32 * nat (ethash_calculate_full_dataset_num_items e) else 4096)"

text \<open>
  A full context after a sequence of hash computations.
\<close>

definition hash_history :: "epoch_context \<Rightarrow> (hash256 \<times> u64) list \<Rightarrow> epoch_context" where
  "hash_history context hs = fold (\<lambda>(h, n) c. snd (ethash_hash_full c h n)) hs context"

text \<open>
  The cached pair of \<open>find_epoch_number\<close> is an epoch with its seed.
\<close>

definition epoch_cache_ok :: "int \<times> hash256 \<Rightarrow> bool" where
  "epoch_cache_ok cache \<longleftrightarrow> 0 \<le> fst cache \<and> snd cache = ethash_calculate_epoch_seed (fst cache)"

text \<open>
  The light cache of the Ethash specification: a chain of hashes followed by three rounds in which
  every item is replaced by the hash of the exclusive or of a random item and its cyclic predecessor.
\<close>

definition mkcache_round :: "(u8 list \<Rightarrow> hash512) \<Rightarrow> nat \<Rightarrow> hash512 list \<Rightarrow> hash512 list" where
  "mkcache_round h n cache =
     fold (\<lambda>i cache. cache[i := h (bytes_of_words
         (map2 (XOR) (cache ! (unat (cache ! i ! 0) mod n)) (cache ! ((i + n - 1) mod n))))])
       [0..<n] cache"

definition mkcache :: "(u8 list \<Rightarrow> hash512) \<Rightarrow> nat \<Rightarrow> hash256 \<Rightarrow> hash512 list" where
  "mkcache h n seed =
     (mkcache_round h n ^^ 3)
       (map (\<lambda>i. ((\<lambda>item. h (bytes_of_words item)) ^^ i) (h (bytes_of_words seed))) [0..<n])"

section \<open>Dataset items and byte order\<close>

lemma calculate_dataset_item_1024_eq:
  "calculate_dataset_item_1024 context index =
     calculate_dataset_item_512 context (uint index * 2) @
     calculate_dataset_item_512 context (uint index * 2 + 1)"
  by (simp add: calculate_dataset_item_1024_def calculate_dataset_item_512_def fold_pair)

lemma calculate_dataset_item_2048_eq:
  "calculate_dataset_item_2048 context index =
     concat (map (\<lambda>k. calculate_dataset_item_512 context (uint index * 4 + k)) [0, 1, 2, 3])"
  by (simp add: calculate_dataset_item_2048_def calculate_dataset_item_512_def fold_quad)

lemma length_words_of_word64s [simp, len_simps]: "length (words_of_word64s ws) = 2 * length ws"
  by (induction ws) (simp_all add: words_of_word64s_def)

lemma length_item_512 [simp, len_simps]: "length (calculate_dataset_item_512 context index) = 16"
  by (simp add: calculate_dataset_item_512_def item_state_final_def keccak512_hash_def
      ethash_keccak512_64_def length_keccak)

lemma length_items [simp, len_simps]:
  "length (calculate_dataset_item_1024 context i) = 32"
  "length (calculate_dataset_item_2048 context i) = 64"
  by (simp_all add: calculate_dataset_item_1024_eq calculate_dataset_item_2048_eq)

lemma uint_be_uint64: "uint (be_uint64 x) = be_value (map (byte_at x) [0..<8])"
  using uint_fold_bytes [of "map (byte_at x) [0..<8]"]
  by (simp add: be_uint64_def bswap64_def fold_map comp_def)

lemma byte_at_word64:
  "k < 4 \<Longrightarrow> byte_at (word64_at ws i) k = byte_at (ws ! (2 * i)) k"
  "k < 4 \<Longrightarrow> byte_at (word64_at ws i) (k + 4) = byte_at (ws ! (2 * i + 1)) k"
proof -
  assume k: "k < 4"
  then have "8 * k + 8 \<le> 32" by simp
  moreover have no: "\<not> bit (x :: u32) (8 * k + 32 + m)" for x m by (auto dest: bit_imp_le_length)
  ultimately show "byte_at (word64_at ws i) k = byte_at (ws ! (2 * i)) k"
    "byte_at (word64_at ws i) (k + 4) = byte_at (ws ! (2 * i + 1)) k"
    using no by (auto intro!: bit_word_eqI simp: byte_at_def word64_at_def bit_simps)
qed

lemma word64_bytes:
  "map (byte_at (word64_at ws i)) [0..<8] =
     map (byte_at (ws ! (2 * i))) [0..<4] @ map (byte_at (ws ! (2 * i + 1))) [0..<4]"
proof -
  have "[0..<8] = [0..<4] @ map (\<lambda>k. k + 4) [0..<4]" by code_simp
  then show ?thesis by (simp only: map_append map_map comp_def) (simp add: byte_at_word64 cong: map_cong)
qed

lemma bytes_of_words_word64s:
  assumes "length a = 8"
  shows "bytes_of_words a = concat (map (\<lambda>i. map (byte_at (word64_at a i)) [0..<8]) [0..<4])"
proof -
  have "a = map ((!) a) [0..<8]" using assms by (simp add: map_nth_upt)
  also have "\<dots> = concat (map (\<lambda>i. [a ! (2 * i), a ! (2 * i + 1)]) [0..<4])" by (simp add: upt_rec numeral_eq_Suc)
  finally have "bytes_of_words a = bytes_of_words (concat (map (\<lambda>i. [a ! (2 * i), a ! (2 * i + 1)]) [0..<4]))" by simp
  moreover have "concat (concat (map (\<lambda>x. [f x, g x]) xs)) = concat (map (\<lambda>x. f x @ g x) xs)"
    for f g :: "nat \<Rightarrow> u8 list" and xs by (induction xs) simp_all
  ultimately show ?thesis unfolding word64_bytes by (simp add: bytes_of_words_def map_concat comp_def)
qed

lemma digits_value_bounds:
  "\<forall>d \<in> set ds. 0 \<le> d \<and> d < B \<Longrightarrow> 0 \<le> digits_value B ds \<and> digits_value B ds < B ^ length ds"
proof (induction ds)
  case (Cons d ds)
  then have "(d + 1) * B ^ length ds \<le> B * B ^ length ds" by (intro mult_right_mono) auto
  with Cons show ?case by (auto simp: algebra_simps)
qed simp

lemma lex_le_digits:
  assumes "length xs = length ys" and "\<forall>d \<in> set xs \<union> set ys. 0 \<le> d \<and> d < B"
  shows "lex_le xs ys \<longleftrightarrow> digits_value B xs \<le> digits_value B ys"
  using assms
proof (induction xs ys rule: list_induct2)
  case (Cons x xs y ys)
  let ?p = "B ^ length ys"
  have b: "0 \<le> digits_value B xs" "digits_value B xs < ?p" "0 \<le> digits_value B ys" "digits_value B ys < ?p"
    using digits_value_bounds [of xs B] digits_value_bounds [of ys B] Cons by auto
  have lt: "u * ?p + digits_value B us < v * ?p + digits_value B vs"
    if "u < v" "digits_value B us < ?p" "0 \<le> digits_value B vs" for u v us vs
  proof -
    have "(u + 1) * ?p \<le> v * ?p" using that b by (intro mult_right_mono) auto
    then show ?thesis using that by (simp add: algebra_simps)
  qed
  show ?case
    using lt [of x y xs ys] lt [of y x ys xs] b Cons by (cases x y rule: linorder_cases) auto
qed simp

lemma is_less_or_equal_from_lex:
  "is_less_or_equal_from is a b \<longleftrightarrow>
     lex_le (map (\<lambda>i. uint (be_uint64 (word64_at a i))) is) (map (\<lambda>i. uint (be_uint64 (word64_at b i))) is)"
  by (induction "is") (auto simp: word_less_alt)

lemma be_value_digits:
  assumes "length a = 8"
  shows "be_value (bytes_of_words a) = digits_value (2 ^ 64) (map (\<lambda>i. uint (be_uint64 (word64_at a i))) [0..<4])"
proof -
  have "be_value (concat (map (\<lambda>i. map (byte_at (word64_at a i)) [0..<8]) is)) =
    digits_value (2 ^ 64) (map (\<lambda>i. uint (be_uint64 (word64_at a i))) is)" for "is"
  proof (induction "is")
    case (Cons i "is")
    have "length (concat (map (\<lambda>i. map (byte_at (word64_at a i)) [0..<8]) is)) = 8 * length is" by (induction "is") simp_all
    moreover have "(256 :: int) ^ (8 * n) = (2 ^ 64) ^ n" for n by (simp add: power_mult)
    ultimately show ?case using Cons by (simp add: be_value_append uint_be_uint64)
  qed simp
  then show ?thesis by (simp add: bytes_of_words_word64s assms)
qed

lemma is_less_or_equal_iff:
  assumes "length a = 8" and "length b = 8"
  shows "is_less_or_equal a b \<longleftrightarrow> be_value (bytes_of_words a) \<le> be_value (bytes_of_words b)"
proof -
  have "\<forall>d \<in> set (map (\<lambda>i. uint (be_uint64 (word64_at c i))) [0..<4]). 0 \<le> d \<and> d < 2 ^ 64" for c
    using uint_lt2p [where ?'a = 64] by auto
  then show ?thesis
    unfolding is_less_or_equal_def is_less_or_equal_from_lex be_value_digits [OF assms(1)] be_value_digits [OF assms(2)]
    by (intro lex_le_digits) auto
qed


text \<open>
  The interleaved computation of the 1024-bit and 2048-bit dataset items yields the two,
  respectively four, consecutive 512-bit items.
\<close>
theorem dataset_items_interleaved:
  "calculate_dataset_item_1024 context index =
     concat (map (\<lambda>k. calculate_dataset_item_512 context (uint index * 2 + k)) [0, 1]) \<and>
   calculate_dataset_item_2048 context index =
     concat (map (\<lambda>k. calculate_dataset_item_512 context (uint index * 4 + k)) [0, 1, 2, 3])"
  by (simp add: calculate_dataset_item_1024_eq calculate_dataset_item_2048_eq)

section \<open>The lookup contract\<close>

text \<open>
  What the hash kernels rely on when they look up dataset items: the item is the computed one and the
  lookup changes nothing but absent items. The light lookup and the lazy lookup of a full context
  both satisfy it.
\<close>

locale dataset_lookup =
  fixes lookup :: "u32 list lookup_fn"
    and item :: "epoch_context \<Rightarrow> u32 \<Rightarrow> u32 list"
    and ok :: "epoch_context \<Rightarrow> bool"
    and limit :: "epoch_context \<Rightarrow> nat"
  assumes lookup_item: "ok c \<Longrightarrow> unat p < limit c \<Longrightarrow> fst (lookup c p) = item c p"
    and lookup_ok: "ok c \<Longrightarrow> unat p < limit c \<Longrightarrow> ok (snd (lookup c p))"
    and lookup_static: "ok c \<Longrightarrow> unat p < limit c \<Longrightarrow> same_static (snd (lookup c p)) c"
    and item_static: "same_static c c' \<Longrightarrow> item c p = item c' p"
    and limit_static: "same_static c c' \<Longrightarrow> limit c = limit c'"
begin

lemma kernel_access:
  assumes "ok c" and "same_static c c0" and "0 < limit c0" and "limit c0 = unat index_limit"
  shows "\<exists>c'. hash_kernel_access lookup index_limit s i (mix, c) =
       (fst (hash_kernel_access (light_lookup item) index_limit s i (mix, c0)), c') \<and>
     ok c' \<and> same_static c' c0"
proof -
  let ?p = "fnv1 (of_nat i XOR s) (mix ! (i mod 32)) mod index_limit"
  have "unat ?p < limit c" using assms limit_static [of c c0] by (simp add: unat_mod_less)
  then have "fst (lookup c ?p) = item c0 ?p" "ok (snd (lookup c ?p))" "same_static (snd (lookup c ?p)) c"
    using lookup_item lookup_ok lookup_static assms item_static by simp_all
  moreover from this(3) have "same_static (snd (lookup c ?p)) c0"
    using assms(2) by (simp add: same_static_def same_light_def)
  ultimately show ?thesis
    by (cases "lookup c ?p") (simp add: hash_kernel_access_def light_lookup_def)
qed

lemma kernel_loop:
  assumes "ok c" and "same_static c c0" and "0 < limit c0" and "limit c0 = unat index_limit"
  shows "\<exists>c'. fold (hash_kernel_access lookup index_limit s) is (mix, c) =
       (fst (fold (hash_kernel_access (light_lookup item) index_limit s) is (mix, c0)), c') \<and>
     ok c' \<and> same_static c' c0"
  using assms(1,2)
proof (induction "is" arbitrary: mix c)
  case (Cons i "is")
  obtain c' where c': "hash_kernel_access lookup index_limit s i (mix, c) =
       (fst (hash_kernel_access (light_lookup item) index_limit s i (mix, c0)), c')"
     "ok c'" "same_static c' c0"
    using kernel_access Cons.prems assms(3,4) by blast
  obtain m where m: "hash_kernel_access (light_lookup item) index_limit s i (mix, c0) = (m, c0)"
    by (simp add: hash_kernel_access_def light_lookup_def)
  show ?case using Cons.IH [OF c'(2,3), of m] c'(1) m by simp
qed simp

lemma kernel_eq:
  assumes "ok c" and "0 < limit c" and "limit c = unat (of_int (ctx_full_dataset_num_items c) :: u32)"
  obtains c' where "hash_kernel c seed lookup = (fst (hash_kernel c seed (light_lookup item)), c')"
    and "ok c'" and "same_static c' c"
proof -
  have "same_static c c" by (simp add: same_static_def same_light_def)
  from kernel_loop [OF assms(1) this assms(2,3), of "seed ! 0" "[0..<num_dataset_accesses]" "seed @ seed"] that
  show ?thesis
    by (auto simp: hash_kernel_def Let_def le_uint32_def split: prod.split)
qed

end

lemma items_light:
  assumes "same_light c c'"
  shows "calculate_dataset_item_1024 c i = calculate_dataset_item_1024 c' i"
    and "calculate_dataset_item_2048 c i = calculate_dataset_item_2048 c' i"
  using assms
  by (simp_all add: calculate_dataset_item_1024_def calculate_dataset_item_2048_def
      item_state_init_def same_light_def)

lemma same_static_light: "same_static c c' \<Longrightarrow> same_light c c'"
  by (simp add: same_static_def same_light_def)

lemmas items_static = items_light [OF same_static_light]

lemma dataset_lookup_light:
  assumes "\<And>c c' p. same_static c c' \<Longrightarrow> item c p = item c' p"
    and "\<And>c c'. same_static c c' \<Longrightarrow> limit c = limit c'"
  shows "dataset_lookup (light_lookup item) item (\<lambda>_. True) limit"
proof
  fix c c' :: epoch_context and p :: u32
  show "fst (light_lookup item c p) = item c p" "True" "same_static (snd (light_lookup item c p)) c"
    by (simp_all add: light_lookup_def same_static_def same_light_def)
qed (use assms in blast)+

lemma dataset_lookup_lazy:
  assumes item: "\<And>c c' p. same_static c c' \<Longrightarrow> item c p = item c' p"
    and limit: "\<And>c c'. same_static c c' \<Longrightarrow> limit c = limit c'"
    and len: "\<And>c p. length (item c p) = w"
  shows "dataset_lookup (lazy_lookup w item) item (region_ok w item limit) limit"
proof -
  { fix c :: epoch_context and p :: u32
    assume ok: "region_ok w item limit c" and p: "unat p < limit c"
    let ?r = "ctx_region c" and ?i = "unat p"
    have le: "w * limit c \<le> length ?r" using ok by (simp add: region_ok_def Let_def)
    have i: "slice w ?i ?r = item c p \<or> word64_at (slice w ?i ?r) 0 = 0 \<and> 4096 \<le> w * ?i"
      using ok p by (auto simp: region_ok_def Let_def)
    let ?c = "c\<lparr>ctx_region := put_slice w ?i (item c p) ?r\<rparr>"
    have t: "take 4096 (ctx_region ?c) = take 4096 ?r" 
    proof (cases "slice w ?i ?r = item c p")
      case True then show ?thesis using put_slice_id [OF le p] by simp
    next
      case False
      then have "4096 \<le> w * ?i" using i by simp
      moreover have "w * ?i \<le> length ?r" using slice_end_le [OF p, of w] le by simp
      ultimately show ?thesis by (simp add: take_put_slice_beyond)
    qed
    have st: "same_static ?c c" using t length_put_slice [OF le p len] by (simp add: same_static_def same_light_def)
    have "slice w j (ctx_region ?c) = item ?c (of_nat j) \<or> word64_at (slice w j (ctx_region ?c)) 0 = 0 \<and> 4096 \<le> w * j"
      if "j < limit c" for j
      using that ok slice_put_same [OF le p len [of c p]] slice_put_other [OF le p that len [of c p]] item [OF st]
      by (cases "j = ?i") (auto simp: region_ok_def Let_def)
    then have "region_ok w item limit ?c"
      using ok limit [OF st] length_put_slice [OF le p len [of c p]] by (simp add: region_ok_def Let_def)
    then have "region_ok w item limit ?c \<and> same_static ?c c \<and>
      (slice w ?i ?r = item c p \<or> word64_at (slice w ?i ?r) 0 = 0 \<and> 4096 \<le> w * ?i)"
      using st i by blast }
  note * = this
  show ?thesis
  proof
    fix c :: epoch_context and p :: u32
    assume "region_ok w item limit c" "unat p < limit c"
    note ** = * [OF this] this
    show "fst (lazy_lookup w item c p) = item c p" using **(1) by (auto simp: lazy_lookup_def Let_def)
    show "region_ok w item limit (snd (lazy_lookup w item c p))" using ** by (simp add: lazy_lookup_def Let_def)
    show "same_static (snd (lazy_lookup w item c p)) c" using ** by (simp add: lazy_lookup_def Let_def) (simp add: same_static_def same_light_def)
  qed (use item limit in blast)+
qed

lemma num_items_static:
  "same_static c c' \<Longrightarrow> num_items_1024 c = num_items_1024 c'"
  "same_static c c' \<Longrightarrow> num_items_2048 c = num_items_2048 c'"
  by (simp_all add: same_static_def same_light_def num_items_1024_def num_items_2048_def)

interpretation light_1024: dataset_lookup "light_lookup calculate_dataset_item_1024"
  calculate_dataset_item_1024 "\<lambda>_. True" num_items_1024
  by (rule dataset_lookup_light) (fact items_static num_items_static)+

interpretation lazy_1024: dataset_lookup "lazy_lookup 32 calculate_dataset_item_1024"
  calculate_dataset_item_1024 "region_ok 32 calculate_dataset_item_1024 num_items_1024" num_items_1024
  by (rule dataset_lookup_lazy) (fact items_static num_items_static length_items)+

lemma region_ok_limit:
  assumes "region_ok 32 calculate_dataset_item_1024 num_items_1024 c"
  shows "0 < num_items_1024 c \<and> num_items_1024 c = unat (of_int (ctx_full_dataset_num_items c) :: u32)"
proof -
  have "num_items_1024 c < 2 ^ 32" "0 < num_items_1024 c"
    using assms by (auto simp: region_ok_def Let_def intro: Nat.gr0I)
  moreover from this have "of_int (ctx_full_dataset_num_items c) = (of_nat (num_items_1024 c) :: u32)"
    by (simp add: num_items_1024_def)
  ultimately show ?thesis by (simp add: unat_of_nat)
qed

lemma ethash_hash_full_eq:
  assumes "region_ok 32 calculate_dataset_item_1024 num_items_1024 c"
  shows "fst (ethash_hash_full c header nonce) = fst (ethash_hash c header nonce) \<and>
     region_ok 32 calculate_dataset_item_1024 num_items_1024 (snd (ethash_hash_full c header nonce)) \<and>
     same_static (snd (ethash_hash_full c header nonce)) c"
proof -
  from region_ok_limit [OF assms] obtain c' where
    "hash_kernel c (hash_seed header nonce) lazy_lookup_1024 =
      (fst (hash_kernel c (hash_seed header nonce) (light_lookup calculate_dataset_item_1024)), c')"
    "region_ok 32 calculate_dataset_item_1024 num_items_1024 c'" "same_static c' c"
    using lazy_1024.kernel_eq [OF assms, of "hash_seed header nonce"] by (metis lazy_lookup_1024_def)
  then show ?thesis
    by (simp add: ethash_hash_full_def ethash_hash_def Let_def split: prod.split)
qed

lemma light_kernel_access_snd: "snd (hash_kernel_access (light_lookup item) l s i (mix, c)) = c"
  by (simp add: hash_kernel_access_def light_lookup_def)

lemma light_kernel_light:
  assumes "same_light c c'"
  shows "fst (hash_kernel c seed (light_lookup calculate_dataset_item_1024)) =
         fst (hash_kernel c' seed (light_lookup calculate_dataset_item_1024))"
proof -
  have *: "fst (fold (hash_kernel_access (light_lookup calculate_dataset_item_1024) l s) is (mix, c)) =
    fst (fold (hash_kernel_access (light_lookup calculate_dataset_item_1024) l s) is (mix, c'))" for l s "is" mix
  proof (induction "is" arbitrary: mix)
    case (Cons i "is")
    show ?case using Cons.IH by (simp add: hash_kernel_access_def light_lookup_def items_light(1) [OF assms])
  qed simp
  have "ctx_full_dataset_num_items c = ctx_full_dataset_num_items c'" using assms by (simp add: same_light_def)
  with * show ?thesis by (simp add: hash_kernel_def Let_def split: prod.split) (metis fst_conv)
qed

lemma ethash_hash_light: "same_light c c' \<Longrightarrow> fst (ethash_hash c h n) = fst (ethash_hash c' h n)"
  using light_kernel_light [of c c' "hash_seed h n"]
  by (auto simp: ethash_hash_def Let_def split: prod.split)

lemma ethash_hash_snd: "snd (ethash_hash c h n) = c"
proof -
  have "snd (fold (hash_kernel_access (light_lookup item) l s) is (mix, c)) = c" for item l s "is" mix
    by (induction "is" arbitrary: mix) (auto simp: hash_kernel_access_def light_lookup_def)
  then show ?thesis by (simp add: ethash_hash_def hash_kernel_def Let_def split: prod.split) (metis snd_conv)
qed

section \<open>Creation of contexts\<close>

lemma is_prime_131: "is_prime 131"
  by (subst is_odd_prime_iff [symmetric]) (simp_all add: is_odd_prime_def is_odd_prime_from.simps)

lemma num_items_bounds:
  assumes "0 \<le> e" and "e \<le> 32639"
  shows "131 \<le> ethash_calculate_light_cache_num_items e"
    and "ethash_calculate_light_cache_num_items e \<le> light_cache_upper_bound e"
    and "131 \<le> ethash_calculate_full_dataset_num_items e"
    and "ethash_calculate_full_dataset_num_items e \<le> full_dataset_upper_bound e"
    and "light_cache_upper_bound e < 2 ^ 31" and "full_dataset_upper_bound e < 2 ^ 31"
proof -
  have l: "light_cache_upper_bound e = 262144 + e * 2048" "full_dataset_upper_bound e = 8388608 + e * 65536"
    by (simp_all add: light_cache_upper_bound_def full_dataset_upper_bound_def light_cache_init_size_def
        light_cache_growth_def light_cache_item_size_def full_dataset_init_size_def
        full_dataset_growth_def full_dataset_item_size_def)
  show "light_cache_upper_bound e < 2 ^ 31" "full_dataset_upper_bound e < 2 ^ 31" using l assms by simp_all
  show "131 \<le> ethash_calculate_light_cache_num_items e" "131 \<le> ethash_calculate_full_dataset_num_items e"
    unfolding ethash_calculate_light_cache_num_items_def ethash_calculate_full_dataset_num_items_def
    using l assms by (auto intro!: ethash_find_largest_prime_ge is_prime_131)
  show "ethash_calculate_light_cache_num_items e \<le> light_cache_upper_bound e"
    "ethash_calculate_full_dataset_num_items e \<le> full_dataset_upper_bound e"
    unfolding ethash_calculate_light_cache_num_items_def ethash_calculate_full_dataset_num_items_def
    using ethash_find_largest_prime_spec [of "light_cache_upper_bound e"]
      ethash_find_largest_prime_spec [of "full_dataset_upper_bound e"] l assms by simp_all
qed

lemma slice_halves:
  "slice 32 (2 * i) xs = take 32 (slice 64 i xs)" "slice 32 (2 * i + 1) xs = drop 32 (slice 64 i xs)"
  by (simp_all add: slice_def drop_take)

lemma items_halves:
  assumes "i < 64"
  shows "calculate_dataset_item_1024 c (of_nat (2 * i)) = take 32 (calculate_dataset_item_2048 c (of_nat i))"
    and "calculate_dataset_item_1024 c (of_nat (2 * i + 1)) = drop 32 (calculate_dataset_item_2048 c (of_nat i))"
proof -
  have "uint (of_nat (2 * i) :: u32) = 2 * int i" "uint (of_nat (2 * i + 1) :: u32) = 2 * int i + 1"
    "uint (of_nat i :: u32) = int i"
    using assms by (simp_all only: uint_nat unat_of_nat) simp_all
  then show "calculate_dataset_item_1024 c (of_nat (2 * i)) = take 32 (calculate_dataset_item_2048 c (of_nat i))"
    "calculate_dataset_item_1024 c (of_nat (2 * i + 1)) = drop 32 (calculate_dataset_item_2048 c (of_nat i))"
    by (simp_all only: calculate_dataset_item_1024_eq calculate_dataset_item_2048_eq) (simp_all add: algebra_simps)
qed

lemma items_region [simp]:
  "calculate_dataset_item_2048 (c\<lparr>ctx_region := r\<rparr>) i = calculate_dataset_item_2048 c i"
  "calculate_dataset_item_1024 (c\<lparr>ctx_region := r\<rparr>) i = calculate_dataset_item_1024 c i"
  by (simp_all add: calculate_dataset_item_2048_def calculate_dataset_item_1024_def item_state_init_def)

lemma fill_l1:
  assumes "64 * n \<le> m" and "k \<le> n"
  shows "\<exists>r. fill_l1 k (c\<lparr>ctx_region := replicate m 0\<rparr>) = c\<lparr>ctx_region := r\<rparr> \<and> length r = m \<and>
    (\<forall>i < k. slice 64 i r = calculate_dataset_item_2048 c (of_nat i)) \<and>
    (\<forall>j. 64 * k \<le> j \<and> j < m \<longrightarrow> r ! j = 0)"
  using assms(2)
proof (induction k)
  case 0
  show ?case by (rule exI [of _ "replicate m 0"]) (simp add: fill_l1_def)
next
  case (Suc k)
  then obtain r where r: "fill_l1 k (c\<lparr>ctx_region := replicate m 0\<rparr>) = c\<lparr>ctx_region := r\<rparr>" "length r = m"
    "\<forall>i < k. slice 64 i r = calculate_dataset_item_2048 c (of_nat i)" "\<forall>j. 64 * k \<le> j \<and> j < m \<longrightarrow> r ! j = 0"
    by auto
  have le: "64 * n \<le> length r" "k < n" using r assms Suc by simp_all
  let ?r = "put_slice 64 k (calculate_dataset_item_2048 c (of_nat k)) r"
  have "fill_l1 (Suc k) (c\<lparr>ctx_region := replicate m 0\<rparr>) = c\<lparr>ctx_region := ?r\<rparr>"
    using r(1) by (simp add: fill_l1_def)
  moreover have "slice 64 i ?r = calculate_dataset_item_2048 c (of_nat i)" if "i < Suc k" for i
    using that le r(3) slice_put_same [OF le] slice_put_other [OF le, of i]
    by (cases "i = k") simp_all
  moreover have "?r ! j = 0" if "64 * Suc k \<le> j" "j < m" for j
    using that r nth_put_slice [OF le, of "calculate_dataset_item_2048 c (of_nat k)" j] by simp
  ultimately show ?case using length_put_slice [OF le, of "calculate_dataset_item_2048 c (of_nat k)"] r(2) by auto
qed



lemma create_epoch_context_props:
  assumes e: "0 \<le> e" "e \<le> 32639"
    and c: "generic_create_epoch_context calloc build_fn e full = Some c"
  shows "ctx_epoch_number c = e"
    and "ctx_light_cache_num_items c = ethash_calculate_light_cache_num_items e"
    and "ctx_light_cache c = build_fn
       (replicate (nat (ethash_calculate_light_cache_num_items e)) (replicate 16 0))
       (ethash_calculate_light_cache_num_items e) (ethash_calculate_epoch_seed e)"
    and "ctx_full_dataset_num_items c = ethash_calculate_full_dataset_num_items e"
    and "ctx_full_dataset c = full"
    and "length (ctx_region c) = region_words e full"
    and "i < 64 \<Longrightarrow> slice 64 i (ctx_region c) = calculate_dataset_item_2048 c (of_nat i)"
    and "4096 \<le> j \<Longrightarrow> j < length (ctx_region c) \<Longrightarrow> ctx_region c ! j = 0"
proof -
  let ?n = "ethash_calculate_full_dataset_num_items e"
  let ?c = "\<lparr>ctx_epoch_number = e,
    ctx_light_cache_num_items = ethash_calculate_light_cache_num_items e,
    ctx_light_cache = build_fn (replicate (nat (ethash_calculate_light_cache_num_items e)) (replicate 16 0))
       (ethash_calculate_light_cache_num_items e) (ethash_calculate_epoch_seed e),
    ctx_region = [], ctx_full_dataset_num_items = ?n, ctx_full_dataset = full\<rparr>"
  have n: "131 \<le> ?n" by (rule num_items_bounds(3) [OF e])
  have m: "64 * 64 \<le> region_words e full" using n by (auto simp: region_words_def)
  have s: "nat ((if full then ?n * 128 else int l1_cache_size) div 4) = region_words e full"
    using n by (simp add: region_words_def l1_cache_size_def nat_mult_distrib)
  have "c = fill_l1 64 (?c\<lparr>ctx_region := replicate (region_words e full) 0\<rparr>)"
    using c s by (auto simp: generic_create_epoch_context_def Let_def fill_l1_def l1_cache_size_def
        split: if_splits)
  with fill_l1 [OF m, of 64 ?c] obtain r where
    "c = ?c\<lparr>ctx_region := r\<rparr>" "length r = region_words e full"
    "\<forall>i < 64. slice 64 i r = calculate_dataset_item_2048 ?c (of_nat i)"
    "\<forall>j. 64 * 64 \<le> j \<and> j < region_words e full \<longrightarrow> r ! j = 0"
    by auto
  moreover have "calculate_dataset_item_2048 c i = calculate_dataset_item_2048 ?c i" for i
    using \<open>c = ?c\<lparr>ctx_region := r\<rparr>\<close> by (intro items_light) (simp add: same_light_def)
  ultimately show "ctx_epoch_number c = e"
    "ctx_light_cache_num_items c = ethash_calculate_light_cache_num_items e"
    "ctx_light_cache c = build_fn
       (replicate (nat (ethash_calculate_light_cache_num_items e)) (replicate 16 0))
       (ethash_calculate_light_cache_num_items e) (ethash_calculate_epoch_seed e)"
    "ctx_full_dataset_num_items c = ?n" "ctx_full_dataset c = full"
    "length (ctx_region c) = region_words e full"
    "i < 64 \<Longrightarrow> slice 64 i (ctx_region c) = calculate_dataset_item_2048 c (of_nat i)"
    "4096 \<le> j \<Longrightarrow> j < length (ctx_region c) \<Longrightarrow> ctx_region c ! j = 0"
    by auto
qed

lemma word64_at_zero: "2 * i + 1 < length xs \<Longrightarrow> xs ! (2 * i) = 0 \<Longrightarrow> xs ! (2 * i + 1) = 0 \<Longrightarrow> word64_at xs i = 0"
  by (simp add: word64_at_def)

lemma create_full_region_ok_1024:
  assumes e: "0 \<le> e" "e \<le> 32639"
    and c: "generic_create_epoch_context calloc build_fn e True = Some c"
  shows "region_ok 32 calculate_dataset_item_1024 num_items_1024 c"
proof -
  note p = create_epoch_context_props [OF e c]
  let ?n = "nat (ethash_calculate_full_dataset_num_items e)"
  have n: "131 \<le> ?n" "?n < 2 ^ 32" using num_items_bounds [OF e] by simp_all
  have len: "length (ctx_region c) = 32 * ?n" using p(6) by (simp add: region_words_def)
  have "slice 32 i (ctx_region c) = calculate_dataset_item_1024 c (of_nat i) \<or>
      word64_at (slice 32 i (ctx_region c)) 0 = 0 \<and> 4096 \<le> 32 * i" if "i < ?n" for i
  proof (cases "i < 128")
    case True
    moreover define k where "k = i div 2"
    ultimately have k: "k < 64" "i = 2 * k \<or> i = 2 * k + 1" by auto
    then show ?thesis using p(7) items_halves [OF k(1), of c] slice_halves [of k "ctx_region c"] by auto
  next
    case False
    then have "32 * i + 1 < length (ctx_region c)" "4096 \<le> 32 * i" using that len by auto
    then have "word64_at (slice 32 i (ctx_region c)) 0 = 0"
      using p(8) by (intro word64_at_zero) (simp_all add: slice_def)
    then show ?thesis using False by simp
  qed
  then show ?thesis using n len p(4) by (simp add: region_ok_def Let_def num_items_1024_def)
qed

lemma create_full_region_ok_2048:
  assumes e: "0 \<le> e" "e \<le> 32639"
    and c: "generic_create_epoch_context calloc build_fn e True = Some c"
  shows "region_ok 64 calculate_dataset_item_2048 num_items_2048 c"
proof -
  note p = create_epoch_context_props [OF e c]
  let ?n = "nat (ethash_calculate_full_dataset_num_items e)"
  have n: "131 \<le> ?n" "?n < 2 ^ 32" using num_items_bounds [OF e] by simp_all
  have len: "length (ctx_region c) = 32 * ?n" using p(6) by (simp add: region_words_def)
  have "slice 64 i (ctx_region c) = calculate_dataset_item_2048 c (of_nat i) \<or>
      word64_at (slice 64 i (ctx_region c)) 0 = 0 \<and> 4096 \<le> 64 * i" if "i < ?n div 2" for i
  proof (cases "i < 64")
    case False
    then have "64 * i + 1 < length (ctx_region c)" "4096 \<le> 64 * i" using that len by auto
    then have "word64_at (slice 64 i (ctx_region c)) 0 = 0"
      using p(8) by (intro word64_at_zero) (simp_all add: slice_def)
    then show ?thesis using False by simp
  qed (use p(7) in simp)
  moreover have "64 * (?n div 2) \<le> 32 * ?n" by simp
  moreover have "64 \<le> ?n div 2" "?n div 2 < 2 ^ 32" using n by auto
  ultimately show ?thesis using len p(4) by (simp add: region_ok_def Let_def num_items_2048_def)
qed

lemma take_4096_slices:
  assumes "4096 \<le> length xs" and "4096 \<le> length ys" and "\<And>i. i < 64 \<Longrightarrow> slice 64 i xs = slice 64 i ys"
  shows "take 4096 xs = take 4096 ys"
proof (rule nth_equalityI)
  fix k assume "k < length (take 4096 xs)"
  then have k: "k < 4096" using assms by simp
  then have "k div 64 < 64" by simp
  from arg_cong [OF assms(3) [OF this], of "\<lambda>zs. zs ! (k mod 64)"]
  have "xs ! k = ys ! k" using k assms(1,2) by (simp add: slice_def)
  then show "take 4096 xs ! k = take 4096 ys ! k" using k assms by simp
qed (use assms in simp)

lemma hash_history_ok:
  assumes "region_ok 32 calculate_dataset_item_1024 num_items_1024 c"
  shows "region_ok 32 calculate_dataset_item_1024 num_items_1024 (hash_history c hs) \<and>
    same_light (hash_history c hs) c"
  using assms
proof (induction hs arbitrary: c)
  case (Cons x hs)
  obtain h n where x: "x = (h, n)" by fastforce
  have "same_light (snd (ethash_hash_full c h n)) c"
    using ethash_hash_full_eq [OF Cons.prems, of h n] by (simp add: same_static_light)
  with Cons.IH [of "snd (ethash_hash_full c h n)"] ethash_hash_full_eq [OF Cons.prems, of h n]
  show ?case by (simp add: hash_history_def x) (simp add: same_light_def)
qed (simp add: hash_history_def same_light_def)

lemma create_same_light:
  assumes e: "0 \<le> e" "e \<le> 32639"
    and "generic_create_epoch_context calloc build_fn e full = Some c"
    and "generic_create_epoch_context calloc' build_fn e full' = Some c'"
  shows "same_light c c' \<and> (\<forall>i<4096. ctx_l1_cache c i = ctx_l1_cache c' i)"
proof -
  note p = create_epoch_context_props [OF e assms(3)] and p' = create_epoch_context_props [OF e assms(4)]
  have l: "same_light c c'" using p p' by (simp add: same_light_def)
  have "131 \<le> ethash_calculate_full_dataset_num_items e" by (rule num_items_bounds(3) [OF e])
  then have n: "4096 \<le> length (ctx_region c)" "4096 \<le> length (ctx_region c')"
    using p(6) p'(6) by (auto simp: region_words_def)
  have "take 4096 (ctx_region c) = take 4096 (ctx_region c')"
    using n p(7) p'(7) items_light(2) [OF l] by (intro take_4096_slices) simp_all
  then have "\<forall>i<4096. ctx_l1_cache c i = ctx_l1_cache c' i"
    by (metis ctx_l1_cache_def nth_take)
  with l show ?thesis ..
qed

text \<open>
  C5: a full context computes the hash of the light context: after any number of earlier hash
  computations on it, which fill the shared memory region lazily, the result for every header and
  nonce is that of a light context of the same epoch.
\<close>
theorem full_hash_eq_light_hash:
  assumes "0 \<le> epoch_number" and "epoch_number \<le> 32639"
    and "ethash_create_epoch_context_full calloc epoch_number = Some cf"
    and "ethash_create_epoch_context calloc epoch_number = Some cl"
  shows "fst (ethash_hash_full (hash_history cf hs) header_hash nonce) =
    fst (ethash_hash cl header_hash nonce)"
proof -
  note f = assms(3) [unfolded ethash_create_epoch_context_full_def]
    and l = assms(4) [unfolded ethash_create_epoch_context_def]
  note h = hash_history_ok [OF create_full_region_ok_1024 [OF assms(1,2) f], of hs]
  have "same_light (hash_history cf hs) cl"
    using h create_same_light [OF assms(1,2) f l] by (simp add: same_light_def)
  with h show ?thesis using ethash_hash_full_eq ethash_hash_light by metis
qed

theorem full_hash_eq_light_hash_witness:
  "\<exists>cf cl. ethash_create_epoch_context_full (\<lambda>_. True) 0 = Some cf \<and>
     ethash_create_epoch_context (\<lambda>_. True) 0 = Some cl \<and>
     fst (ethash_hash_full (hash_history cf [(replicate 8 1, 7)]) (replicate 8 1) 8) =
       fst (ethash_hash cl (replicate 8 1) 8)"
proof -
  obtain cf cl where c: "ethash_create_epoch_context_full (\<lambda>_. True) 0 = Some cf"
    "ethash_create_epoch_context (\<lambda>_. True) 0 = Some cl"
    by (simp add: ethash_create_epoch_context_full_def ethash_create_epoch_context_def
        generic_create_epoch_context_def Let_def)
  with full_hash_eq_light_hash [OF _ _ c] show ?thesis by auto
qed

section \<open>Search\<close>

text \<open>
  The contract between a hash function that may change its context and the search loop: on admissible
  contexts the value of every nonce is fixed.
\<close>

locale pow_hash =
  fixes hash :: "'c \<Rightarrow> u64 \<Rightarrow> hash_result \<times> 'c"
    and outcome :: "'c \<Rightarrow> u64 \<Rightarrow> hash_result"
    and ok :: "'c \<Rightarrow> bool"
  assumes hash_outcome: "ok c \<Longrightarrow> fst (hash c n) = outcome c n"
    and hash_ok: "ok c \<Longrightarrow> ok (snd (hash c n))"
    and outcome_stable: "ok c \<Longrightarrow> outcome (snd (hash c n)) m = outcome c m"
begin

lemma search_first:
  assumes "ok c" and "search_loop hash boundary c start end_nonce = (r, c')"
  shows "ok c' \<and>
    (if sr_solution_found r
     then start \<le> sr_nonce r \<and> sr_nonce r < end_nonce \<and>
          sr_final_hash r = res_final_hash (outcome c (sr_nonce r)) \<and>
          sr_mix_hash r = res_mix_hash (outcome c (sr_nonce r)) \<and>
          is_less_or_equal (sr_final_hash r) boundary \<and>
          (\<forall>m. start \<le> m \<and> m < sr_nonce r \<longrightarrow> \<not> is_less_or_equal (res_final_hash (outcome c m)) boundary)
     else r = search_result_default \<and>
          (\<forall>m. start \<le> m \<and> m < end_nonce \<longrightarrow> \<not> is_less_or_equal (res_final_hash (outcome c m)) boundary))"
  using assms
proof (induction "unat end_nonce - unat start" arbitrary: c start rule: less_induct)
  case less
  let ?acc = "\<lambda>c n. is_less_or_equal (res_final_hash (outcome c n)) boundary"
  obtain r1 c1 where h: "hash c start = (r1, c1)" by fastforce
  have v: "r1 = outcome c start" "ok c1" "\<And>m. outcome c1 m = outcome c m"
    using hash_outcome [OF less.prems(1), of start] hash_ok [OF less.prems(1), of start]
      outcome_stable [OF less.prems(1), of start] h by simp_all
  consider (stop) "\<not> start < end_nonce" | (hit) "start < end_nonce" "?acc c start"
    | (go) "start < end_nonce" "\<not> ?acc c start" by blast
  then show ?case
  proof cases
    case stop
    then show ?thesis using less.prems
      by (auto simp: search_loop.simps [of hash] search_result_default_def)
  next
    case hit
    then have "r = search_result_of (outcome c start) start" "c' = c1"
      using less.prems(2) h v by (simp_all add: search_loop.simps [of hash])
    then show ?thesis using hit v by (auto simp: search_result_of_def)
  next
    case go
    have s: "unat (start + 1) = unat start + 1" "unat start < unat end_nonce"
      using unat_Suc_less [OF go(1)] go(1) by (simp_all add: word_less_nat_alt)
    have l: "search_loop hash boundary c1 (start + 1) end_nonce = (r, c')"
      using less.prems(2) go h v by (simp add: search_loop.simps [of hash _ c])
    have d: "unat end_nonce - unat (start + 1) < unat end_nonce - unat start" using s by simp
    note IH = less.hyps [OF d v(2) l, unfolded v(3)]
    have "start \<le> m \<longleftrightarrow> m = start \<or> start + 1 \<le> m" for m
      using s by (auto simp: word_le_nat_alt word_unat_eq_iff)
    with IH go show ?thesis by auto
  qed
qed

end

interpretation light_hash: pow_hash "\<lambda>c n. ethash_hash c header n" "\<lambda>c n. fst (ethash_hash c header n)"
  "\<lambda>_. True" for header
  by unfold_locales (simp_all add: ethash_hash_snd)

interpretation full_hash: pow_hash "\<lambda>c n. ethash_hash_full c header n" "\<lambda>c n. fst (ethash_hash c header n)"
  "region_ok 32 calculate_dataset_item_1024 num_items_1024" for header
  using ethash_hash_full_eq ethash_hash_light same_static_light by unfold_locales blast+

lemma bytes_of_word_inj: "map (byte_at x) [0..<4] = map (byte_at y) [0..<4] \<Longrightarrow> x = (y :: u32)"
proof (rule bit_word_eqI)
  fix n assume eq: "map (byte_at x) [0..<4] = map (byte_at y) [0..<4]" and "n < LENGTH(32)"
  then have n: "n div 8 < 4" by auto
  have "bit z n \<longleftrightarrow> bit (byte_at z (n div 8)) (n mod 8)" for z :: u32
    by (simp add: byte_at_def bit_simps)
  moreover have "byte_at x (n div 8) = byte_at y (n div 8)" using eq n by simp
  ultimately show "bit x n \<longleftrightarrow> bit y n" by simp
qed

lemma length_bytes_of_words: "length (bytes_of_words ws) = 4 * length ws"
  by (induction ws) (simp_all add: bytes_of_words_def)

lemma bytes_of_words_inj: "bytes_of_words xs = bytes_of_words ys \<longleftrightarrow> xs = ys"
proof
  assume "bytes_of_words xs = bytes_of_words ys"
  then show "xs = ys"
  proof (induction xs arbitrary: ys)
    case Nil
    then show ?case using length_bytes_of_words [of ys] by (simp add: bytes_of_words_def)
  next
    case (Cons x xs)
    then obtain y zs where ys: "ys = y # zs"
      using length_bytes_of_words [of ys] length_bytes_of_words [of "x # xs"] by (cases ys) auto
    with Cons show ?case using bytes_of_word_inj [of x y] by (auto simp: bytes_of_words_def)
  qed
qed simp

lemma ethash_verify_iff:
  "ethash_verify c header mix_hash nonce boundary \<longleftrightarrow>
     mix_hash = res_mix_hash (fst (ethash_hash c header nonce)) \<and>
     is_less_or_equal (res_final_hash (fst (ethash_hash c header nonce))) boundary"
  by (auto simp: ethash_verify_def ethash_hash_def Let_def is_equal_def bytes_of_words_inj split: prod.split)

text \<open>
  C6: nonce search on a full context is sound and complete: a reported nonce lies in the searched range,
  its mix hash passes verification on a light context, no smaller nonce of the range passes, and
  when nothing is reported no nonce of the range passes.
\<close>
theorem ethash_search_correct:
  assumes "0 \<le> epoch_number" and "epoch_number \<le> 32639"
    and "ethash_create_epoch_context_full calloc epoch_number = Some cf"
    and "ethash_create_epoch_context calloc epoch_number = Some cl"
    and "ethash_search (hash_history cf hs) header boundary start_nonce iterations = (r, c')"
  shows "if sr_solution_found r
    then start_nonce \<le> sr_nonce r \<and> sr_nonce r < start_nonce + iterations \<and>
      ethash_verify cl header (sr_mix_hash r) (sr_nonce r) boundary \<and>
      sr_final_hash r = hash_final (hash_seed header (sr_nonce r)) (sr_mix_hash r) \<and>
      (\<forall>m mix. start_nonce \<le> m \<and> m < sr_nonce r \<longrightarrow> \<not> ethash_verify cl header mix m boundary)
    else \<forall>m mix. start_nonce \<le> m \<and> m < start_nonce + iterations \<longrightarrow> \<not> ethash_verify cl header mix m boundary"
proof -
  note f = assms(3) [unfolded ethash_create_epoch_context_full_def]
    and l = assms(4) [unfolded ethash_create_epoch_context_def]
  note h = hash_history_ok [OF create_full_region_ok_1024 [OF assms(1,2) f], of hs]
  have "same_light (hash_history cf hs) cl"
    using h create_same_light [OF assms(1,2) f l] by (simp add: same_light_def)
  note eq = ethash_hash_light [OF this]
  have "res_final_hash (fst (ethash_hash cl header n)) = hash_final (hash_seed header n) (res_mix_hash (fst (ethash_hash cl header n)))" for n
    by (simp add: ethash_hash_def Let_def split: prod.split)
  then show ?thesis
    using full_hash.search_first [of "hash_history cf hs" header boundary start_nonce "start_nonce + iterations" r c'] assms(5) h
    by (auto simp: ethash_search_def eq ethash_verify_iff search_result_of_def split: if_splits)
qed

theorem ethash_search_witness:
  "\<exists>cf cl r c'. ethash_create_epoch_context_full (\<lambda>_. True) 0 = Some cf \<and>
     ethash_create_epoch_context (\<lambda>_. True) 0 = Some cl \<and>
     ethash_search (hash_history cf []) (replicate 8 1) (replicate 8 2) 5 1 = (r, c') \<and>
     sr_solution_found r = (\<exists>mix. ethash_verify cl (replicate 8 1) mix 5 (replicate 8 2))"
proof -
  obtain cf cl where c: "ethash_create_epoch_context_full (\<lambda>_. True) 0 = Some cf"
    "ethash_create_epoch_context (\<lambda>_. True) 0 = Some cl"
    by (simp add: ethash_create_epoch_context_full_def ethash_create_epoch_context_def
        generic_create_epoch_context_def Let_def)
  obtain r c' where r: "ethash_search (hash_history cf []) (replicate 8 1) (replicate 8 2) 5 1 = (r, c')"
    by fastforce
  have five: "5 \<le> n \<and> n < 6 \<longleftrightarrow> n = 5" for n :: u64
    by (auto simp: word_le_nat_alt word_less_nat_alt word_unat_eq_iff)
  show ?thesis
    using ethash_search_correct [OF _ _ c r] five [of "sr_nonce r"] five [of 5] c r
    by (cases "sr_solution_found r") auto
qed

section \<open>Epoch search\<close>

lemma calculate_epoch_seed_funpow:
  "ethash_calculate_epoch_seed (int n) = (keccak256_hash ^^ n) (replicate 8 0)"
proof -
  have "fold (\<lambda>_. f) [0..<n] x = (f ^^ n) x" for f and x :: hash256
    by (induction n) simp_all
  then show ?thesis by (simp add: ethash_calculate_epoch_seed_def keccak256_hash_def [abs_def, symmetric])
qed

lemma find_epoch_from_Some:
  "find_epoch_from k (int i) s p = Some (e, s') \<Longrightarrow>
     \<exists>j<k. e = int (i + j) \<and> s' = (keccak256_hash ^^ j) s \<and> s' ! 0 = p \<and>
       (\<forall>l<j. (keccak256_hash ^^ l) s ! 0 \<noteq> p)"
proof (induction k arbitrary: i s)
  case (Suc k)
  show ?case
  proof (cases "s ! 0 = p")
    case True
    then show ?thesis using Suc.prems by (intro exI [of _ 0]) auto
  next
    case False
    then have "find_epoch_from k (int (Suc i)) (keccak256_hash s) p = Some (e, s')"
      using Suc.prems by (simp add: algebra_simps)
    from Suc.IH [OF this] obtain j where j: "j < k" "e = int (Suc i + j)"
      "s' = (keccak256_hash ^^ j) (keccak256_hash s)" "s' ! 0 = p"
      "\<forall>l<j. (keccak256_hash ^^ l) (keccak256_hash s) ! 0 \<noteq> p" by blast
    have "(keccak256_hash ^^ l) s ! 0 \<noteq> p" if "l < Suc j" for l
      using that j(5) False by (cases l) (auto simp: funpow_swap1)
    with j show ?thesis by (intro exI [of _ "Suc j"]) (auto simp: funpow_swap1)
  qed
qed simp

lemma find_epoch_from_None:
  "find_epoch_from k i s p = None \<Longrightarrow> j < k \<Longrightarrow> (keccak256_hash ^^ j) s ! 0 \<noteq> p"
proof (induction k arbitrary: i s j)
  case (Suc k)
  then show ?case by (cases j) (auto simp: funpow_swap1 split: if_splits)
qed simp

text \<open>
  The epoch search keeps its cache consistent; a returned epoch has a seed that agrees with the given
  one on the compared first 32 bits, and -1 is returned only when none of the first 30000 epochs does.
\<close>
theorem find_epoch_number_correct:
  assumes "epoch_cache_ok cache" and "find_epoch_number cache seed = (e, cache')"
  shows "epoch_cache_ok cache' \<and>
    (if e = -1 then \<forall>i. 0 \<le> i \<and> i < int num_tries \<longrightarrow> ethash_calculate_epoch_seed i ! 0 \<noteq> seed ! 0
     else 0 \<le> e \<and> ethash_calculate_epoch_seed e ! 0 = seed ! 0)"
proof -
  obtain e0 s0 where c: "cache = (e0, s0)" by fastforce
  have e0: "0 \<le> e0" "s0 = (keccak256_hash ^^ nat e0) (replicate 8 0)"
    using assms(1) calculate_epoch_seed_funpow [of "nat e0"] by (simp_all add: epoch_cache_ok_def c)
  have next_seed: "keccak256_hash s0 = ethash_calculate_epoch_seed (e0 + 1)"
    using e0 calculate_epoch_seed_funpow [of "Suc (nat e0)"] by (simp add: algebra_simps)
  show ?thesis
  proof (cases "s0 ! 0 = seed ! 0 \<or> keccak256_hash s0 ! 0 = seed ! 0")
    case True
    then show ?thesis using assms e0 next_seed
      by (auto simp: find_epoch_number_def c Let_def epoch_cache_ok_def split: if_splits)
  next
    case False
    show ?thesis
    proof (cases "find_epoch_from num_tries 0 (replicate 8 0) (seed ! 0)")
      case None
      have "ethash_calculate_epoch_seed i ! 0 \<noteq> seed ! 0" if "0 \<le> i" "i < int num_tries" for i
        using find_epoch_from_None [OF None, of "nat i"] calculate_epoch_seed_funpow [of "nat i"] that by auto
      then show ?thesis using assms False None by (auto simp: find_epoch_number_def c Let_def)
    next
      case (Some p)
      obtain i s where p: "p = (i, s)" by fastforce
      have "find_epoch_from num_tries (int 0) (replicate 8 0) (seed ! 0) = Some (i, s)"
        using Some p by simp
      from find_epoch_from_Some [OF this] obtain j where
        "i = int j" "s = (keccak256_hash ^^ j) (replicate 8 0)" "s ! 0 = seed ! 0" by auto
      then show ?thesis using assms False Some p calculate_epoch_seed_funpow [of j]
        by (auto simp: find_epoch_number_def c Let_def epoch_cache_ok_def)
    qed
  qed
qed

theorem find_epoch_number_witness:
  "epoch_cache_ok (0, replicate 8 0) \<and>
   find_epoch_number (0, replicate 8 0) (replicate 8 0) = (0, (0, replicate 8 0)) \<and>
   ethash_calculate_epoch_seed 0 ! 0 = 0"
proof -
  have c: "epoch_cache_ok (0, replicate 8 0)"
    by (simp add: epoch_cache_ok_def ethash_calculate_epoch_seed_def)
  have f: "find_epoch_number (0, replicate 8 0) (replicate 8 0) = (0, (0, replicate 8 0))"
    by (simp add: find_epoch_number_def)
  show ?thesis using find_epoch_number_correct [OF c f] c f by simp
qed

section \<open>The light cache\<close>

lemma ucast_word64_at:
  "ucast (word64_at ws i) = ws ! (2 * i)" "ucast (drop_bit 32 (word64_at ws i)) = ws ! (2 * i + 1)"
proof -
  have no: "\<not> bit (x :: u32) (32 + m)" for x m by (auto dest: bit_imp_le_length)
  show "ucast (word64_at ws i) = ws ! (2 * i)" "ucast (drop_bit 32 (word64_at ws i)) = ws ! (2 * i + 1)"
    using no by (auto intro!: bit_word_eqI simp: word64_at_def bit_simps)
qed

lemma bitwise_xor_eq:
  assumes "length x = 16" and "length y = 16"
  shows "bitwise_xor x y = map2 (XOR) x y"
proof -
  have u: "ucast (a XOR b) = (ucast a XOR ucast b :: u32)" for a b :: u64
    by (rule bit_word_eqI) (simp add: bit_simps)
  have "bitwise_xor x y = concat (map (\<lambda>i. [x ! (2 * i) XOR y ! (2 * i), x ! (2 * i + 1) XOR y ! (2 * i + 1)]) [0..<8])"
    by (simp add: bitwise_xor_def words_of_word64s_def comp_def u ucast_word64_at)
  also have "\<dots> = map (\<lambda>i. x ! i XOR y ! i) [0..<16]" by (simp add: upt_rec numeral_eq_Suc)
  also have "\<dots> = map2 (XOR) x y" using assms by (intro nth_equalityI) simp_all
  finally show ?thesis .
qed

lemma light_cache_chain:
  assumes "length cache = n" and "0 < n" and "k \<le> n" and "0 < k"
  shows "fold (\<lambda>i (item, cache). let item = f item in (item, cache[i := item])) [1..<k] (a, cache[0 := a]) =
    ((f ^^ (k - 1)) a, map (\<lambda>i. (f ^^ i) a) [0..<k] @ drop k cache)"
  using assms(4,3)
proof (induction k rule: nat_induct_non_zero)
  case 1
  then show ?case using assms by (cases cache) simp_all
next
  case (Suc k)
  then have "drop k cache = cache ! k # drop (Suc k) cache" using assms by (simp add: Cons_nth_drop_Suc)
  moreover have "(f ^^ k) a = f ((f ^^ (k - 1)) a)" using Suc.hyps by (cases k) simp_all
  ultimately show ?case using Suc by (simp add: list_update_append Let_def)
qed

lemma light_cache_index:
  assumes "0 < n" and "n < 2 ^ 31" and "i < n"
  shows "unat (x mod (of_int (int n) :: u32)) = unat x mod n"
    and "unat (of_int (int n + (int i - 1)) mod (of_int (int n) :: u32)) = (i + n - 1) mod n"
proof -
  have n: "unat (of_int (int n) :: u32) = n" using assms by (simp add: unat_of_nat)
  then show "unat (x mod (of_int (int n) :: u32)) = unat x mod n" by (simp add: unat_mod)
  have "of_int (int n + (int i - 1)) = (of_nat (i + n - 1) :: u32)" using assms by simp
  moreover define m where "m = i + n - 1"
  moreover have "m < 2 ^ 32" using assms by (simp add: m_def)
  then have "unat (of_nat m :: u32) = m" by (simp add: unat_of_nat)
  ultimately show "unat (of_int (int n + (int i - 1)) mod (of_int (int n) :: u32)) = (i + n - 1) mod n"
    using n by (simp only: unat_mod m_def)
qed

lemma light_cache_round:
  assumes h: "\<And>bs. length (h bs) = 16" and n: "0 < n" "n < 2 ^ 31"
    and cache: "length cache = n" "\<forall>x\<in>set cache. length x = 16"
  shows "fold (\<lambda>i cache. let index_limit = of_int (int n) :: u32;
                     t = le_uint32 ((cache ! i) ! 0);
                     v = t mod index_limit;
                     w = of_int (int n + (int i - 1)) mod index_limit;
                     x = bitwise_xor (cache ! unat v) (cache ! unat w)
                 in cache[i := h (bytes_of_words x)]) [0..<n] cache = mkcache_round h n cache \<and>
    length (mkcache_round h n cache) = n \<and> (\<forall>x\<in>set (mkcache_round h n cache). length x = 16)"
  (is "fold ?f _ _ = _ \<and> _")
proof -
  let ?g = "\<lambda>i cache. cache[i := h (bytes_of_words
         (map2 (XOR) (cache ! (unat (cache ! i ! 0) mod n)) (cache ! ((i + n - 1) mod n))))]"
  let ?R = "\<lambda>c d :: hash512 list. c = d \<and> length c = n \<and> (\<forall>x\<in>set c. length x = 16)"
  have "?R (fold ?f [0..<n] cache) (fold ?g [0..<n] cache)"
  proof (rule fold_rel)
    fix i c d assume i: "i \<in> set [0..<n]" and R: "?R c d"
    then have "length (d ! k) = 16" if "k < n" for k using that R nth_mem [of k d] by auto
    moreover have i': "i < n" and e: "c = d" using i R by simp_all
    ultimately have "?f i c = ?g i d"
      unfolding e Let_def le_uint32_def light_cache_index(2) [OF n i']
      unfolding light_cache_index(1) [OF n i']
      by (subst bitwise_xor_eq) (use n in simp_all)
    moreover have "length (?g i d) = n" "\<forall>x\<in>set (?g i d). length x = 16"
      using R h by (auto dest!: subsetD [OF set_update_subset_insert])
    ultimately show "?R (?f i c) (?g i d)" by simp
  qed (use cache in simp)
  then have 1: "fold ?f [0..<n] cache = fold ?g [0..<n] cache" "length (fold ?g [0..<n] cache) = n"
    "\<forall>x\<in>set (fold ?g [0..<n] cache). length x = 16" by (elim conjE, simp only:)+
  show ?thesis unfolding mkcache_round_def by (intro conjI 1)
qed

text \<open>
  C8: the light cache is the one of the Ethash specification, whatever the memory held before, and all
  accesses while it is built are within its bounds.
\<close>
theorem build_light_cache_correct:
  assumes "0 < n" and "n < 2 ^ 31" and "length cache = n"
  shows "build_light_cache cache (int n) seed = mkcache ethash_keccak512 n seed \<and>
    length (build_light_cache cache (int n) seed) = n \<and>
    (\<forall>item\<in>set (build_light_cache cache (int n) seed). length item = 16)"
proof -
  let ?h = ethash_keccak512 and ?f = "\<lambda>item. ethash_keccak512 (bytes_of_words item)"
  let ?a = "?h (bytes_of_words seed)"
  let ?c0 = "map (\<lambda>i. (?f ^^ i) ?a) [0..<n]"
  have h: "length (?h bs) = 16" for bs by (simp add: ethash_keccak512_def length_keccak)
  have c0: "length ?c0 = n" "\<forall>x\<in>set ?c0. length x = 16"
  proof -
    have "length ((?f ^^ i) ?a) = 16" for i by (cases i) (simp_all add: h)
    then show "\<forall>x\<in>set ?c0. length x = 16" by auto
  qed simp
  note r1 = light_cache_round [of ?h, OF h assms(1,2)]
  have "build_light_cache cache (int n) seed = mkcache ?h n seed \<and> length (mkcache ?h n seed) = n \<and>
    (\<forall>x\<in>set (mkcache ?h n seed). length x = 16)"
    using light_cache_chain [OF assms(3,1) order_refl assms(1), of ?f ?a] assms(3) r1 [OF c0] 
      r1 [of "mkcache_round ?h n ?c0"] r1 [of "mkcache_round ?h n (mkcache_round ?h n ?c0)"]
    by (simp add: build_light_cache_def generic_build_light_cache_def light_cache_rounds_def mkcache_def
        numeral_3_eq_3)
  then show ?thesis by simp
qed

theorem build_light_cache_witness:
  "build_light_cache [replicate 16 0, replicate 16 0] 2 (replicate 8 0) =
     mkcache ethash_keccak512 2 (replicate 8 0)"
  using build_light_cache_correct [of 2 "[replicate 16 0, replicate 16 0]" "replicate 8 0"] by simp

end
