(* ===== verification/Progpow.thy ===== *)
theory Progpow
  imports Ethash
begin

text \<open>
  The ProgPoW hash of \<open>src/libethash/progpow.cpp\<close>: the Keccak-f[800] sponges, the random program
  state with its Fisher-Yates shuffles, the round function on sixteen lanes of thirty-two
  registers, hash, verification and search on light and full contexts.
\<close>

section \<open>Constants and Keccak\<close>

definition period_length :: int where "period_length = 2147483647"
definition num_regs :: nat where "num_regs = 32"
definition num_lanes :: nat where "num_lanes = 16"
definition num_cache_accesses :: nat where "num_cache_accesses = 11"
definition num_math_operations :: nat where "num_math_operations = 18"
definition l1_cache_num_items :: nat where "l1_cache_num_items = l1_cache_size div 4"

definition keccak_progpow_256 :: "hash256 \<Rightarrow> u64 \<Rightarrow> hash256 \<Rightarrow> hash256" where
  "keccak_progpow_256 header_hash nonce mix_hash =
     (let state = map (\<lambda>i. le_uint32 (header_hash ! i)) [0..<8] @
                  [ucast nonce, ucast (drop_bit 32 nonce)] @
                  map le_uint32 mix_hash @ replicate 7 0;
          state = ethash_keccakf800 state
      in map (\<lambda>i. le_uint32 (state ! i)) [0..<8])"

definition keccak_progpow_64 :: "hash256 \<Rightarrow> u64 \<Rightarrow> u64" where
  "keccak_progpow_64 header_hash nonce =
     (let h = keccak_progpow_256 header_hash nonce (replicate 8 0)
      in be_uint64 (word64_at h 0))"

section \<open>The random program state\<close>

record mix_rng_state =
  mrs_rng :: kiss99
  mrs_dst_counter :: nat
  mrs_dst_seq :: "u32 list"
  mrs_src_counter :: nat
  mrs_src_seq :: "u32 list"

definition next_dst :: "mix_rng_state \<Rightarrow> u32 \<times> mix_rng_state" where
  "next_dst st = (mrs_dst_seq st ! (mrs_dst_counter st mod num_regs),
     st\<lparr>mrs_dst_counter := mrs_dst_counter st + 1\<rparr>)"

definition next_src :: "mix_rng_state \<Rightarrow> u32 \<times> mix_rng_state" where
  "next_src st = (mrs_src_seq st ! (mrs_src_counter st mod num_regs),
     st\<lparr>mrs_src_counter := mrs_src_counter st + 1\<rparr>)"

definition next_rng :: "mix_rng_state \<Rightarrow> u32 \<times> mix_rng_state" where
  "next_rng st = (let (x, rng) = kiss99_next (mrs_rng st) in (x, st\<lparr>mrs_rng := rng\<rparr>))"

definition shuffle_step :: "nat \<Rightarrow> kiss99 \<times> u32 list \<times> u32 list \<Rightarrow> kiss99 \<times> u32 list \<times> u32 list" where
  "shuffle_step i = (\<lambda>(rng, dst_seq, src_seq).
     let (x, rng) = kiss99_next rng;
         dst_seq = swap_at (i - 1) (unat (x mod of_nat i)) dst_seq;
         (y, rng) = kiss99_next rng;
         src_seq = swap_at (i - 1) (unat (y mod of_nat i)) src_seq
     in (rng, dst_seq, src_seq))"

definition mix_rng_state_init :: "u64 \<Rightarrow> mix_rng_state" where
  "mix_rng_state_init seed =
     (let seed_lo = ucast seed :: u32;
          seed_hi = ucast (drop_bit 32 seed) :: u32;
          z = fnv1a fnv_offset_basis seed_lo;
          w = fnv1a z seed_hi;
          jsr = fnv1a w seed_lo;
          jcong = fnv1a jsr seed_hi;
          rng = \<lparr>kiss_z = z, kiss_w = w, kiss_jsr = jsr, kiss_jcong = jcong\<rparr>;
          seq = map of_nat [0..<num_regs];
          (rng, dst_seq, src_seq) = fold shuffle_step (rev [2..<num_regs + 1]) (rng, seq, seq)
      in \<lparr>mrs_rng = rng, mrs_dst_counter = 0, mrs_dst_seq = dst_seq,
          mrs_src_counter = 0, mrs_src_seq = src_seq\<rparr>)"

section \<open>Random math and merge\<close>

definition random_math :: "u32 \<Rightarrow> u32 \<Rightarrow> u32 \<Rightarrow> u32" where
  "random_math a b selector =
     (let s = unat (selector mod 11)
      in if s = 1 then a * b
         else if s = 2 then mul_hi32 a b
         else if s = 3 then min a b
         else if s = 4 then rotl32 a b
         else if s = 5 then rotr32 a b
         else if s = 6 then a AND b
         else if s = 7 then a OR b
         else if s = 8 then a XOR b
         else if s = 9 then clz32 a + clz32 b
         else if s = 10 then popcount32 a + popcount32 b
         else a + b)"

definition random_merge :: "u32 \<Rightarrow> u32 \<Rightarrow> u32 \<Rightarrow> u32" where
  "random_merge a b selector =
     (let x = drop_bit 16 selector mod 31 + 1;
          s = unat (selector mod 4)
      in if s = 0 then a * 33 + b
         else if s = 1 then (a XOR b) * 33
         else if s = 2 then rotl32 a x XOR b
         else rotr32 a x XOR b)"

section \<open>The round\<close>

text \<open>
  The mix is a list of lanes, each a list of registers. The loops over the lanes touch the
  lane \<^verbatim>\<open>mix[l]\<close> only, so they are maps over the list of lanes. The state is passed to
  \<^verbatim>\<open>round\<close> by value: every round starts from the same random program state.
\<close>

type_synonym mix_array = "u32 list list"

definition merge_reg :: "u32 list \<Rightarrow> nat \<Rightarrow> u32 \<Rightarrow> u32 \<Rightarrow> u32 list" where
  "merge_reg row dst data sel = row[dst := random_merge (row ! dst) data sel]"

definition round_cache_access ::
  "epoch_context \<Rightarrow> mix_array \<times> mix_rng_state \<Rightarrow> mix_array \<times> mix_rng_state" where
  "round_cache_access context = (\<lambda>(mix, state).
     let (src, state) = next_src state;
         (dst, state) = next_dst state;
         (sel, state) = next_rng state;
         mix = map (\<lambda>row.
           let offset = unat (row ! unat src) mod l1_cache_num_items
           in merge_reg row (unat dst) (le_uint32 (ctx_l1_cache context offset)) sel) mix
     in (mix, state))"

definition math_sources :: "u32 \<Rightarrow> nat \<times> nat" where
  "math_sources x =
     (let src_rnd = unat x mod (num_regs * (num_regs - 1));
          src1 = src_rnd mod num_regs;
          src2 = src_rnd div num_regs;
          src2 = (if src2 \<ge> src1 then src2 + 1 else src2)
      in (src1, src2))"

definition round_math :: "mix_array \<times> mix_rng_state \<Rightarrow> mix_array \<times> mix_rng_state" where
  "round_math = (\<lambda>(mix, state).
     let (x, state) = next_rng state;
         (src1, src2) = math_sources x;
         (sel1, state) = next_rng state;
         (dst, state) = next_dst state;
         (sel2, state) = next_rng state;
         mix = map (\<lambda>row. merge_reg row (unat dst) (random_math (row ! src1) (row ! src2) sel1) sel2) mix
     in (mix, state))"

definition round_operation ::
  "epoch_context \<Rightarrow> nat \<Rightarrow> mix_array \<times> mix_rng_state \<Rightarrow> mix_array \<times> mix_rng_state" where
  "round_operation context i s =
     (let s = (if i < num_cache_accesses then round_cache_access context s else s)
      in if i < num_math_operations then round_math s else s)"

definition dag_pattern_step ::
  "nat \<Rightarrow> (nat \<times> u32) list \<times> mix_rng_state \<Rightarrow> (nat \<times> u32) list \<times> mix_rng_state" where
  "dag_pattern_step i = (\<lambda>(pattern, state).
     let (dst, state) = (if i = 0 then (0, state) else next_dst state);
         (sel, state) = next_rng state
     in (pattern @ [(unat dst, sel)], state))"

definition dag_access :: "u32 list \<Rightarrow> u32 \<Rightarrow> (nat \<times> u32) list \<Rightarrow> nat \<Rightarrow> u32 list \<Rightarrow> u32 list" where
  "dag_access item r pattern l row =
     (let offset = (unat (of_nat l XOR r) mod num_lanes) * 4
      in fold (\<lambda>i row. let word = le_uint32 (item ! (offset + i));
                          (dst, sel) = pattern ! i
                      in merge_reg row dst word sel) [0..<4] row)"

definition progpow_round :: "u32 list lookup_fn \<Rightarrow> mix_rng_state \<Rightarrow> u32 \<Rightarrow>
    mix_array \<times> epoch_context \<Rightarrow> mix_array \<times> epoch_context" where
  "progpow_round lookup state r = (\<lambda>(mix, context).
     let num_items = of_int (cdiv (ctx_full_dataset_num_items context) 2) :: u32;
         item_index = (mix ! (unat r mod num_lanes)) ! 0 mod num_items;
         (item, context) = lookup context item_index;
         max_operations = max num_cache_accesses num_math_operations;
         (mix, state) = fold (round_operation context) [0..<max_operations] (mix, state);
         (pattern, state) = fold dag_pattern_step [0..<4] ([], state);
         mix = map (\<lambda>l. dag_access item r pattern l (mix ! l)) [0..<num_lanes]
     in (mix, context))"

section \<open>The hash\<close>

fun kiss99_take :: "nat \<Rightarrow> kiss99 \<Rightarrow> u32 list" where
  "kiss99_take 0 rng = []"
| "kiss99_take (Suc n) rng = (let (x, rng) = kiss99_next rng in x # kiss99_take n rng)"

definition init_mix :: "u64 \<Rightarrow> mix_array" where
  "init_mix seed =
     (let z = fnv1a fnv_offset_basis (ucast seed);
          w = fnv1a z (ucast (drop_bit 32 seed))
      in map (\<lambda>l. let jsr = fnv1a w (of_nat l);
                     jcong = fnv1a jsr (of_nat l);
                     rng = \<lparr>kiss_z = z, kiss_w = w, kiss_jsr = jsr, kiss_jcong = jcong\<rparr>
                 in kiss99_take num_regs rng) [0..<num_lanes])"

definition reduce_mix :: "mix_array \<Rightarrow> hash256" where
  "reduce_mix mix =
     (let lane_hash = map (\<lambda>l. fold (\<lambda>i h. fnv1a h (mix ! l ! i)) [0..<num_regs] fnv_offset_basis)
                        [0..<num_lanes]
      in fold (\<lambda>l mix_hash. mix_hash[l mod 8 := fnv1a (mix_hash ! (l mod 8)) (lane_hash ! l)])
           [0..<num_lanes] (replicate 8 fnv_offset_basis))"

definition hash_mix ::
  "epoch_context \<Rightarrow> int \<Rightarrow> u64 \<Rightarrow> u32 list lookup_fn \<Rightarrow> hash256 \<times> epoch_context" where
  "hash_mix context block_number seed lookup =
     (let mix = init_mix seed;
          state = mix_rng_state_init (of_int (cdiv block_number period_length));
          (mix, context) = fold (\<lambda>i. progpow_round lookup state (of_nat i)) [0..<64] (mix, context)
      in (reduce_mix mix, context))"

definition lazy_lookup_2048 :: "hash2048 lookup_fn" where
  "lazy_lookup_2048 = lazy_lookup 64 calculate_dataset_item_2048"

definition progpow_hash ::
  "epoch_context \<Rightarrow> int \<Rightarrow> hash256 \<Rightarrow> u64 \<Rightarrow> hash_result \<times> epoch_context" where
  "progpow_hash context block_number header_hash nonce =
     (let seed = keccak_progpow_64 header_hash nonce;
          (mix_hash, context) =
            hash_mix context block_number seed (light_lookup calculate_dataset_item_2048);
          final_hash = keccak_progpow_256 header_hash seed mix_hash
      in (\<lparr>res_final_hash = final_hash, res_mix_hash = mix_hash\<rparr>, context))"

definition progpow_hash_full ::
  "epoch_context \<Rightarrow> int \<Rightarrow> hash256 \<Rightarrow> u64 \<Rightarrow> hash_result \<times> epoch_context" where
  "progpow_hash_full context block_number header_hash nonce =
     (let seed = keccak_progpow_64 header_hash nonce;
          (mix_hash, context) = hash_mix context block_number seed lazy_lookup_2048;
          final_hash = keccak_progpow_256 header_hash seed mix_hash
      in (\<lparr>res_final_hash = final_hash, res_mix_hash = mix_hash\<rparr>, context))"

definition progpow_verify ::
  "epoch_context \<Rightarrow> int \<Rightarrow> hash256 \<Rightarrow> hash256 \<Rightarrow> u64 \<Rightarrow> hash256 \<Rightarrow> bool" where
  "progpow_verify context block_number header_hash mix_hash nonce boundary =
     (let seed = keccak_progpow_64 header_hash nonce;
          final_hash = keccak_progpow_256 header_hash seed mix_hash
      in if \<not> is_less_or_equal final_hash boundary then False
         else let expected_mix_hash =
                fst (hash_mix context block_number seed (light_lookup calculate_dataset_item_2048))
              in is_equal expected_mix_hash mix_hash)"

definition progpow_search_light ::
  "epoch_context \<Rightarrow> int \<Rightarrow> hash256 \<Rightarrow> hash256 \<Rightarrow> u64 \<Rightarrow> u64 \<Rightarrow> search_result \<times> epoch_context" where
  "progpow_search_light context block_number header_hash boundary start_nonce iterations =
     (let end_nonce = start_nonce + iterations
      in search_loop (\<lambda>context nonce. progpow_hash context block_number header_hash nonce)
           boundary context start_nonce end_nonce)"

definition progpow_search ::
  "epoch_context \<Rightarrow> int \<Rightarrow> hash256 \<Rightarrow> hash256 \<Rightarrow> u64 \<Rightarrow> u64 \<Rightarrow> search_result \<times> epoch_context" where
  "progpow_search context block_number header_hash boundary start_nonce iterations =
     (let end_nonce = start_nonce + iterations
      in search_loop (\<lambda>context nonce. progpow_hash_full context block_number header_hash nonce)
           boundary context start_nonce end_nonce)"

section \<open>Specification\<close>

text \<open>
  Contexts on which the light hash agrees: the same light cache and the same L1 cache.
\<close>

definition same_progpow :: "epoch_context \<Rightarrow> epoch_context \<Rightarrow> bool" where
  "same_progpow c c' \<longleftrightarrow> same_light c c' \<and> (\<forall>i < 4096. ctx_l1_cache c i = ctx_l1_cache c' i)"

text \<open>
  The shape of the mix array, and a full context after a sequence of hash computations.
\<close>

definition mix_ok :: "mix_array \<Rightarrow> bool" where
  "mix_ok mix \<longleftrightarrow> length mix = num_lanes \<and> (\<forall>row\<in>set mix. length row = num_regs)"

definition progpow_history :: "epoch_context \<Rightarrow> (int \<times> hash256 \<times> u64) list \<Rightarrow> epoch_context" where
  "progpow_history context hs = fold (\<lambda>(b, h, n) c. snd (progpow_hash_full c b h n)) hs context"

section \<open>Full and light contexts\<close>

lemma round_operation_l1:
  assumes "\<And>i. i < 4096 \<Longrightarrow> ctx_l1_cache c i = ctx_l1_cache c' i"
  shows "round_operation c = round_operation c'"
proof -
  have "round_cache_access c = round_cache_access c'"
    using assms by (auto simp: round_cache_access_def Let_def fun_eq_iff l1_cache_num_items_def
        l1_cache_size_def split: prod.split intro!: map_cong)
  then show ?thesis by (simp add: round_operation_def fun_eq_iff)
qed

lemma same_static_l1: "same_static c c' \<Longrightarrow> i < 4096 \<Longrightarrow> ctx_l1_cache c i = ctx_l1_cache c' i"
  unfolding same_static_def ctx_l1_cache_def by (metis nth_take)

lemma light_round_snd: "snd (progpow_round (light_lookup item) st r (mix, c)) = c"
  by (simp add: progpow_round_def light_lookup_def Let_def split: prod.split)

lemma light_round_pair:
  "progpow_round (light_lookup item) st r (mix, c) =
     (fst (progpow_round (light_lookup item) st r (mix, c)), c)"
  using light_round_snd [of item st r mix c] by (metis prod.collapse)

context dataset_lookup
begin

lemma round_eq:
  assumes "ok c" and s: "same_static c c0" and "0 < limit c0"
    and "limit c0 = unat (of_int (cdiv (ctx_full_dataset_num_items c0) 2) :: u32)"
  shows "\<exists>c'. progpow_round lookup state r (mix, c) =
       (fst (progpow_round (light_lookup item) state r (mix, c0)), c') \<and> ok c' \<and> same_static c' c0"
proof -
  let ?n = "of_int (cdiv (ctx_full_dataset_num_items c0) 2) :: u32"
  let ?p = "(mix ! (unat r mod num_lanes)) ! 0 mod ?n"
  have n: "ctx_full_dataset_num_items c = ctx_full_dataset_num_items c0"
    using s by (simp add: same_static_def same_light_def)
  have "unat ?p < limit c" using assms limit_static [OF s] by (simp add: unat_mod_less)
  then have p: "fst (lookup c ?p) = item c0 ?p" "ok (snd (lookup c ?p))" "same_static (snd (lookup c ?p)) c"
    using lookup_item lookup_ok lookup_static assms item_static by simp_all
  then have s': "same_static (snd (lookup c ?p)) c0"
    using s by (simp add: same_static_def same_light_def)
  have "round_operation (snd (lookup c ?p)) = round_operation c0"
    by (rule round_operation_l1) (rule same_static_l1 [OF s'])
  with p s' show ?thesis
    by (cases "lookup c ?p") (simp add: progpow_round_def light_lookup_def n Let_def split: prod.split)
qed

lemma rounds_eq:
  assumes "ok c" and "same_static c c0" and "0 < limit c0"
    and "limit c0 = unat (of_int (cdiv (ctx_full_dataset_num_items c0) 2) :: u32)"
  shows "\<exists>c'. fold (\<lambda>i. progpow_round lookup state (of_nat i)) is (mix, c) =
       (fst (fold (\<lambda>i. progpow_round (light_lookup item) state (of_nat i)) is (mix, c0)), c') \<and>
     ok c' \<and> same_static c' c0"
  using assms(1,2)
proof (induction "is" arbitrary: mix c)
  case (Cons i "is")
  obtain c' where c': "progpow_round lookup state (of_nat i) (mix, c) =
       (fst (progpow_round (light_lookup item) state (of_nat i) (mix, c0)), c')"
     "ok c'" "same_static c' c0"
    using round_eq [OF Cons.prems assms(3,4)] by blast
  define m where "m = fst (progpow_round (light_lookup item) state (of_nat i) (mix, c0))"
  with light_round_pair have "progpow_round (light_lookup item) state (of_nat i) (mix, c0) = (m, c0)" by metis
  then show ?case using Cons.IH [OF c'(2,3), of m] c'(1) by simp
qed simp

lemma hash_mix_eq:
  assumes "ok c" and "0 < limit c"
    and "limit c = unat (of_int (cdiv (ctx_full_dataset_num_items c) 2) :: u32)"
  obtains c' where "hash_mix c block seed lookup = (fst (hash_mix c block seed (light_lookup item)), c')"
    and "ok c'" and "same_static c' c"
proof -
  have "same_static c c" by (simp add: same_static_def same_light_def)
  from rounds_eq [OF assms(1) this assms(2,3), of "mix_rng_state_init (of_int (cdiv block period_length))"
      "[0..<64]" "init_mix seed"] that
  show ?thesis by (auto simp: hash_mix_def Let_def split: prod.split)
qed

end

interpretation light_2048: dataset_lookup "light_lookup calculate_dataset_item_2048"
  calculate_dataset_item_2048 "\<lambda>_. True" num_items_2048
  by (rule dataset_lookup_light) (fact items_static num_items_static)+

interpretation lazy_2048: dataset_lookup "lazy_lookup 64 calculate_dataset_item_2048"
  calculate_dataset_item_2048 "region_ok 64 calculate_dataset_item_2048 num_items_2048" num_items_2048
  by (rule dataset_lookup_lazy) (fact items_static num_items_static length_items)+

lemma region_ok_limit_2048:
  assumes "region_ok 64 calculate_dataset_item_2048 num_items_2048 c"
  shows "0 < num_items_2048 c \<and>
    num_items_2048 c = unat (of_int (cdiv (ctx_full_dataset_num_items c) 2) :: u32)"
proof -
  have n: "num_items_2048 c < 2 ^ 32" "0 < num_items_2048 c"
    using assms by (auto simp: region_ok_def Let_def intro: Nat.gr0I)
  then have "0 \<le> ctx_full_dataset_num_items c" by (auto simp: num_items_2048_def)
  then have "of_int (cdiv (ctx_full_dataset_num_items c) 2) = (of_nat (num_items_2048 c) :: u32)"
    by (simp add: num_items_2048_def cdiv_nonneg nat_div_distrib flip: of_nat_nat)
  with n show ?thesis by (simp add: unat_of_nat)
qed

lemma progpow_hash_full_eq:
  assumes "region_ok 64 calculate_dataset_item_2048 num_items_2048 c"
  shows "fst (progpow_hash_full c block header nonce) = fst (progpow_hash c block header nonce) \<and>
     region_ok 64 calculate_dataset_item_2048 num_items_2048 (snd (progpow_hash_full c block header nonce)) \<and>
     same_static (snd (progpow_hash_full c block header nonce)) c"
proof -
  let ?seed = "keccak_progpow_64 header nonce"
  from region_ok_limit_2048 [OF assms] obtain c' where
    "hash_mix c block ?seed lazy_lookup_2048 =
      (fst (hash_mix c block ?seed (light_lookup calculate_dataset_item_2048)), c')"
    "region_ok 64 calculate_dataset_item_2048 num_items_2048 c'" "same_static c' c"
    using lazy_2048.hash_mix_eq [OF assms, of block ?seed] by (metis lazy_lookup_2048_def)
  then show ?thesis
    by (simp add: progpow_hash_full_def progpow_hash_def Let_def split: prod.split)
qed

lemma light_round:
  assumes "same_progpow c c'"
  shows "fst (progpow_round (light_lookup calculate_dataset_item_2048) st r (mix, c)) =
      fst (progpow_round (light_lookup calculate_dataset_item_2048) st r (mix, c'))"
proof -
  have "round_operation c = round_operation c'" "ctx_full_dataset_num_items c = ctx_full_dataset_num_items c'"
    "calculate_dataset_item_2048 c i = calculate_dataset_item_2048 c' i" for i
    using assms round_operation_l1 [of c c'] items_light(2) [of c c'] by (auto simp: same_progpow_def same_light_def)
  then show ?thesis
    by (simp add: progpow_round_def light_lookup_def Let_def split: prod.split)
qed

lemma light_rounds:
  assumes "same_progpow c c'"
  shows "fst (fold (\<lambda>i. progpow_round (light_lookup calculate_dataset_item_2048) st (of_nat i)) is (mix, c)) =
      fst (fold (\<lambda>i. progpow_round (light_lookup calculate_dataset_item_2048) st (of_nat i)) is (mix, c'))"
proof (induction "is" arbitrary: mix)
  case (Cons i "is")
  define m where "m = fst (progpow_round (light_lookup calculate_dataset_item_2048) st (of_nat i) (mix, c))"
  then have "progpow_round (light_lookup calculate_dataset_item_2048) st (of_nat i) (mix, c) = (m, c)"
    "progpow_round (light_lookup calculate_dataset_item_2048) st (of_nat i) (mix, c') = (m, c')"
    using light_round [OF assms] light_round_pair by metis+
  with Cons.IH show ?case by simp
qed simp

lemma progpow_hash_cong:
  assumes "same_progpow c c'"
  shows "fst (progpow_hash c block h n) = fst (progpow_hash c' block h n)"
proof -
  have "fst (hash_mix c block seed (light_lookup calculate_dataset_item_2048)) =
    fst (hash_mix c' block seed (light_lookup calculate_dataset_item_2048))" for seed
    using light_rounds [OF assms, of "mix_rng_state_init (of_int (cdiv block period_length))" "[0..<64]" "init_mix seed"]
    by (auto simp: hash_mix_def Let_def split: prod.split)
  from this [of "keccak_progpow_64 h n"] show ?thesis
    by (auto simp: progpow_hash_def Let_def split: prod.split)
qed

lemma progpow_hash_snd: "snd (progpow_hash c block h n) = c"
proof -
  have "snd (fold (\<lambda>i. progpow_round (light_lookup item) st (of_nat i)) is (mix, c)) = c" for item st "is" mix
  proof (induction "is" arbitrary: mix)
    case (Cons i "is")
    show ?case using Cons.IH light_round_pair [of item st "of_nat i" mix c] by (metis fold_simps(2))
  qed simp
  then show ?thesis by (simp add: progpow_hash_def hash_mix_def Let_def split: prod.split) (metis snd_conv)
qed

section \<open>The random program\<close>

lemma shuffle_step_mset:
  assumes "2 \<le> i" and "i \<le> length d" and "length d = length s" and "i < 2 ^ 32"
    and "shuffle_step i (rng, d, s) = (rng', d', s')"
  shows "mset d' = mset d \<and> mset s' = mset s"
proof -
  have "unat (of_nat i :: u32) = i" using assms by (simp add: unat_of_nat)
  then have "unat (x mod of_nat i) < i" for x :: u32 using unat_mod_less [of "of_nat i" x] assms by simp
  then have "unat (x mod of_nat i) < length d" for x :: u32 using assms(2) less_le_trans by blast
  with assms show ?thesis by (auto simp: shuffle_step_def Let_def split: prod.splits)
qed

lemma shuffle_mset:
  assumes "\<forall>i\<in>set is. 2 \<le> i \<and> i \<le> length d \<and> i < 2 ^ 32" and "length d = length s"
    and "fold shuffle_step is (rng, d, s) = (rng', d', s')"
  shows "mset d' = mset d \<and> mset s' = mset s"
  using assms
proof (induction "is" arbitrary: rng d s)
  case (Cons i "is")
  obtain r1 d1 s1 where 1: "shuffle_step i (rng, d, s) = (r1, d1, s1)" by (metis prod_cases3)
  then have m: "mset d1 = mset d" "mset s1 = mset s"
    using Cons.prems shuffle_step_mset [OF _ _ _ _ 1] by auto
  then have "length d1 = length d" "length s1 = length s" by (metis size_mset)+
  with Cons.IH [of d1 s1 r1] Cons.prems 1 m show ?case by simp
qed simp

lemma mix_rng_state_init_mset:
  "mset (mrs_dst_seq (mix_rng_state_init seed)) = mset (map of_nat [0..<32]) \<and>
   mset (mrs_src_seq (mix_rng_state_init seed)) = mset (map of_nat [0..<32])"
proof -
  let ?seq = "map of_nat [0..<32] :: u32 list"
  have "mset d' = mset ?seq \<and> mset s' = mset ?seq"
    if "fold shuffle_step (rev [2..<33]) (rng, ?seq, ?seq) = (rng', d', s')" for rng rng' d' s'
    using shuffle_mset [OF _ _ that] by simp
  then show ?thesis
    by (simp add: mix_rng_state_init_def Let_def num_regs_def split: prod.split)
qed

text \<open>
  The Fisher-Yates shuffles produce permutations: for every seed the destination and the source sequence
  hold each of the 32 register indices exactly once.
\<close>
theorem shuffle_permutation:
  "distinct (mrs_dst_seq (mix_rng_state_init seed)) \<and>
   set (mrs_dst_seq (mix_rng_state_init seed)) = {x. x < 32} \<and>
   distinct (mrs_src_seq (mix_rng_state_init seed)) \<and>
   set (mrs_src_seq (mix_rng_state_init seed)) = {x. x < 32}"
proof -
  let ?seq = "map of_nat [0..<32] :: u32 list"
  have d: "distinct ?seq"
    by (auto simp: distinct_map inj_on_def word_of_nat_eq_iff take_bit_nat_def)
  have s: "set ?seq = {x. x < 32}"
  proof -
    have "x \<in> of_nat ` {0..<32}" if "x < 32" for x :: u32
      using that by (intro image_eqI [of _ _ "unat x"]) (auto simp: word_less_nat_alt)
    moreover have "of_nat k < (32 :: u32)" if "k < 32" for k
      using that by (simp add: word_less_nat_alt unat_of_nat)
    ultimately show ?thesis by auto
  qed
  show ?thesis
    using mix_rng_state_init_mset [of seed] d s mset_eq_setD mset_eq_imp_distinct_iff by metis
qed

lemma mult_33_inj: "a * 33 = b * 33 \<Longrightarrow> a = (b :: u32)"
proof -
  assume "a * 33 = b * 33"
  then have "a * 33 * 0x3E0F83E1 = b * 33 * 0x3E0F83E1" by simp
  moreover have "(33 :: u32) * 0x3E0F83E1 = 1" by code_simp
  ultimately show ?thesis by (simp only: mult.assoc mult_1_right)
qed

text \<open>
  Merging retains entropy: for every second operand and selector, \<open>random_merge\<close> is a bijection of the
  merged register.
\<close>
theorem random_merge_bijective: "bij (\<lambda>a. random_merge a b selector)"
proof -
  have "a = a'" if "random_merge a b selector = random_merge a' b selector" for a a'
  proof -
    show ?thesis
      using that by (auto simp: random_merge_def Let_def dest!: xor_right_inj rotl32_inj rotr32_inj mult_33_inj split: if_splits)
  qed
  then have "inj (\<lambda>a. random_merge a b selector)" by (rule injI)
  then show ?thesis by (simp add: bij_def finite_UNIV_inj_surj)
qed

text \<open>
  The two source registers of a random math operation are distinct and in range.
\<close>
theorem math_sources_distinct:
  "fst (math_sources x) \<noteq> snd (math_sources x) \<and>
   fst (math_sources x) < num_regs \<and> snd (math_sources x) < num_regs"
proof -
  define k where "k = unat x mod 992"
  then have k: "k < 992" by simp
  have "k mod 32 < 32" "k div 32 < 31" using k by auto
  then show ?thesis
    by (auto simp: math_sources_def Let_def num_regs_def k_def [symmetric])
qed

lemma length_merge_reg [simp]: "length (merge_reg row dst data sel) = length row"
  by (simp add: merge_reg_def)

lemma mix_ok_map: "mix_ok mix \<Longrightarrow> (\<And>row. length (f row) = length row) \<Longrightarrow> mix_ok (map f mix)"
  by (auto simp: mix_ok_def)

lemma round_operation_ok: "mix_ok mix \<Longrightarrow> mix_ok (fst (round_operation c i (mix, st)))"
  by (auto simp: round_operation_def round_cache_access_def round_math_def Let_def
      split: prod.split intro!: mix_ok_map)

lemma round_operations_ok: "mix_ok mix \<Longrightarrow> mix_ok (fst (fold (round_operation c) is (mix, st)))"
proof (induction "is" arbitrary: mix st)
  case (Cons i "is")
  then show ?case using round_operation_ok [of mix c i st] by (cases "round_operation c i (mix, st)") simp
qed simp

lemma length_dag_access [simp]: "length (dag_access item r pattern l row) = length row"
  unfolding dag_access_def Let_def
  by (rule fold_invariant [where P = "\<lambda>r. length r = length row"]) (auto split: prod.split)

lemma progpow_round_shape: "mix_ok mix \<Longrightarrow> mix_ok (fst (progpow_round lookup st r (mix, c)))"
proof -
  assume m: "mix_ok mix"
  have "mix_ok (map (\<lambda>l. dag_access item r pattern l (m ! l)) [0..<num_lanes])" if "mix_ok m" for item pattern m
    using that by (auto simp: mix_ok_def)
  then show ?thesis
    using round_operations_ok [OF m] by (auto simp: progpow_round_def Let_def split: prod.split) (metis fst_conv)
qed

lemma length_kiss99_take [simp]: "length (kiss99_take n rng) = n"
  by (induction n arbitrary: rng) (auto split: prod.split)

lemma init_mix_ok: "mix_ok (init_mix seed)"
  by (auto simp: init_mix_def mix_ok_def Let_def)

lemma rounds_shape:
  "mix_ok mix \<Longrightarrow> mix_ok (fst (fold (\<lambda>i. progpow_round lookup st (of_nat i)) is (mix, c)))"
proof (induction "is" arbitrary: mix c)
  case (Cons i "is")
  then show ?case
    using progpow_round_shape [of mix lookup st "of_nat i" c]
    by (cases "progpow_round lookup st (of_nat i) (mix, c)") simp
qed simp

text \<open>
  Throughout the computation of a mix hash the mix has sixteen lanes of thirty-two registers, for
  every lookup function, seed and program.
\<close>
theorem mix_shape_invariant:
  "mix_ok (fst (fold (\<lambda>i. progpow_round lookup state (of_nat i)) [0..<n] (init_mix seed, context)))"
  by (rule rounds_shape) (rule init_mix_ok)

lemma length_reduce_mix [simp]: "length (reduce_mix mix) = 8"
  unfolding reduce_mix_def Let_def by (rule fold_invariant) simp_all

lemma same_static_progpow: "same_static c c' \<Longrightarrow> same_progpow c c'"
  using same_static_l1 by (simp add: same_progpow_def same_static_light)

lemma progpow_history_ok:
  assumes "region_ok 64 calculate_dataset_item_2048 num_items_2048 c"
  shows "region_ok 64 calculate_dataset_item_2048 num_items_2048 (progpow_history c hs) \<and>
    same_progpow (progpow_history c hs) c"
  using assms
proof (induction hs arbitrary: c)
  case (Cons x hs)
  obtain b h n where x: "x = (b, h, n)" by (metis prod_cases3)
  note e = progpow_hash_full_eq [OF Cons.prems, of b h n]
  then have "same_progpow (snd (progpow_hash_full c b h n)) c" by (simp add: same_static_progpow)
  with Cons.IH [of "snd (progpow_hash_full c b h n)"] e
  show ?case by (simp add: progpow_history_def x) (simp add: same_progpow_def same_light_def)
qed (simp add: progpow_history_def same_progpow_def same_light_def)

lemma created_progpow:
  assumes "0 \<le> e" and "e \<le> 32639"
    and "ethash_create_epoch_context_full calloc e = Some cf"
    and "ethash_create_epoch_context calloc e = Some cl"
  shows "region_ok 64 calculate_dataset_item_2048 num_items_2048 (progpow_history cf hs)"
    and "same_progpow (progpow_history cf hs) cl"
proof -
  note f = assms(3) [unfolded ethash_create_epoch_context_full_def]
    and l = assms(4) [unfolded ethash_create_epoch_context_def]
  note h = progpow_history_ok [OF create_full_region_ok_2048 [OF assms(1,2) f], of hs]
  then show "region_ok 64 calculate_dataset_item_2048 num_items_2048 (progpow_history cf hs)" by simp
  have "same_progpow cf cl" using create_same_light [OF assms(1,2) f l] by (simp add: same_progpow_def)
  with h show "same_progpow (progpow_history cf hs) cl" by (simp add: same_progpow_def same_light_def)
qed

interpretation light_progpow: pow_hash "\<lambda>c n. progpow_hash c block header n"
  "\<lambda>c n. fst (progpow_hash c block header n)" "\<lambda>_. True" for block header
  by unfold_locales (simp_all add: progpow_hash_snd)

interpretation full_progpow: pow_hash "\<lambda>c n. progpow_hash_full c block header n"
  "\<lambda>c n. fst (progpow_hash c block header n)"
  "region_ok 64 calculate_dataset_item_2048 num_items_2048" for block header
  using progpow_hash_full_eq progpow_hash_cong same_static_progpow by unfold_locales blast+

lemma progpow_verify_iff:
  "progpow_verify c block header mix_hash nonce boundary \<longleftrightarrow>
     mix_hash = res_mix_hash (fst (progpow_hash c block header nonce)) \<and>
     is_less_or_equal (res_final_hash (fst (progpow_hash c block header nonce))) boundary"
  by (auto simp: progpow_verify_def progpow_hash_def Let_def is_equal_def bytes_of_words_inj split: prod.split)



text \<open>
  C3: ProgPoW nonce search on a full context is sound and complete with respect to \<open>progpow_verify\<close> on a
  light context, and reports the smallest nonce of the range.
\<close>
theorem progpow_search_correct:
  assumes "0 \<le> epoch_number" and "epoch_number \<le> 32639"
    and "ethash_create_epoch_context_full calloc epoch_number = Some cf"
    and "ethash_create_epoch_context calloc epoch_number = Some cl"
    and "progpow_search (progpow_history cf hs) block_number header boundary start_nonce iterations = (r, c')"
  shows "if sr_solution_found r
    then start_nonce \<le> sr_nonce r \<and> sr_nonce r < start_nonce + iterations \<and>
      progpow_verify cl block_number header (sr_mix_hash r) (sr_nonce r) boundary \<and>
      (\<forall>m mix. start_nonce \<le> m \<and> m < sr_nonce r \<longrightarrow>
        \<not> progpow_verify cl block_number header mix m boundary)
    else \<forall>m mix. start_nonce \<le> m \<and> m < start_nonce + iterations \<longrightarrow>
        \<not> progpow_verify cl block_number header mix m boundary"
proof -
  note eq = progpow_hash_cong [OF created_progpow(2) [OF assms(1-4), of hs]]
  show ?thesis
    using full_progpow.search_first [OF created_progpow(1) [OF assms(1-4), of hs], of block_number header
        boundary start_nonce "start_nonce + iterations" r c'] assms(5)
    by (auto simp: progpow_search_def eq progpow_verify_iff split: if_splits)
qed

theorem progpow_search_witness:
  "\<exists>cf cl r c'. ethash_create_epoch_context_full (\<lambda>_. True) 3 = Some cf \<and>
     ethash_create_epoch_context (\<lambda>_. True) 3 = Some cl \<and>
     progpow_search (progpow_history cf []) 9 (replicate 8 1) (replicate 8 2) 5 1 = (r, c') \<and>
     sr_solution_found r = (\<exists>mix. progpow_verify cl 9 (replicate 8 1) mix 5 (replicate 8 2))"
proof -
  obtain cf cl where c: "ethash_create_epoch_context_full (\<lambda>_. True) 3 = Some cf"
    "ethash_create_epoch_context (\<lambda>_. True) 3 = Some cl"
    by (simp add: ethash_create_epoch_context_full_def ethash_create_epoch_context_def
        generic_create_epoch_context_def Let_def)
  obtain r c' where r:
    "progpow_search (progpow_history cf []) 9 (replicate 8 1) (replicate 8 2) 5 1 = (r, c')"
    by fastforce
  have five: "5 \<le> n \<and> n < 6 \<longleftrightarrow> n = 5" for n :: u64
    by (auto simp: word_le_nat_alt word_less_nat_alt word_unat_eq_iff)
  show ?thesis
    using progpow_search_correct [OF _ _ c r] five [of "sr_nonce r"] five [of 5] c r
    by (cases "sr_solution_found r") auto
qed

end
