(* ===== verification/Managed.thy ===== *)
theory Managed
  imports Progpow
begin

text \<open>
  The process-wide and thread-local epoch contexts of \<open>src/libethash/managed.cpp\<close> and their use by
  \<open>src/libethcore/EthashAux.cpp\<close>. Contexts are objects shared between threads through reference
  counted pointers, and hashing on a full context mutates the object, so the objects live in a
  store and pointers are indices into it. Objects without a pointer are freed by the code; the
  model keeps them, which no thread can observe. The update runs under a mutex and is one step.
\<close>

section \<open>The code\<close>

record managed_state =
  ms_store :: "epoch_context list"
  ms_shared :: "nat option"
  ms_local :: "nat \<Rightarrow> nat option"

definition update_local ::
  "(int \<Rightarrow> epoch_context option) \<Rightarrow> nat \<Rightarrow> int \<Rightarrow> managed_state \<Rightarrow> managed_state" where
  "update_local create tid epoch_number st =
     (let st = st\<lparr>ms_local := (ms_local st)(tid := None)\<rparr>;
          st = (if (case ms_shared st of None \<Rightarrow> True
                    | Some p \<Rightarrow> ctx_epoch_number (ms_store st ! p) \<noteq> epoch_number)
                then let st = st\<lparr>ms_shared := None\<rparr>
                     in case create epoch_number of
                          None \<Rightarrow> st
                        | Some c \<Rightarrow> st\<lparr>ms_store := ms_store st @ [c],
                                       ms_shared := Some (length (ms_store st))\<rparr>
                else st)
      in st\<lparr>ms_local := (ms_local st)(tid := ms_shared st)\<rparr>)"

definition update_local_context ::
  "(int \<Rightarrow> bool) \<Rightarrow> nat \<Rightarrow> int \<Rightarrow> managed_state \<Rightarrow> managed_state" where
  "update_local_context calloc = update_local (ethash_create_epoch_context calloc)"

definition update_local_context_full ::
  "(int \<Rightarrow> bool) \<Rightarrow> nat \<Rightarrow> int \<Rightarrow> managed_state \<Rightarrow> managed_state" where
  "update_local_context_full calloc = update_local (ethash_create_epoch_context_full calloc)"

text \<open>The result is the local pointer; None stands for the null pointer, which the code dereferences.\<close>

definition local_misses :: "nat \<Rightarrow> int \<Rightarrow> managed_state \<Rightarrow> bool" where
  "local_misses tid epoch_number st =
     (case ms_local st tid of None \<Rightarrow> True
      | Some p \<Rightarrow> ctx_epoch_number (ms_store st ! p) \<noteq> epoch_number)"

definition get_global_epoch_context ::
  "(int \<Rightarrow> bool) \<Rightarrow> nat \<Rightarrow> int \<Rightarrow> managed_state \<Rightarrow> nat option \<times> managed_state" where
  "get_global_epoch_context calloc tid epoch_number st =
     (let st = (if local_misses tid epoch_number st
                then update_local_context calloc tid epoch_number st else st)
      in (ms_local st tid, st))"

definition get_global_epoch_context_full ::
  "(int \<Rightarrow> bool) \<Rightarrow> nat \<Rightarrow> int \<Rightarrow> managed_state \<Rightarrow> nat option \<times> managed_state" where
  "get_global_epoch_context_full calloc tid epoch_number st =
     (let st = (if local_misses tid epoch_number st
                then update_local_context_full calloc tid epoch_number st else st)
      in (ms_local st tid, st))"

text \<open>
  \<open>EthashAux::eval\<close>: a block header as 32 bytes, the result as the bytes of the final and the mix
  hash. An allocation failure leads to a null dereference, here None.
\<close>

definition eval_ethash ::
  "(int \<Rightarrow> bool) \<Rightarrow> nat \<Rightarrow> int \<Rightarrow> u8 list \<Rightarrow> u64 \<Rightarrow> managed_state \<Rightarrow>
     (u8 list \<times> u8 list) option \<times> managed_state" where
  "eval_ethash calloc tid epoch headerHash nonce st =
     (let (p, st) = get_global_epoch_context calloc tid epoch st
      in case p of None \<Rightarrow> (None, st)
         | Some p \<Rightarrow>
             let r = fst (ethash_hash (ms_store st ! p) (hash256_from_bytes headerHash) nonce)
             in (Some (bytes_of_words (res_final_hash r), bytes_of_words (res_mix_hash r)), st))"

definition eval_progpow ::
  "(int \<Rightarrow> bool) \<Rightarrow> nat \<Rightarrow> int \<Rightarrow> int \<Rightarrow> u8 list \<Rightarrow> u64 \<Rightarrow> managed_state \<Rightarrow>
     (u8 list \<times> u8 list) option \<times> managed_state" where
  "eval_progpow calloc tid epoch block_number headerHash nonce st =
     (let (p, st) = get_global_epoch_context calloc tid epoch st
      in case p of None \<Rightarrow> (None, st)
         | Some p \<Rightarrow>
             let r = fst (progpow_hash (ms_store st ! p) block_number (hash256_from_bytes headerHash) nonce)
             in (Some (bytes_of_words (res_final_hash r), bytes_of_words (res_mix_hash r)), st))"

section \<open>Threads sharing full contexts\<close>

text \<open>
  The steps of the mining threads: obtain the context of an epoch, hash on the context the
  thread holds. \<open>managed_init\<close> is the state at program start.
\<close>

definition managed_init :: managed_state where
  "managed_init = \<lparr>ms_store = [], ms_shared = None, ms_local = (\<lambda>_. None)\<rparr>"

inductive managed_step :: "(int \<Rightarrow> bool) \<Rightarrow> managed_state \<Rightarrow> managed_state \<Rightarrow> bool" for calloc where
  get: "0 \<le> e \<Longrightarrow> e \<le> 32639 \<Longrightarrow> get_global_epoch_context_full calloc tid e st = (p, st') \<Longrightarrow>
    managed_step calloc st st'"
| hash: "ms_local st tid = Some p \<Longrightarrow>
    managed_step calloc st
      (st\<lparr>ms_store := (ms_store st)[p := snd (ethash_hash_full (ms_store st ! p) h n)]\<rparr>)"

inductive_cases managed_stepE: "managed_step calloc st st'"

inductive managed_reachable :: "(int \<Rightarrow> bool) \<Rightarrow> managed_state \<Rightarrow> bool" for calloc where
  init: "managed_reachable calloc managed_init"
| step: "managed_reachable calloc st \<Longrightarrow> managed_step calloc st st' \<Longrightarrow> managed_reachable calloc st'"

text \<open>A stored context is a created one of its epoch, up to lazily added items.\<close>

definition context_ok :: "(int \<Rightarrow> bool) \<Rightarrow> epoch_context \<Rightarrow> bool" where
  "context_ok calloc c \<longleftrightarrow>
     0 \<le> ctx_epoch_number c \<and> ctx_epoch_number c \<le> 32639 \<and>
     region_ok 32 calculate_dataset_item_1024 num_items_1024 c \<and>
     (\<exists>c0. ethash_create_epoch_context_full calloc (ctx_epoch_number c) = Some c0 \<and> same_static c c0)"

definition managed_ok :: "(int \<Rightarrow> bool) \<Rightarrow> managed_state \<Rightarrow> bool" where
  "managed_ok calloc st \<longleftrightarrow>
     (\<forall>c \<in> set (ms_store st). context_ok calloc c) \<and>
     (\<forall>p. ms_shared st = Some p \<longrightarrow> p < length (ms_store st)) \<and>
     (\<forall>tid p. ms_local st tid = Some p \<longrightarrow> p < length (ms_store st))"

section \<open>Correctness\<close>

lemma create_context_ok:
  assumes "0 \<le> e" and "e \<le> 32639" and "ethash_create_epoch_context_full calloc e = Some c"
  shows "context_ok calloc c \<and> ctx_epoch_number c = e"
proof -
  note f = assms(3) [unfolded ethash_create_epoch_context_full_def]
  have "ctx_epoch_number c = e" by (rule create_epoch_context_props(1) [OF assms(1,2) f])
  moreover have "same_static c c" by (simp add: same_static_def same_light_def)
  ultimately show ?thesis
    using assms create_full_region_ok_1024 [OF assms(1,2) f] by (auto simp: context_ok_def)
qed

lemma get_full_ok:
  assumes "managed_ok calloc st" and "0 \<le> e" and "e \<le> 32639"
    and "get_global_epoch_context_full calloc tid e st = (q, st')"
  shows "managed_ok calloc st' \<and>
    (case q of None \<Rightarrow> ethash_create_epoch_context_full calloc e = None
     | Some p \<Rightarrow> p < length (ms_store st') \<and> ctx_epoch_number (ms_store st' ! p) = e)"
proof (cases "ethash_create_epoch_context_full calloc e")
  case None
  then show ?thesis using assms
    by (auto simp: get_global_epoch_context_full_def update_local_context_full_def update_local_def
        local_misses_def managed_ok_def Let_def split: option.splits if_splits)
next
  case (Some c)
  then show ?thesis using assms create_context_ok [OF assms(2,3) Some]
    by (auto simp: get_global_epoch_context_full_def update_local_context_full_def update_local_def
        local_misses_def managed_ok_def Let_def nth_append less_Suc_eq split: option.splits if_splits)
       metis+
qed

lemma managed_step_ok: "managed_step calloc st st' \<Longrightarrow> managed_ok calloc st \<Longrightarrow> managed_ok calloc st'"
proof (induction rule: managed_step.induct)
  case (get e tid st p st')
  then show ?case using get_full_ok by blast
next
  case (hash st tid p h n)
  let ?c = "ms_store st ! p" and ?c' = "snd (ethash_hash_full (ms_store st ! p) h n)"
  have p: "p < length (ms_store st)" and c: "context_ok calloc ?c"
    using hash by (auto simp: managed_ok_def)
  have "region_ok 32 calculate_dataset_item_1024 num_items_1024 ?c'" "same_static ?c' ?c"
    using c ethash_hash_full_eq [of ?c h n] by (auto simp: context_ok_def)
  then have "context_ok calloc ?c'"
    using c by (auto simp: context_ok_def same_static_def same_light_def)
  then show ?case using hash p
    by (auto simp: managed_ok_def dest!: subsetD [OF set_update_subset_insert])
qed

lemma managed_reachable_ok: "managed_reachable calloc st \<Longrightarrow> managed_ok calloc st"
proof (induction rule: managed_reachable.induct)
  case init
  show ?case by (simp add: managed_ok_def managed_init_def)
qed (rule managed_step_ok)



end
