(* ===== verification/CppString.thy ===== *)
theory CppString
  imports Prelude
begin

text \<open>
  The operations of the C++ string library that the components use, on lists of characters:
  decimal printing (\<open>std::to_string\<close>), hexadecimal digits, replacement of a literal pattern
  (\<open>std::regex_replace\<close> with a pattern without special characters, \<open>boost::replace_all\<close>), search
  and case conversion.
\<close>

section \<open>Operations\<close>

definition nl :: string where "nl = [CHR 0x0A]"

definition digit_char :: "nat \<Rightarrow> char" where
  "digit_char d = (if d < 10 then char_of (48 + d) else char_of (87 + d))"

fun nat_to_base :: "nat \<Rightarrow> nat \<Rightarrow> string" where
  "nat_to_base b n = (if b \<le> 1 \<or> n < b then [digit_char n] else nat_to_base b (n div b) @ [digit_char (n mod b)])"

declare nat_to_base.simps [simp del]

definition to_string :: "nat \<Rightarrow> string" where
  "to_string n = nat_to_base 10 n"

definition starts_with :: "'a list \<Rightarrow> 'a list \<Rightarrow> bool" where
  "starts_with p s = (take (length p) s = p)"

function replace_all :: "string \<Rightarrow> string \<Rightarrow> string \<Rightarrow> string" where
  "replace_all pat rep s =
     (if pat = [] then s
      else case s of [] \<Rightarrow> []
        | c # cs \<Rightarrow> if starts_with pat s then rep @ replace_all pat rep (drop (length pat) s)
                   else c # replace_all pat rep cs)"
  by pat_completeness auto
termination
  by (relation "measure (\<lambda>(_, _, s). length s)") auto

declare replace_all.simps [simp del]

text \<open>The first position at which a pattern occurs (\<open>std::string::find\<close>), from a start position.\<close>

fun find_from :: "nat \<Rightarrow> string \<Rightarrow> string \<Rightarrow> nat option" where
  "find_from i p [] = (if p = [] then Some i else None)"
| "find_from i p (c # cs) = (if starts_with p (c # cs) then Some i else find_from (i + 1) p cs)"

definition string_find :: "string \<Rightarrow> string \<Rightarrow> nat option" where
  "string_find s p = find_from 0 p s"

definition is_digit :: "char \<Rightarrow> bool" where
  "is_digit c \<longleftrightarrow> 48 \<le> (of_char c :: nat) \<and> (of_char c :: nat) \<le> 57"

definition to_lower_char :: "char \<Rightarrow> char" where
  "to_lower_char c =
     (let n = of_char c :: nat in if 65 \<le> n \<and> n \<le> 90 then char_of (n + 32) else c)"

definition to_lower :: "string \<Rightarrow> string" where
  "to_lower s = map to_lower_char s"

section \<open>Facts\<close>

fun decimal_value :: "string \<Rightarrow> nat" where
  "decimal_value s = fold (\<lambda>c v. 10 * v + (of_char c - 48)) s 0"

lemma of_char_digit: "d < 10 \<Longrightarrow> (of_char (digit_char d) :: nat) = 48 + d"
  by (simp add: digit_char_def)

lemma decimal_value_to_string: "decimal_value (to_string n) = n"
proof -
  have "fold (\<lambda>c v. 10 * v + (of_char c - 48)) (nat_to_base 10 n) 0 = n"
  proof (induction n rule: less_induct)
    case (less n)
    show ?case
    proof (cases "n < 10")
      case True
      then show ?thesis by (simp add: nat_to_base.simps of_char_digit)
    next
      case False
      then have "n div 10 < n" by simp
      from less [OF this] False show ?thesis
        by (simp add: nat_to_base.simps [of 10 n] of_char_digit)
    qed
  qed
  then show ?thesis by (simp add: to_string_def)
qed

lemma to_string_inj: "to_string m = to_string n \<longleftrightarrow> m = n"
  by (metis decimal_value_to_string)

end
