(* ===== verification/KernelGen.thy ===== *)
theory KernelGen
  imports Progpow CppString
begin

text \<open>
  The generator of the GPU kernels, \<open>src/libprogpow/ProgPow.cpp\<close>: \<open>getKern\<close> writes, for a program
  seed, the source text of the inner loop of the ProgPoW kernel. The text is modelled literally;
  next to it stands the list of the statements it consists of, with their meaning in the kernel
  language, and the theorems relate the generated program to the round function of the
  verifier (\<open>progpow.cpp\<close>). \<open>fast_mod\<close>, \<open>fill_mix\<close> and the reduction of the mix are from
  \<open>src/libethash-cl/CLMiner_kernel.cl\<close>, the kernel into which the text is inserted.
\<close>

section \<open>Random numbers of the generator\<close>

definition progpow_fnv1a :: "u32 \<Rightarrow> u32 \<Rightarrow> u32" where
  "progpow_fnv1a h d = (h XOR d) * 0x1000193"

definition progpow_kiss99 :: "kiss99 \<Rightarrow> u32 \<times> kiss99" where
  "progpow_kiss99 st =
     (let z = 36969 * (kiss_z st AND 65535) + drop_bit 16 (kiss_z st);
          w = 18000 * (kiss_w st AND 65535) + drop_bit 16 (kiss_w st);
          MWC = push_bit 16 z + w;
          jsr = kiss_jsr st XOR push_bit 17 (kiss_jsr st);
          jsr = jsr XOR drop_bit 13 jsr;
          jsr = jsr XOR push_bit 5 jsr;
          jcong = 69069 * kiss_jcong st + 1234567
      in ((MWC XOR jcong) + jsr, \<lparr>kiss_z = z, kiss_w = w, kiss_jsr = jsr, kiss_jcong = jcong\<rparr>))"

record gen_state =
  gs_rnd_state :: kiss99
  gs_mix_seq_dst :: "u32 list"
  gs_mix_seq_dst_cnt :: nat
  gs_mix_seq_cache :: "u32 list"
  gs_mix_seq_cache_cnt :: nat

definition gen_rnd :: "gen_state \<Rightarrow> u32 \<times> gen_state" where
  "gen_rnd gs = (let (x, r) = progpow_kiss99 (gs_rnd_state gs) in (x, gs\<lparr>gs_rnd_state := r\<rparr>))"

definition gen_dst :: "gen_state \<Rightarrow> nat \<times> gen_state" where
  "gen_dst gs = (unat (gs_mix_seq_dst gs ! (gs_mix_seq_dst_cnt gs mod 32)),
     gs\<lparr>gs_mix_seq_dst_cnt := gs_mix_seq_dst_cnt gs + 1\<rparr>)"

definition gen_cache :: "gen_state \<Rightarrow> nat \<times> gen_state" where
  "gen_cache gs = (unat (gs_mix_seq_cache gs ! (gs_mix_seq_cache_cnt gs mod 32)),
     gs\<lparr>gs_mix_seq_cache_cnt := gs_mix_seq_cache_cnt gs + 1\<rparr>)"

definition gen_swap_step :: "nat \<Rightarrow> gen_state \<Rightarrow> gen_state" where
  "gen_swap_step i gs =
     (let (x, gs) = gen_rnd gs;
          gs = gs\<lparr>gs_mix_seq_dst := swap_at i (unat (x mod (of_nat i + 1))) (gs_mix_seq_dst gs)\<rparr>;
          (y, gs) = gen_rnd gs
      in gs\<lparr>gs_mix_seq_cache := swap_at i (unat (y mod (of_nat i + 1))) (gs_mix_seq_cache gs)\<rparr>)"

definition gen_init :: "u64 \<Rightarrow> gen_state" where
  "gen_init prog_seed =
     (let seed0 = ucast prog_seed :: u32;
          seed1 = ucast (drop_bit 32 prog_seed) :: u32;
          fnv_hash = 0x811c9dc5;
          z = progpow_fnv1a fnv_hash seed0;
          w = progpow_fnv1a z seed1;
          jsr = progpow_fnv1a w seed0;
          jcong = progpow_fnv1a jsr seed1;
          rnd_state = \<lparr>kiss_z = z, kiss_w = w, kiss_jsr = jsr, kiss_jcong = jcong\<rparr>;
          seq = map of_nat [0..<32]
      in fold gen_swap_step (rev [1..<32])
           \<lparr>gs_rnd_state = rnd_state, gs_mix_seq_dst = seq, gs_mix_seq_dst_cnt = 0,
            gs_mix_seq_cache = seq, gs_mix_seq_cache_cnt = 0\<rparr>)"

section \<open>The generated text\<close>

datatype kernel_t = KERNEL_CUDA | KERNEL_CL

definition mix_reg :: "nat \<Rightarrow> string" where
  "mix_reg n = ''mix['' @ to_string n @ '']''"

definition merge :: "string \<Rightarrow> string \<Rightarrow> u32 \<Rightarrow> string" where
  "merge a b r =
     (let s = unat (r mod 4); x = to_string (unat (drop_bit 16 r mod 31 + 1))
      in if s = 0 then a @ '' = ('' @ a @ '' * 33) + '' @ b @ '';'' @ nl
         else if s = 1 then a @ '' = ('' @ a @ '' ^ '' @ b @ '') * 33;'' @ nl
         else if s = 2 then a @ '' = ROTL32('' @ a @ '', '' @ x @ '') ^ '' @ b @ '';'' @ nl
         else a @ '' = ROTR32('' @ a @ '', '' @ x @ '') ^ '' @ b @ '';'' @ nl)"

definition math :: "string \<Rightarrow> string \<Rightarrow> string \<Rightarrow> u32 \<Rightarrow> string" where
  "math d a b r =
     (let s = unat (r mod 11)
      in if s = 0 then d @ '' = '' @ a @ '' + '' @ b @ '';'' @ nl
         else if s = 1 then d @ '' = '' @ a @ '' * '' @ b @ '';'' @ nl
         else if s = 2 then d @ '' = mul_hi('' @ a @ '', '' @ b @ '');'' @ nl
         else if s = 3 then d @ '' = min('' @ a @ '', '' @ b @ '');'' @ nl
         else if s = 4 then d @ '' = ROTL32('' @ a @ '', '' @ b @ '' % 32);'' @ nl
         else if s = 5 then d @ '' = ROTR32('' @ a @ '', '' @ b @ '' % 32);'' @ nl
         else if s = 6 then d @ '' = '' @ a @ '' & '' @ b @ '';'' @ nl
         else if s = 7 then d @ '' = '' @ a @ '' | '' @ b @ '';'' @ nl
         else if s = 8 then d @ '' = '' @ a @ '' ^ '' @ b @ '';'' @ nl
         else if s = 9 then d @ '' = clz('' @ a @ '') + clz('' @ b @ '');'' @ nl
         else d @ '' = popcount('' @ a @ '') + popcount('' @ b @ '');'' @ nl)"

definition kern_header :: "kernel_t \<Rightarrow> string" where
  "kern_header kern =
     (if kern = KERNEL_CUDA then
        ''typedef unsigned int       uint32_t;'' @ nl @
        ''typedef unsigned long long uint64_t;'' @ nl @
        ''#if __CUDA_ARCH__ < 350'' @ nl @
        ''#define ROTL32(x,n) (((x) << (n % 32)) | ((x) >> (32 - (n % 32))))'' @ nl @
        ''#define ROTR32(x,n) (((x) >> (n % 32)) | ((x) << (32 - (n % 32))))'' @ nl @
        ''#else'' @ nl @
        ''#define ROTL32(x,n) __funnelshift_l((x), (x), (n))'' @ nl @
        ''#define ROTR32(x,n) __funnelshift_r((x), (x), (n))'' @ nl @
        ''#endif'' @ nl @
        ''#define min(a,b) ((a<b) ? a : b)'' @ nl @
        ''#define mul_hi(a, b) __umulhi(a, b)'' @ nl @
        ''#define clz(a) __clz(a)'' @ nl @
        ''#define popcount(a) __popc(a)'' @ nl @ nl @
        ''#define DEV_INLINE __device__ __forceinline__'' @ nl @
        ''#if (__CUDACC_VER_MAJOR__ > 8)'' @ nl @
        ''#define SHFL(x, y, z) __shfl_sync(0xFFFFFFFF, (x), (y), (z))'' @ nl @
        ''#else'' @ nl @
        ''#define SHFL(x, y, z) __shfl((x), (y), (z))'' @ nl @
        ''#endif'' @ nl @ nl @
        nl
      else
        ''#ifndef GROUP_SIZE'' @ nl @
        ''#define GROUP_SIZE 128'' @ nl @
        ''#endif'' @ nl @
        ''#define GROUP_SHARE (GROUP_SIZE / '' @ to_string 16 @ '')'' @ nl @
        nl @
        ''typedef unsigned int       uint32_t;'' @ nl @
        ''typedef unsigned long      uint64_t;'' @ nl @
        ''#define ROTL32(x, n) rotate((x), (uint32_t)(n))'' @ nl @
        ''#define ROTR32(x, n) rotate((x), (uint32_t)(32-n))'' @ nl @
        nl) @
     ''#define PROGPOW_LANES           '' @ to_string 16 @ nl @
     ''#define PROGPOW_REGS            '' @ to_string 32 @ nl @
     ''#define PROGPOW_DAG_LOADS       '' @ to_string 4 @ nl @
     ''#define PROGPOW_CACHE_WORDS     '' @ to_string (16 * 1024 div 4) @ nl @
     ''#define PROGPOW_CNT_DAG         '' @ to_string 64 @ nl @
     ''#define PROGPOW_CNT_MATH        '' @ to_string 18 @ nl @
     nl @
     (if kern = KERNEL_CUDA then
        ''typedef struct __align__(16) {uint32_t s[PROGPOW_DAG_LOADS];} dag_t;'' @ nl @ nl
      else
        ''typedef struct __attribute__ ((aligned (16))) {uint32_t s[PROGPOW_DAG_LOADS];} dag_t;'' @ nl @ nl)"

definition kern_global_load :: "kernel_t \<Rightarrow> string" where
  "kern_global_load kern =
     ''uint32_t offset, data;'' @ nl @
     ''// global load'' @ nl @
     (if kern = KERNEL_CUDA then
        ''offset = SHFL(mix[0], loop % PROGPOW_LANES, PROGPOW_LANES);'' @ nl
      else
        ''if(lane_id == (loop % PROGPOW_LANES))'' @ nl @
        ''    share[0].uint32s[group_id] = mix[0];'' @ nl @
        ''barrier(CLK_LOCAL_MEM_FENCE);'' @ nl @
        ''offset = share[0].uint32s[group_id];'' @ nl) @
     ''offset %= PROGPOW_DAG_ELEMENTS;'' @ nl @
     ''offset = offset * PROGPOW_LANES + (lane_id ^ loop) % PROGPOW_LANES;'' @ nl @
     ''dag_t data_dag = g_dag[offset];'' @ nl @
     ''// hack to prevent compiler from reordering LD and usage'' @ nl @
     (if kern = KERNEL_CUDA then ''if (hack_false) __threadfence_block();'' @ nl
      else ''if (hack_false) barrier(CLK_LOCAL_MEM_FENCE);'' @ nl)"

definition text_cache_load :: "nat \<Rightarrow> gen_state \<Rightarrow> string \<times> gen_state" where
  "text_cache_load i gs =
     (let (src, gs) = gen_cache gs;
          (dst, gs) = gen_dst gs;
          (r, gs) = gen_rnd gs
      in (''// cache load '' @ to_string i @ nl @
          ''offset = '' @ mix_reg src @ '' % PROGPOW_CACHE_WORDS;'' @ nl @
          ''data = c_dag[offset];'' @ nl @
          merge (mix_reg dst) ''data'' r, gs))"

definition text_math :: "nat \<Rightarrow> gen_state \<Rightarrow> string \<times> gen_state" where
  "text_math i gs =
     (let (x, gs) = gen_rnd gs;
          src_rnd = unat x mod ((32 - 1) * 32);
          src1 = src_rnd mod 32;
          src2 = src_rnd div 32;
          src2 = (if src2 \<ge> src1 then src2 + 1 else src2);
          (r1, gs) = gen_rnd gs;
          (dst, gs) = gen_dst gs;
          (r2, gs) = gen_rnd gs
      in (''// random math '' @ to_string i @ nl @
          math ''data'' (mix_reg src1) (mix_reg src2) r1 @
          merge (mix_reg dst) ''data'' r2, gs))"

definition text_operation :: "nat \<Rightarrow> string \<times> gen_state \<Rightarrow> string \<times> gen_state" where
  "text_operation i = (\<lambda>(ret, gs).
     let (t1, gs) = (if i < 11 then text_cache_load i gs else ('''', gs));
         (t2, gs) = (if i < 18 then text_math i gs else ('''', gs))
     in (ret @ t1 @ t2, gs))"

definition text_consume :: "nat \<Rightarrow> string \<times> gen_state \<Rightarrow> string \<times> gen_state" where
  "text_consume i = (\<lambda>(ret, gs).
     let (dst, gs) = gen_dst gs;
         (r, gs) = gen_rnd gs
     in (ret @ merge (mix_reg dst) (''data_dag.s['' @ to_string i @ '']'') r, gs))"

definition kern_math :: "u64 \<Rightarrow> kernel_t \<Rightarrow> string" where
  "kern_math prog_seed kern =
     (let (ops, gs) = fold text_operation [0..<18] ('''', gen_init prog_seed);
          (r0, gs) = gen_rnd gs;
          (consume, gs) = fold text_consume [1..<4] (merge (mix_reg 0) ''data_dag.s[0]'' r0, gs)
      in kern_global_load kern @ ops @
         ''// consume global load data'' @ nl @
         ''// hack to prevent compiler from reordering LD and usage'' @ nl @
         (if kern = KERNEL_CUDA then ''if (hack_false) __threadfence_block();'' @ nl
          else ''if (hack_false) barrier(CLK_LOCAL_MEM_FENCE);'' @ nl) @
         consume @ nl)"

definition getKern :: "string \<Rightarrow> u64 \<Rightarrow> kernel_t \<Rightarrow> string" where
  "getKern kernel_code prog_seed kern =
     (let kernel = replace_all ''PROGPOW_REPLACE_HEADER'' (kern_header kern) kernel_code
      in replace_all ''PROGPOW_REPLACE_MATH'' (kern_math prog_seed kern) kernel)"

section \<open>Modular reduction by a precomputed reciprocal\<close>

record fast_mod_data =
  fmd_reciprocal :: u32
  fmd_increment :: u32
  fmd_shift :: u32

definition calculate_fast_mod_data :: "u32 \<Rightarrow> fast_mod_data" where
  "calculate_fast_mod_data divisor =
     (if divisor AND (divisor - 1) = 0 then
        \<lparr>fmd_reciprocal = 1, fmd_increment = 0, fmd_shift = 31 - builtin_clz divisor\<rparr>
      else
        let shift = 63 - builtin_clz divisor;
            N = push_bit (unat shift) 1 :: u64;
            q = N div ucast divisor;
            r = N - q * ucast divisor
        in if r * 2 < ucast divisor
           then \<lparr>fmd_reciprocal = ucast q, fmd_increment = 1, fmd_shift = shift\<rparr>
           else \<lparr>fmd_reciprocal = ucast (q + 1), fmd_increment = 0, fmd_shift = shift\<rparr>)"

definition fast_mod :: "u32 \<Rightarrow> fast_mod_data \<Rightarrow> u32 \<Rightarrow> u32" where
  "fast_mod a d divisor =
     (let t = ucast a :: u64;
          q = ucast (drop_bit (unat (fmd_shift d)) ((t + ucast (fmd_increment d)) * ucast (fmd_reciprocal d))) :: u32
      in a - q * divisor)"

section \<open>The generated program\<close>

text \<open>
  The statements of the generated inner loop and their text. \<open>KMath s a b\<close> assigns the operation with
  selector \<open>s\<close> on two registers to \<open>data\<close>; the other assignments are those of \<open>merge\<close>.
\<close>

datatype kdata = DData | DDag nat

datatype kstmt =
    KComment string
  | KOffset nat
  | KLoad
  | KMulAdd nat kdata
  | KXorMul nat kdata
  | KRotl nat nat kdata
  | KRotr nat nat kdata
  | KMath nat nat nat

fun print_data :: "kdata \<Rightarrow> string" where
  "print_data DData = ''data''"
| "print_data (DDag i) = ''data_dag.s['' @ to_string i @ '']''"

definition print_math :: "nat \<Rightarrow> string \<Rightarrow> string \<Rightarrow> string" where
  "print_math s a b =
     (if s = 0 then a @ '' + '' @ b
      else if s = 1 then a @ '' * '' @ b
      else if s = 2 then ''mul_hi('' @ a @ '', '' @ b @ '')''
      else if s = 3 then ''min('' @ a @ '', '' @ b @ '')''
      else if s = 4 then ''ROTL32('' @ a @ '', '' @ b @ '' % 32)''
      else if s = 5 then ''ROTR32('' @ a @ '', '' @ b @ '' % 32)''
      else if s = 6 then a @ '' & '' @ b
      else if s = 7 then a @ '' | '' @ b
      else if s = 8 then a @ '' ^ '' @ b
      else if s = 9 then ''clz('' @ a @ '') + clz('' @ b @ '')''
      else ''popcount('' @ a @ '') + popcount('' @ b @ '')'')"

fun print_stmt :: "kstmt \<Rightarrow> string" where
  "print_stmt (KComment s) = ''// '' @ s @ nl"
| "print_stmt (KOffset n) = ''offset = '' @ mix_reg n @ '' % PROGPOW_CACHE_WORDS;'' @ nl"
| "print_stmt KLoad = ''data = c_dag[offset];'' @ nl"
| "print_stmt (KMulAdd a b) = mix_reg a @ '' = ('' @ mix_reg a @ '' * 33) + '' @ print_data b @ '';'' @ nl"
| "print_stmt (KXorMul a b) = mix_reg a @ '' = ('' @ mix_reg a @ '' ^ '' @ print_data b @ '') * 33;'' @ nl"
| "print_stmt (KRotl a x b) = mix_reg a @ '' = ROTL32('' @ mix_reg a @ '', '' @ to_string x @ '') ^ '' @ print_data b @ '';'' @ nl"
| "print_stmt (KRotr a x b) = mix_reg a @ '' = ROTR32('' @ mix_reg a @ '', '' @ to_string x @ '') ^ '' @ print_data b @ '';'' @ nl"
| "print_stmt (KMath s a b) = ''data = '' @ print_math s (mix_reg a) (mix_reg b) @ '';'' @ nl"

definition print_program :: "kstmt list \<Rightarrow> string" where
  "print_program p = concat (map print_stmt p)"

text \<open>
  The program \<open>getKern\<close> writes for a seed: the random operations, then the use of the loaded DAG data.
\<close>

definition merge_stmt :: "nat \<Rightarrow> kdata \<Rightarrow> u32 \<Rightarrow> kstmt" where
  "merge_stmt a b r =
     (let s = unat (r mod 4); x = unat (drop_bit 16 r mod 31 + 1)
      in if s = 0 then KMulAdd a b else if s = 1 then KXorMul a b
         else if s = 2 then KRotl a x b else KRotr a x b)"

definition prog_cache_load :: "nat \<Rightarrow> gen_state \<Rightarrow> kstmt list \<times> gen_state" where
  "prog_cache_load i gs =
     (let (src, gs) = gen_cache gs; (dst, gs) = gen_dst gs; (r, gs) = gen_rnd gs
      in ([KComment (''cache load '' @ to_string i), KOffset src, KLoad, merge_stmt dst DData r], gs))"

definition prog_math :: "nat \<Rightarrow> gen_state \<Rightarrow> kstmt list \<times> gen_state" where
  "prog_math i gs =
     (let (x, gs) = gen_rnd gs; (src1, src2) = math_sources x;
          (r1, gs) = gen_rnd gs; (dst, gs) = gen_dst gs; (r2, gs) = gen_rnd gs
      in ([KComment (''random math '' @ to_string i), KMath (unat (r1 mod 11)) src1 src2,
           merge_stmt dst DData r2], gs))"

definition prog_operation :: "nat \<Rightarrow> kstmt list \<times> gen_state \<Rightarrow> kstmt list \<times> gen_state" where
  "prog_operation i = (\<lambda>(p, gs).
     let (p1, gs) = (if i < 11 then prog_cache_load i gs else ([], gs));
         (p2, gs) = (if i < 18 then prog_math i gs else ([], gs))
     in (p @ p1 @ p2, gs))"

definition prog_consume :: "nat \<Rightarrow> kstmt list \<times> gen_state \<Rightarrow> kstmt list \<times> gen_state" where
  "prog_consume i = (\<lambda>(p, gs).
     let (dst, gs) = gen_dst gs; (r, gs) = gen_rnd gs in (p @ [merge_stmt dst (DDag i) r], gs))"

definition kern_program :: "u64 \<Rightarrow> kstmt list \<times> kstmt list" where
  "kern_program prog_seed =
     (let (ops, gs) = fold prog_operation [0..<18] ([], gen_init prog_seed);
          (r0, gs) = gen_rnd gs;
          (consume, gs) = fold prog_consume [1..<4] ([merge_stmt 0 (DDag 0) r0], gs)
      in (ops, consume))"

text \<open>
  The meaning of the statements for one lane, whose registers are \<open>mix\<close>, \<open>offset\<close> and \<open>data\<close>. \<open>rotate\<close>, \<open>mul_hi\<close>,
  \<open>min\<close>, \<open>clz\<close> and \<open>popcount\<close> are the built-in functions of the kernel language on 32-bit words;
  \<open>ROTL32\<close> and \<open>ROTR32\<close> are the macros of the header text.
\<close>

record lane_state =
  ln_mix :: "u32 list"
  ln_offset :: u32
  ln_data :: u32

definition cl_rotate :: "u32 \<Rightarrow> u32 \<Rightarrow> u32" where
  "cl_rotate x n = word_rotl (unat n) x"

fun data_value :: "u32 list \<Rightarrow> lane_state \<Rightarrow> kdata \<Rightarrow> u32" where
  "data_value data_dag ln DData = ln_data ln"
| "data_value data_dag ln (DDag i) = data_dag ! i"

definition math_value :: "nat \<Rightarrow> u32 \<Rightarrow> u32 \<Rightarrow> u32" where
  "math_value s a b =
     (if s = 0 then a + b
      else if s = 1 then a * b
      else if s = 2 then mul_hi32 a b
      else if s = 3 then min a b
      else if s = 4 then cl_rotate a (b mod 32)
      else if s = 5 then cl_rotate a (32 - b mod 32)
      else if s = 6 then a AND b
      else if s = 7 then a OR b
      else if s = 8 then a XOR b
      else if s = 9 then clz32 a + clz32 b
      else popcount32 a + popcount32 b)"

fun exec_stmt :: "(nat \<Rightarrow> u32) \<Rightarrow> u32 list \<Rightarrow> kstmt \<Rightarrow> lane_state \<Rightarrow> lane_state" where
  "exec_stmt c_dag data_dag (KComment _) ln = ln"
| "exec_stmt c_dag data_dag (KOffset n) ln = ln\<lparr>ln_offset := ln_mix ln ! n mod 4096\<rparr>"
| "exec_stmt c_dag data_dag KLoad ln = ln\<lparr>ln_data := c_dag (unat (ln_offset ln))\<rparr>"
| "exec_stmt c_dag data_dag (KMulAdd a b) ln =
     ln\<lparr>ln_mix := (ln_mix ln)[a := (ln_mix ln ! a) * 33 + data_value data_dag ln b]\<rparr>"
| "exec_stmt c_dag data_dag (KXorMul a b) ln =
     ln\<lparr>ln_mix := (ln_mix ln)[a := ((ln_mix ln ! a) XOR data_value data_dag ln b) * 33]\<rparr>"
| "exec_stmt c_dag data_dag (KRotl a x b) ln =
     ln\<lparr>ln_mix := (ln_mix ln)[a := cl_rotate (ln_mix ln ! a) (of_nat x) XOR data_value data_dag ln b]\<rparr>"
| "exec_stmt c_dag data_dag (KRotr a x b) ln =
     ln\<lparr>ln_mix := (ln_mix ln)[a := cl_rotate (ln_mix ln ! a) (32 - of_nat x) XOR data_value data_dag ln b]\<rparr>"
| "exec_stmt c_dag data_dag (KMath s a b) ln =
     ln\<lparr>ln_data := math_value s (ln_mix ln ! a) (ln_mix ln ! b)\<rparr>"

definition exec :: "(nat \<Rightarrow> u32) \<Rightarrow> u32 list \<Rightarrow> kstmt list \<Rightarrow> lane_state \<Rightarrow> lane_state" where
  "exec c_dag data_dag p ln = fold (exec_stmt c_dag data_dag) p ln"

text \<open>
  The registers a lane starts with, and the reduction of the registers to the digest of a group. The macro
  \<open>fnv1a\<close> multiplies in 64 bits when its second argument has 64 bits, and the result is cut to 32.
\<close>

definition cl_fnv1a :: "u32 \<Rightarrow> u32 \<Rightarrow> u32" where
  "cl_fnv1a h d = (h XOR d) * 0x1000193"

definition cl_fnv1a_long :: "u32 \<Rightarrow> u64 \<Rightarrow> u32" where
  "cl_fnv1a_long h d = ucast ((ucast h XOR d) * 0x1000193)"

definition cl_kiss99 :: "kiss99 \<Rightarrow> u32 \<times> kiss99" where
  "cl_kiss99 st =
     (let z = 36969 * (kiss_z st AND 65535) + drop_bit 16 (kiss_z st);
          w = 18000 * (kiss_w st AND 65535) + drop_bit 16 (kiss_w st);
          MWC = push_bit 16 z + w;
          jsr = kiss_jsr st XOR push_bit 17 (kiss_jsr st);
          jsr = jsr XOR drop_bit 13 jsr;
          jsr = jsr XOR push_bit 5 jsr;
          jcong = 69069 * kiss_jcong st + 1234567
      in ((MWC XOR jcong) + jsr, \<lparr>kiss_z = z, kiss_w = w, kiss_jsr = jsr, kiss_jcong = jcong\<rparr>))"

primrec cl_registers :: "nat \<Rightarrow> kiss99 \<Rightarrow> u32 list" where
  "cl_registers 0 st = []"
| "cl_registers (Suc n) st = (let (x, st) = cl_kiss99 st in x # cl_registers n st)"

definition fill_mix :: "u64 \<Rightarrow> u32 \<Rightarrow> u32 list" where
  "fill_mix seed lane_id =
     (let z = cl_fnv1a_long 0x811c9dc5 seed;
          w = cl_fnv1a_long z (drop_bit 32 seed);
          jsr = cl_fnv1a w lane_id;
          jcong = cl_fnv1a jsr lane_id
      in cl_registers 32 \<lparr>kiss_z = z, kiss_w = w, kiss_jsr = jsr, kiss_jcong = jcong\<rparr>)"

definition lane_digest :: "u32 list \<Rightarrow> u32" where
  "lane_digest mix = fold (\<lambda>i mix_hash. cl_fnv1a mix_hash (mix ! i)) [0..<32] 0x811c9dc5"

definition group_digest :: "mix_array \<Rightarrow> hash256" where
  "group_digest mix =
     (let share = map (\<lambda>lane_id. lane_digest (mix ! lane_id)) [0..<16]
      in fold (\<lambda>i digest. digest[i mod 8 := cl_fnv1a (digest ! (i mod 8)) (share ! i)]) [0..<16] (replicate 8 0x811c9dc5))"

text \<open>
  One iteration of the kernel's main loop for the 16 lanes of a group, with the global load in front, and
  the mix hash that 64 iterations produce.
\<close>

definition kernel_iteration :: "u64 \<Rightarrow> (nat \<Rightarrow> u32) \<Rightarrow> u32 list \<Rightarrow> u32 \<Rightarrow> u32 \<Rightarrow> mix_array \<Rightarrow> mix_array" where
  "kernel_iteration prog_seed c_dag g_dag dag_elements loop mix =
     map (\<lambda>lane_id.
       let offset = mix ! unat (loop mod 16) ! 0;
           offset = offset mod dag_elements;
           offset = offset * 16 + (of_nat lane_id XOR loop) mod 16;
           data_dag = slice 4 (unat offset) g_dag;
           (ops, consume) = kern_program prog_seed
       in ln_mix (exec c_dag data_dag (ops @ consume) \<lparr>ln_mix = mix ! lane_id, ln_offset = 0, ln_data = 0\<rparr>))
     [0..<16]"

definition kernel_mix_hash :: "u64 \<Rightarrow> (nat \<Rightarrow> u32) \<Rightarrow> u32 list \<Rightarrow> u32 \<Rightarrow> u64 \<Rightarrow> hash256" where
  "kernel_mix_hash prog_seed c_dag g_dag dag_elements seed =
     group_digest (fold (\<lambda>loop. kernel_iteration prog_seed c_dag g_dag dag_elements (of_nat loop)) [0..<64]
       (map (\<lambda>lane_id. fill_mix seed (of_nat lane_id)) [0..<16]))"

text \<open>
  The generator and the random state of the verifier correspond; a program implements a function on the
  registers of a lane.
\<close>

definition gen_rel :: "gen_state \<Rightarrow> mix_rng_state \<Rightarrow> bool" where
  "gen_rel gs st \<longleftrightarrow>
     gs_rnd_state gs = mrs_rng st \<and> gs_mix_seq_dst gs = mrs_dst_seq st \<and>
     gs_mix_seq_dst_cnt gs = mrs_dst_counter st \<and> gs_mix_seq_cache gs = mrs_src_seq st \<and>
     gs_mix_seq_cache_cnt gs = mrs_src_counter st"

definition lane_refines ::
  "(nat \<Rightarrow> u32) \<Rightarrow> u32 list \<Rightarrow> kstmt list \<Rightarrow> (u32 list \<Rightarrow> u32 list) \<Rightarrow> bool" where
  "lane_refines c d p f \<longleftrightarrow> (\<forall>ln. ln_mix (exec c d p ln) = f (ln_mix ln))"

text \<open>
  A context of two 1024-bit items, for which the kernel has a single DAG element.
\<close>

definition tiny_context :: epoch_context where
  "tiny_context = \<lparr>ctx_epoch_number = 0, ctx_light_cache_num_items = 1, ctx_light_cache = [replicate 16 7],
     ctx_region = map of_nat [0..<4096], ctx_full_dataset_num_items = 2, ctx_full_dataset = False\<rparr>"

section \<open>Text and program\<close>

lemma print_program_simps [simp]:
  "print_program [] = []" "print_program (s # p) = print_stmt s @ print_program p"
  "print_program (p @ q) = print_program p @ print_program q"
  by (simp_all add: print_program_def)

lemma print_merge: "print_stmt (merge_stmt a b r) = merge (mix_reg a) (print_data b) r"
  by (simp add: merge_stmt_def merge_def Let_def)

lemma print_math: "print_stmt (KMath (unat (r mod 11)) a b) = math ''data'' (mix_reg a) (mix_reg b) r"
proof -
  have "unat (r mod 11) \<le> 10" using unat_mod_less [of 11 r] by simp
  then show ?thesis by (auto simp: math_def print_math_def Let_def)
qed

lemma text_cache_load_print:
  "text_cache_load i gs = (print_program (fst (prog_cache_load i gs)), snd (prog_cache_load i gs))"
  by (simp add: text_cache_load_def prog_cache_load_def Let_def print_merge split: prod.split)

lemma text_math_print: "text_math i gs = (print_program (fst (prog_math i gs)), snd (prog_math i gs))"
  by (simp add: text_math_def prog_math_def math_sources_def num_regs_def Let_def print_merge print_math
      del: print_stmt.simps(8) split: prod.split)

lemma text_operation_print:
  "text_operation i (print_program p, gs) =
     (print_program (fst (prog_operation i (p, gs))), snd (prog_operation i (p, gs)))"
  by (simp add: text_operation_def prog_operation_def text_cache_load_print text_math_print split: prod.split)

lemma fold_print:
  assumes "\<And>i p gs. f i (print_program p, gs) = (print_program (fst (g i (p, gs))), snd (g i (p, gs)))"
  shows "fold f is (print_program p, gs) = (print_program (fst (fold g is (p, gs))), snd (fold g is (p, gs)))"
proof (induction "is" arbitrary: p gs)
  case (Cons i "is")
  then show ?case using assms [of i p gs] by (cases "g i (p, gs)") simp
qed simp

lemma text_consume_print:
  "text_consume i (print_program p, gs) =
     (print_program (fst (prog_consume i (p, gs))), snd (prog_consume i (p, gs)))"
  by (simp add: text_consume_def prog_consume_def print_merge split: prod.split)

text \<open>
  C24: the text that replaces the marker in the kernel source is the printed form of the generated program, for both
  kernel languages.
\<close>
theorem kern_math_text:
  "kern_math prog_seed kern =
     kern_global_load kern @ print_program (fst (kern_program prog_seed)) @
     ''// consume global load data'' @ nl @
     ''// hack to prevent compiler from reordering LD and usage'' @ nl @
     (if kern = KERNEL_CUDA then ''if (hack_false) __threadfence_block();'' @ nl
      else ''if (hack_false) barrier(CLK_LOCAL_MEM_FENCE);'' @ nl) @
     print_program (snd (kern_program prog_seed)) @ nl"
proof -
  obtain ops gs where o: "fold prog_operation [0..<18] ([], gen_init prog_seed) = (ops, gs)" by fastforce
  obtain r0 gs1 where r: "gen_rnd gs = (r0, gs1)" by fastforce
  have o': "fold text_operation [0..<18] ([], gen_init prog_seed) = (print_program ops, gs)"
    using fold_print [of text_operation prog_operation "[0..<18]" "[]", OF text_operation_print] o
    by (simp del: upt_Suc)
  have zero: "char_of (48 :: nat) = CHR ''0''" by code_simp
  have m: "merge (mix_reg 0) ''data_dag.s[0]'' r0 = print_program [merge_stmt 0 (DDag 0) r0]"
    by (simp add: print_merge to_string_def nat_to_base.simps digit_char_def zero)
  have "fold text_consume [1..<4] (print_program [merge_stmt 0 (DDag 0) r0], gs1) =
    (print_program (fst (fold prog_consume [1..<4] ([merge_stmt 0 (DDag 0) r0], gs1))),
     snd (fold prog_consume [1..<4] ([merge_stmt 0 (DDag 0) r0], gs1)))"
    using fold_print [of text_consume prog_consume, OF text_consume_print] .
  then show ?thesis
    unfolding kern_math_def kern_program_def o o' by (simp add: r m split: prod.split del: upt_Suc)
qed

section \<open>The generator simulates the random state of the verifier\<close>

lemma progpow_kiss99_eq: "progpow_kiss99 = kiss99_next"
  by (rule ext) (simp add: progpow_kiss99_def kiss99_next_def Let_def)

lemma progpow_fnv1a_eq: "progpow_fnv1a = fnv1a"
  by (rule ext, rule ext) (simp add: progpow_fnv1a_def fnv1a_def fnv_prime_def)

lemma gen_rnd_rel:
  "gen_rel gs st \<Longrightarrow> fst (gen_rnd gs) = fst (next_rng st) \<and> gen_rel (snd (gen_rnd gs)) (snd (next_rng st))"
  by (auto simp: gen_rel_def gen_rnd_def next_rng_def progpow_kiss99_eq split: prod.split)

lemma gen_dst_rel:
  "gen_rel gs st \<Longrightarrow> fst (gen_dst gs) = unat (fst (next_dst st)) \<and> gen_rel (snd (gen_dst gs)) (snd (next_dst st))"
  by (auto simp: gen_rel_def gen_dst_def next_dst_def num_regs_def)

lemma gen_cache_rel:
  "gen_rel gs st \<Longrightarrow> fst (gen_cache gs) = unat (fst (next_src st)) \<and> gen_rel (snd (gen_cache gs)) (snd (next_src st))"
  by (auto simp: gen_rel_def gen_cache_def next_src_def num_regs_def)

lemma gen_swaps:
  "fold gen_swap_step is \<lparr>gs_rnd_state = r, gs_mix_seq_dst = d, gs_mix_seq_dst_cnt = 0,
      gs_mix_seq_cache = s, gs_mix_seq_cache_cnt = 0\<rparr> =
   (case fold shuffle_step (map Suc is) (r, d, s) of (r', d', s') \<Rightarrow>
     \<lparr>gs_rnd_state = r', gs_mix_seq_dst = d', gs_mix_seq_dst_cnt = 0,
      gs_mix_seq_cache = s', gs_mix_seq_cache_cnt = 0\<rparr>)"
proof (induction "is" arbitrary: r d s)
  case (Cons i "is")
  obtain r' d' s' where sh: "shuffle_step (Suc i) (r, d, s) = (r', d', s')" by (metis prod_cases3)
  have c: "of_nat i + 1 = (of_nat (Suc i) :: u32)" by simp
  have "gen_swap_step i \<lparr>gs_rnd_state = r, gs_mix_seq_dst = d, gs_mix_seq_dst_cnt = 0,
      gs_mix_seq_cache = s, gs_mix_seq_cache_cnt = 0\<rparr> = \<lparr>gs_rnd_state = r', gs_mix_seq_dst = d', gs_mix_seq_dst_cnt = 0,
      gs_mix_seq_cache = s', gs_mix_seq_cache_cnt = 0\<rparr>"
    using sh unfolding gen_swap_step_def c
    by (auto simp: shuffle_step_def gen_rnd_def progpow_kiss99_eq Let_def split: prod.splits)
  then show ?case using Cons.IH [of r' d' s'] sh by simp
qed simp

lemma gen_init_rel: "gen_rel (gen_init seed) (mix_rng_state_init seed)"
proof -
  have "map Suc (rev [1..<32]) = rev [2..<33]" by code_simp
  then show ?thesis
    by (auto simp: gen_init_def mix_rng_state_init_def gen_swaps progpow_fnv1a_eq fnv_offset_basis_def
        num_regs_def gen_rel_def Let_def split: prod.split)
qed

section \<open>The program implements the round\<close>

lemma cl_rotl: "cl_rotate a (b mod 32) = rotl32 a b"
proof -
  have "unat (b mod 32) = unat b mod 32" by (simp add: unat_mod)
  then show ?thesis using word_rotl_mod [of "unat b" a] by (simp add: cl_rotate_def rotl32_eq)
qed

lemma cl_rotr: "unat b \<le> 32 \<Longrightarrow> cl_rotate a (32 - b) = rotr32 a b"
proof -
  assume b: "unat b \<le> 32"
  then have u: "unat (32 - b) = 32 - unat b" by (simp add: unat_sub word_le_nat_alt)
  have "word_rotl (32 - unat b) a = word_rotr (unat b) a"
  proof (cases "unat b = 0")
    case True
    then show ?thesis using word_rotr_mod [of 32 a] by (simp add: word_rotl_eq_word_rotr)
  next
    case False
    then show ?thesis using b by (simp add: word_rotl_eq_word_rotr)
  qed
  then show ?thesis by (simp add: cl_rotate_def u rotr32_eq)
qed

lemma math_value_eq: "math_value (unat (r mod 11)) a b = random_math a b r"
proof -
  have "unat (r mod 11) < 11" using unat_mod_less [of 11 r] by simp
  then have "unat (r mod 11) \<in> set [0..<11]" by simp
  moreover have "set [0..<11] = {0, 1, 2, 3, 4, 5, 6, 7, 8, 9, 10 :: nat}" by code_simp
  ultimately have "unat (r mod 11) \<in> {0, 1, 2, 3, 4, 5, 6, 7, 8, 9, 10}" by (simp only:)
  moreover have "cl_rotate a (32 - b mod 32) = rotr32 a b"
  proof -
    have u: "unat (b mod 32) = unat b mod 32" by (simp add: unat_mod)
    then have "cl_rotate a (32 - b mod 32) = rotr32 a (b mod 32)" by (intro cl_rotr) simp
    also have "\<dots> = rotr32 a b" using word_rotr_mod [of "unat b" a] by (simp add: rotr32_eq u)
    finally show ?thesis .
  qed
  ultimately show ?thesis by (auto simp: math_value_def random_math_def cl_rotl)
qed

lemma exec_merge:
  "exec_stmt c d (merge_stmt a b r) ln = ln\<lparr>ln_mix := merge_reg (ln_mix ln) a (data_value d ln b) r\<rparr>"
proof -
  define x where "x = drop_bit 16 r mod 31 + 1"
  have "unat (drop_bit 16 r mod 31) < 31" using unat_mod_less [of 31 "drop_bit 16 r"] by simp
  then have x: "unat x \<le> 31" by (simp add: x_def unat_word_ariths)
  then have l: "cl_rotate y x = rotl32 y x" "cl_rotate y (32 - x) = rotr32 y x" for y
    by (simp_all add: cl_rotr) (simp add: cl_rotate_def rotl32_eq)
  show ?thesis
    by (simp add: merge_stmt_def merge_reg_def random_merge_def Let_def l x_def [symmetric])
qed

lemma exec_append: "exec c d (p @ q) ln = exec c d q (exec c d p ln)"
  by (simp add: exec_def)

lemma lane_refines_append: "lane_refines c d p f \<Longrightarrow> lane_refines c d q g \<Longrightarrow> lane_refines c d (p @ q) (\<lambda>row. g (f row))"
  by (simp add: lane_refines_def exec_append)

lemma cache_load_refines:
  assumes "gen_rel gs st" and "\<And>i. i < 4096 \<Longrightarrow> c i = ctx_l1_cache ctx i"
  shows "\<exists>f. (\<forall>mix. round_cache_access ctx (mix, st) = (map f mix, snd (round_cache_access ctx ([], st)))) \<and>
    lane_refines c d (fst (prog_cache_load i gs)) f \<and>
    gen_rel (snd (prog_cache_load i gs)) (snd (round_cache_access ctx ([], st)))"
proof -
  obtain src gs1 where a1: "gen_cache gs = (src, gs1)" by fastforce
  obtain dst gs2 where a2: "gen_dst gs1 = (dst, gs2)" by fastforce
  obtain r gs3 where a3: "gen_rnd gs2 = (r, gs3)" by fastforce
  obtain src' st1 where b1: "next_src st = (src', st1)" by fastforce
  obtain dst' st2 where b2: "next_dst st1 = (dst', st2)" by fastforce
  obtain r' st3 where b3: "next_rng st2 = (r', st3)" by fastforce
  have e: "src = unat src'" "dst = unat dst'" "r = r'" "gen_rel gs3 st3"
    using gen_cache_rel [OF assms(1)] gen_dst_rel [of gs1 st1] gen_rnd_rel [of gs2 st2] a1 a2 a3 b1 b2 b3 by auto
  let ?f = "\<lambda>row. merge_reg row dst (ctx_l1_cache ctx (unat (row ! src) mod 4096)) r"
  have "lane_refines c d [KComment t, KOffset src, KLoad, merge_stmt dst DData r] ?f" for t
    using assms(2) by (simp add: lane_refines_def exec_def exec_merge unat_mod)
  with e a1 a2 a3 b1 b2 b3 show ?thesis
    by (intro exI [of _ ?f]) (simp add: round_cache_access_def prog_cache_load_def l1_cache_num_items_def
        l1_cache_size_def le_uint32_def)
qed

lemma math_refines:
  assumes "gen_rel gs st"
  shows "\<exists>f. (\<forall>mix. round_math (mix, st) = (map f mix, snd (round_math ([], st)))) \<and>
    lane_refines c d (fst (prog_math i gs)) f \<and> gen_rel (snd (prog_math i gs)) (snd (round_math ([], st)))"
proof -
  obtain x gs1 where a1: "gen_rnd gs = (x, gs1)" by fastforce
  obtain r1 gs2 where a2: "gen_rnd gs1 = (r1, gs2)" by fastforce
  obtain dst gs3 where a3: "gen_dst gs2 = (dst, gs3)" by fastforce
  obtain r2 gs4 where a4: "gen_rnd gs3 = (r2, gs4)" by fastforce
  obtain x' st1 where b1: "next_rng st = (x', st1)" by fastforce
  obtain r1' st2 where b2: "next_rng st1 = (r1', st2)" by fastforce
  obtain dst' st3 where b3: "next_dst st2 = (dst', st3)" by fastforce
  obtain r2' st4 where b4: "next_rng st3 = (r2', st4)" by fastforce
  obtain s1 s2 where s: "math_sources x = (s1, s2)" by fastforce
  have e: "x' = x" "r1' = r1" "dst = unat dst'" "r2' = r2" "gen_rel gs4 st4"
    using gen_rnd_rel [OF assms(1)] gen_rnd_rel [of gs1 st1] gen_dst_rel [of gs2 st2] gen_rnd_rel [of gs3 st3]
      a1 a2 a3 a4 b1 b2 b3 b4 by auto
  let ?f = "\<lambda>row. merge_reg row dst (random_math (row ! s1) (row ! s2) r1) r2"
  have "lane_refines c d [KComment t, KMath (unat (r1 mod 11)) s1 s2, merge_stmt dst DData r2] ?f" for t
    by (simp add: lane_refines_def exec_def exec_merge math_value_eq)
  with e a1 a2 a3 a4 b1 b2 b3 b4 s show ?thesis
    by (intro exI [of _ ?f]) (simp add: round_math_def prog_math_def)
qed

lemma lane_refines_Nil: "lane_refines c d [] (\<lambda>row. row)"
  by (simp add: lane_refines_def exec_def)

lemma operation_refines:
  assumes "gen_rel gs st" and "\<And>i. i < 4096 \<Longrightarrow> c i = ctx_l1_cache ctx i"
  shows "\<exists>f st' gs' q. (\<forall>mix. round_operation ctx i (mix, st) = (map f mix, st')) \<and>
    (\<forall>p. prog_operation i (p, gs) = (p @ q, gs')) \<and> lane_refines c d q f \<and> gen_rel gs' st'"
proof -
  obtain f1 st1 gs1 q1 where 1:
    "\<forall>mix. (if i < num_cache_accesses then round_cache_access ctx (mix, st) else (mix, st)) = (map f1 mix, st1)"
    "(if i < 11 then prog_cache_load i gs else ([], gs)) = (q1, gs1)" "lane_refines c d q1 f1" "gen_rel gs1 st1"
  proof (cases "i < 11")
    case True
    with cache_load_refines [OF assms, of d i] that show ?thesis
      by (cases "prog_cache_load i gs") (auto simp: num_cache_accesses_def)
  next
    case False
    with assms(1) that [of "\<lambda>row. row" st "[]" gs] show ?thesis
      by (simp add: num_cache_accesses_def lane_refines_Nil)
  qed
  obtain f2 st2 gs2 q2 where 2:
    "\<forall>mix. (if i < num_math_operations then round_math (mix, st1) else (mix, st1)) = (map f2 mix, st2)"
    "(if i < 18 then prog_math i gs1 else ([], gs1)) = (q2, gs2)" "lane_refines c d q2 f2" "gen_rel gs2 st2"
  proof (cases "i < 18")
    case True
    with math_refines [OF 1(4), of c d i] that show ?thesis
      by (cases "prog_math i gs1") (auto simp: num_math_operations_def)
  next
    case False
    with 1(4) that [of "\<lambda>row. row" st1 "[]" gs1] show ?thesis
      by (simp add: num_math_operations_def lane_refines_Nil)
  qed
  have "lane_refines c d (q1 @ q2) (\<lambda>row. f2 (f1 row))" by (rule lane_refines_append [OF 1(3) 2(3)])
  with 1 2 show ?thesis
    by (intro exI [of _ "\<lambda>row. f2 (f1 row)"] exI [of _ st2] exI [of _ gs2] exI [of _ "q1 @ q2"])
       (simp add: round_operation_def prog_operation_def)
qed

lemma operations_refine:
  assumes "gen_rel gs st" and "\<And>i. i < 4096 \<Longrightarrow> c i = ctx_l1_cache ctx i"
  shows "\<exists>f st' gs' q. (\<forall>mix. fold (round_operation ctx) is (mix, st) = (map f mix, st')) \<and>
    (\<forall>p. fold prog_operation is (p, gs) = (p @ q, gs')) \<and> lane_refines c d q f \<and> gen_rel gs' st'"
  using assms(1)
proof (induction "is" arbitrary: gs st)
  case Nil
  then show ?case
    by (intro exI [of _ "\<lambda>row. row"] exI [of _ st] exI [of _ gs] exI [of _ "[]"]) (simp add: lane_refines_Nil)
next
  case (Cons i "is")
  obtain f1 st1 gs1 q1 where 1: "\<forall>mix. round_operation ctx i (mix, st) = (map f1 mix, st1)"
    "\<forall>p. prog_operation i (p, gs) = (p @ q1, gs1)" "lane_refines c d q1 f1" "gen_rel gs1 st1"
    using operation_refines [OF Cons.prems assms(2)] by blast
  obtain f2 st2 gs2 q2 where 2: "\<forall>mix. fold (round_operation ctx) is (mix, st1) = (map f2 mix, st2)"
    "\<forall>p. fold prog_operation is (p, gs1) = (p @ q2, gs2)" "lane_refines c d q2 f2" "gen_rel gs2 st2"
    using Cons.IH [OF 1(4)] by blast
  have "lane_refines c d (q1 @ q2) (\<lambda>row. f2 (f1 row))" by (rule lane_refines_append [OF 1(3) 2(3)])
  with 1 2 show ?case
    by (intro exI [of _ "\<lambda>row. f2 (f1 row)"] exI [of _ st2] exI [of _ gs2] exI [of _ "q1 @ q2"]) simp
qed

lemma merge_dag_refines: "lane_refines c d [merge_stmt a (DDag i) r] (\<lambda>row. merge_reg row a (d ! i) r)"
  by (simp add: lane_refines_def exec_def exec_merge)

lemma consume_step:
  assumes "gen_rel gs st" and "i \<noteq> 0"
  shows "\<exists>dst sel st' gs'. (\<forall>pat. dag_pattern_step i (pat, st) = (pat @ [(dst, sel)], st')) \<and>
    (\<forall>p. prog_consume i (p, gs) = (p @ [merge_stmt dst (DDag i) sel], gs')) \<and> gen_rel gs' st'"
proof -
  obtain dst gs1 where a1: "gen_dst gs = (dst, gs1)" by fastforce
  obtain r gs2 where a2: "gen_rnd gs1 = (r, gs2)" by fastforce
  obtain dst' st1 where b1: "next_dst st = (dst', st1)" by fastforce
  obtain r' st2 where b2: "next_rng st1 = (r', st2)" by fastforce
  have "dst = unat dst'" "r' = r" "gen_rel gs2 st2"
    using gen_dst_rel [OF assms(1)] gen_rnd_rel [of gs1 st1] a1 a2 b1 b2 by auto
  with a1 a2 b1 b2 assms(2) show ?thesis
    by (simp add: dag_pattern_step_def prog_consume_def)
qed

lemma consume_refines:
  assumes rel: "gen_rel gs st"
  shows "\<exists>pattern. fst (fold dag_pattern_step [0..<4] ([], st)) = pattern \<and>
    lane_refines c d
      (case gen_rnd gs of (r0, gs) \<Rightarrow> fst (fold prog_consume [1..<4] ([merge_stmt 0 (DDag 0) r0], gs)))
      (\<lambda>row. fold (\<lambda>i row. let (dst, sel) = pattern ! i in merge_reg row dst (d ! i) sel) [0..<4] row)"
proof -
  obtain r0 gs0 where a0: "gen_rnd gs = (r0, gs0)" by fastforce
  obtain r0' st0 where b0: "next_rng st = (r0', st0)" by fastforce
  have 0: "r0' = r0" "gen_rel gs0 st0" using gen_rnd_rel [OF rel] a0 b0 by auto
  obtain d1 s1 st1 gs1 where 1: "\<forall>pat. dag_pattern_step 1 (pat, st0) = (pat @ [(d1, s1)], st1)"
    "\<forall>p. prog_consume 1 (p, gs0) = (p @ [merge_stmt d1 (DDag 1) s1], gs1)" "gen_rel gs1 st1"
    using consume_step [OF 0(2), of 1] by auto
  obtain d2 s2 st2 gs2 where 2: "\<forall>pat. dag_pattern_step 2 (pat, st1) = (pat @ [(d2, s2)], st2)"
    "\<forall>p. prog_consume 2 (p, gs1) = (p @ [merge_stmt d2 (DDag 2) s2], gs2)" "gen_rel gs2 st2"
    using consume_step [OF 1(3), of 2] by auto
  obtain d3 s3 st3 gs3 where 3: "\<forall>pat. dag_pattern_step 3 (pat, st2) = (pat @ [(d3, s3)], st3)"
    "\<forall>p. prog_consume 3 (p, gs2) = (p @ [merge_stmt d3 (DDag 3) s3], gs3)"
    using consume_step [OF 2(3), of 3] by auto
  have z: "dag_pattern_step 0 ([], st) = ([(0, r0)], st0)" using b0 0 by (simp add: dag_pattern_step_def)
  have u: "[0..<4] = [0, 1, 2, 3 :: nat]" "[1..<4] = [1, 2, 3 :: nat]" by code_simp+
  have "lane_refines c d [merge_stmt 0 (DDag 0) r0, merge_stmt d1 (DDag 1) s1, merge_stmt d2 (DDag 2) s2,
      merge_stmt d3 (DDag 3) s3]
    (\<lambda>row. merge_reg (merge_reg (merge_reg (merge_reg row 0 (d ! 0) r0) d1 (d ! 1) s1) d2 (d ! 2) s2) d3 (d ! 3) s3)"
    by (simp add: lane_refines_def exec_def exec_merge)
  with 1 2 3 z a0 show ?thesis
    by (simp add: u eval_nat_numeral)
qed

lemma kern_program_refines:
  assumes "\<And>i. i < 4096 \<Longrightarrow> c i = ctx_l1_cache ctx i"
  shows "\<exists>f st'. (\<forall>mix. fold (round_operation ctx) [0..<18] (mix, mix_rng_state_init seed) = (map f mix, st')) \<and>
    (\<forall>d. lane_refines c d (fst (kern_program seed) @ snd (kern_program seed))
      (\<lambda>row. fold (\<lambda>i row. let (dst, sel) = fst (fold dag_pattern_step [0..<4] ([], st')) ! i
                            in merge_reg row dst (d ! i) sel) [0..<4] (f row)))"
proof -
  obtain f st' gs' q where 1:
    "\<forall>mix. fold (round_operation ctx) [0..<18] (mix, mix_rng_state_init seed) = (map f mix, st')"
    "\<forall>p. fold prog_operation [0..<18] (p, gen_init seed) = (p @ q, gs')" "gen_rel gs' st'"
    using operations_refine [OF gen_init_rel assms, of "[0..<18]"] by blast
  have q: "lane_refines c d q f" for d
  proof -
    obtain f2 st2 gs2 q2 where 2:
      "\<forall>mix. fold (round_operation ctx) [0..<18] (mix, mix_rng_state_init seed) = (map f2 mix, st2)"
      "\<forall>p. fold prog_operation [0..<18] (p, gen_init seed) = (p @ q2, gs2)" "lane_refines c d q2 f2"
      using operations_refine [OF gen_init_rel assms, of "[0..<18]"] by blast
    have "q2 = q" using 1(2) 2(2) by (metis append_Nil fst_conv)
    moreover have "f2 = f" using 1(1) 2(1) by (intro ext) (metis fst_conv list.map(2) list.inject)
    ultimately show ?thesis using 2(3) by simp
  qed
  have "fst (kern_program seed) = q"
    "snd (kern_program seed) =
      (case gen_rnd gs' of (r0, gs) \<Rightarrow> fst (fold prog_consume [1..<4] ([merge_stmt 0 (DDag 0) r0], gs)))"
    using 1(2) by (simp_all add: kern_program_def split: prod.split del: upt_Suc)
  then have "lane_refines c d (fst (kern_program seed) @ snd (kern_program seed))
      (\<lambda>row. fold (\<lambda>i row. let (dst, sel) = fst (fold dag_pattern_step [0..<4] ([], st')) ! i
                            in merge_reg row dst (d ! i) sel) [0..<4] (f row))" for d
    using lane_refines_append [OF q] consume_refines [OF 1(3), of c d] by auto
  with 1(1) show ?thesis by blast
qed

lemma kernel_offset:
  fixes index E l r :: u32
  assumes "index < E" and "unat E * 16 \<le> 2 ^ 32"
  shows "unat (index * 16 + (l XOR r) mod 16) = unat index * 16 + unat (l XOR r) mod 16"
proof -
  have m: "unat ((l XOR r) mod 16) = unat (l XOR r) mod 16" by (simp add: unat_mod)
  have "unat index + 1 \<le> unat E" using assms(1) by (simp add: word_less_nat_alt)
  then have b: "unat index * 16 + 16 \<le> 2 ^ 32" using assms(2) by linarith
  then have i: "unat (index * 16) = unat index * 16" by (simp add: unat_word_ariths)
  have "unat (l XOR r) mod 16 < 16" by simp
  then have "unat index * 16 + unat (l XOR r) mod 16 < 2 ^ 32" using b by linarith
  then show ?thesis using i m by (simp add: unat_word_ariths)
qed

lemma kernel_iteration_eq_round:
  assumes "mix_ok mix" and "dag_elements = of_int (cdiv (ctx_full_dataset_num_items ctx) 2)"
    and "0 < dag_elements" and "unat dag_elements * 16 \<le> 2 ^ 32"
    and "\<And>p. p < dag_elements \<Longrightarrow> slice 64 (unat p) g_dag = calculate_dataset_item_2048 ctx p"
    and "\<And>i. i < 4096 \<Longrightarrow> c_dag i = ctx_l1_cache ctx i"
  shows "kernel_iteration prog_seed c_dag g_dag dag_elements loop mix =
    fst (progpow_round (light_lookup calculate_dataset_item_2048) (mix_rng_state_init prog_seed) loop (mix, ctx))"
proof -
  obtain f st' where 1: "\<forall>mix. fold (round_operation ctx) [0..<18] (mix, mix_rng_state_init prog_seed) = (map f mix, st')"
    and ref: "\<And>d. lane_refines c_dag d (fst (kern_program prog_seed) @ snd (kern_program prog_seed))
      (\<lambda>row. fold (\<lambda>i row. let (dst, sel) = fst (fold dag_pattern_step [0..<4] ([], st')) ! i
                            in merge_reg row dst (d ! i) sel) [0..<4] (f row))"
    using kern_program_refines [of c_dag ctx prog_seed, OF assms(6)] by blast
  let ?pat = "fst (fold dag_pattern_step [0..<4] ([], st'))"
  let ?index = "mix ! (unat loop mod 16) ! 0 mod dag_elements"
  let ?item = "calculate_dataset_item_2048 ctx ?index"
  have i: "?index < dag_elements" using assms(3) by (simp add: word_mod_less_divisor)
  have item: "slice 64 (unat ?index) g_dag = ?item" by (rule assms(5) [OF i])
  have lane: "fold (\<lambda>i row. let (dst, sel) = ?pat ! i in merge_reg row dst (slice 4 (unat ?index * 16 + m) g_dag ! i) sel) [0..<4] row =
     fold (\<lambda>i row. let word = le_uint32 (?item ! (m * 4 + i)); (dst, sel) = ?pat ! i in merge_reg row dst word sel) [0..<4] row"
    if "m < 16" for m row
  proof (rule fold_cong)
    fix k assume "k \<in> set [0..<4]"
    then have k: "k < 4" by simp
    have "slice 4 (unat ?index * 16 + m) g_dag ! k = ?item ! (m * 4 + k)"
    proof -
      have "length (slice 64 (unat ?index) g_dag) = 64" using item by simp
      then have len: "64 * unat ?index + 64 \<le> length g_dag" by (simp add: slice_def)
      have "64 * unat ?index + (m * 4 + k) < length g_dag" using len that k by linarith
      then show ?thesis unfolding item [symmetric] using that k
        by (simp add: slice_def algebra_simps)
    qed
    then show "(\<lambda>row. let (dst, sel) = ?pat ! k in merge_reg row dst (slice 4 (unat ?index * 16 + m) g_dag ! k) sel) =
      (\<lambda>row. let word = le_uint32 (?item ! (m * 4 + k)); (dst, sel) = ?pat ! k in merge_reg row dst word sel)"
      by (simp add: le_uint32_def)
  qed simp_all
  have len: "length mix = 16" using assms(1) by (simp add: mix_ok_def num_lanes_def)
  have "kernel_iteration prog_seed c_dag g_dag dag_elements loop mix =
    map (\<lambda>l. dag_access ?item loop ?pat l (f (mix ! l))) [0..<16]"
  proof (unfold kernel_iteration_def, rule map_cong [OF refl])
    fix l assume "l \<in> set [0..<16]"
    let ?d = "slice 4 (unat ?index * 16 + unat (of_nat l XOR loop) mod 16) g_dag"
    have "ln_mix (exec c_dag ?d (fst (kern_program prog_seed) @ snd (kern_program prog_seed))
      \<lparr>ln_mix = mix ! l, ln_offset = 0, ln_data = 0\<rparr>) = dag_access ?item loop ?pat l (f (mix ! l))"
      using ref [of ?d] lane [of "unat (of_nat l XOR loop) mod 16"]
      by (simp add: lane_refines_def dag_access_def num_lanes_def)
    moreover have "unat (loop mod 16) = unat loop mod 16" by (simp add: unat_mod)
    ultimately show "(let offset = mix ! unat (loop mod 16) ! 0; offset = offset mod dag_elements;
        offset = offset * 16 + (of_nat l XOR loop) mod 16; data_dag = slice 4 (unat offset) g_dag;
        (ops, consume) = kern_program prog_seed
      in ln_mix (exec c_dag data_dag (ops @ consume) \<lparr>ln_mix = mix ! l, ln_offset = 0, ln_data = 0\<rparr>)) =
      dag_access ?item loop ?pat l (f (mix ! l))"
      using kernel_offset [OF i assms(4), of "of_nat l" loop] by (simp add: Let_def split_beta)
  qed
  moreover have "fst (progpow_round (light_lookup calculate_dataset_item_2048) (mix_rng_state_init prog_seed) loop (mix, ctx)) =
    map (\<lambda>l. dag_access ?item loop ?pat l (map f mix ! l)) [0..<16]"
    using 1 assms(2) by (simp add: progpow_round_def light_lookup_def num_lanes_def num_cache_accesses_def
        num_math_operations_def Let_def split_beta del: upt_Suc)
  ultimately show ?thesis using len by (simp cong: map_cong)
qed

lemma kernel_loop_eq:
  assumes "mix_ok mix" and "dag_elements = of_int (cdiv (ctx_full_dataset_num_items ctx) 2)"
    and "0 < dag_elements" and "unat dag_elements * 16 \<le> 2 ^ 32"
    and "\<And>p. p < dag_elements \<Longrightarrow> slice 64 (unat p) g_dag = calculate_dataset_item_2048 ctx p"
    and "\<And>i. i < 4096 \<Longrightarrow> c_dag i = ctx_l1_cache ctx i"
  shows "fold (\<lambda>loop. kernel_iteration prog_seed c_dag g_dag dag_elements (of_nat loop)) is mix =
    fst (fold (\<lambda>i. progpow_round (light_lookup calculate_dataset_item_2048) (mix_rng_state_init prog_seed) (of_nat i)) is (mix, ctx))"
  using assms(1)
proof (induction "is" arbitrary: mix)
  case (Cons i "is")
  let ?R = "progpow_round (light_lookup calculate_dataset_item_2048) (mix_rng_state_init prog_seed) (of_nat i) (mix, ctx)"
  have "?R = (fst ?R, ctx)" by (rule light_round_pair)
  moreover have "mix_ok (fst ?R)" by (rule progpow_round_shape [OF Cons.prems])
  moreover have "kernel_iteration prog_seed c_dag g_dag dag_elements (of_nat i) mix = fst ?R"
    by (rule kernel_iteration_eq_round [OF Cons.prems assms(2-4)]) (use assms(5,6) in blast)+
  ultimately show ?case using Cons.IH [of "fst ?R"] by (metis fold_simps(2))
qed simp

lemma cl_fnv1a_eq: "cl_fnv1a = fnv1a"
  by (rule ext, rule ext) (simp add: cl_fnv1a_def fnv1a_def fnv_prime_def)

lemma ucast_mult_down: "ucast (x * y) = (ucast x * ucast y :: u32)" for x y :: u64
proof transfer
  fix x y :: int
  have m: "z mod 18446744073709551616 mod 4294967296 = z mod 4294967296" for z :: int by (rule mod_mod_cancel) simp
  have "x mod 18446744073709551616 * (y mod 18446744073709551616) mod 4294967296 = x * y mod 4294967296"
    by (metis m mod_mult_eq)
  then show "take_bit LENGTH(32) (take_bit LENGTH(64) (x * y)) =
      take_bit LENGTH(32) (take_bit LENGTH(64) x * take_bit LENGTH(64) y)"
    by (simp add: take_bit_eq_mod m)
qed

lemma cl_fnv1a_long_eq: "cl_fnv1a_long h d = fnv1a h (ucast d)"
proof -
  have "ucast (ucast h XOR d :: u64) = h XOR (ucast d :: u32)"
    by (rule bit_word_eqI) (auto simp: bit_simps)
  then show ?thesis by (simp add: cl_fnv1a_long_def fnv1a_def fnv_prime_def ucast_mult_down)
qed

lemma cl_registers_eq: "cl_registers n st = kiss99_take n st"
  by (induction n arbitrary: st) (simp_all add: cl_kiss99_def kiss99_next_def Let_def)

lemma fill_mix_eq: "map (\<lambda>lane_id. fill_mix seed (of_nat lane_id)) [0..<16] = init_mix seed"
  by (simp add: fill_mix_def init_mix_def cl_fnv1a_eq cl_fnv1a_long_eq cl_registers_eq fnv_offset_basis_def num_regs_def num_lanes_def
      Let_def del: upt_Suc)

lemma group_digest_eq: "group_digest mix = reduce_mix mix"
  by (simp add: group_digest_def lane_digest_def reduce_mix_def cl_fnv1a_eq fnv_offset_basis_def num_regs_def num_lanes_def Let_def
      del: upt_Suc)

text \<open>
  C1: the generated GPU program computes the verifier's mix hash: with the DAG and the L1 cache of an epoch in
  device memory and the same seed, the fill of the registers, 64 iterations of the program generated for the period of a
  block and the reduction of the kernel give the mix hash that \<open>progpow::hash\<close> computes from the light cache. The offset of the kernel is a 32-bit integer, so the DAG
  must have at most \<open>2 ^ 28\<close> elements of 256 bytes.
\<close>
theorem kernel_mix_hash_correct:
  assumes "dag_elements = of_int (cdiv (ctx_full_dataset_num_items ctx) 2)"
    and "0 < dag_elements" and "unat dag_elements * 16 \<le> 2 ^ 32"
    and "\<And>p. p < dag_elements \<Longrightarrow> slice 64 (unat p) g_dag = calculate_dataset_item_2048 ctx p"
    and "\<And>i. i < 4096 \<Longrightarrow> c_dag i = ctx_l1_cache ctx i"
  shows "kernel_mix_hash (of_int (cdiv block_number period_length)) c_dag g_dag dag_elements
      (keccak_progpow_64 header_hash nonce) =
    res_mix_hash (fst (progpow_hash ctx block_number header_hash nonce))"
proof -
  have "fst (hash_mix ctx block_number (keccak_progpow_64 header_hash nonce) (light_lookup calculate_dataset_item_2048)) =
    kernel_mix_hash (of_int (cdiv block_number period_length)) c_dag g_dag dag_elements (keccak_progpow_64 header_hash nonce)"
    unfolding hash_mix_def kernel_mix_hash_def Let_def fill_mix_eq group_digest_eq
    by (subst kernel_loop_eq [OF init_mix_ok assms(1-3)]) (use assms(4,5) in \<open>auto simp: split_beta\<close>)
  then show ?thesis by (auto simp: progpow_hash_def Let_def split: prod.split)
qed

theorem kernel_mix_hash_witness:
  "kernel_mix_hash (of_int (cdiv 7 period_length)) (ctx_l1_cache tiny_context)
      (calculate_dataset_item_2048 tiny_context 0) 1 (keccak_progpow_64 (replicate 8 1) 5) =
    res_mix_hash (fst (progpow_hash tiny_context 7 (replicate 8 1) 5))"
proof (rule kernel_mix_hash_correct)
  show "(1 :: u32) = of_int (cdiv (ctx_full_dataset_num_items tiny_context) 2)"
    by (simp add: tiny_context_def cdiv_def)
  fix p :: u32
  assume "p < 1"
  then show "slice 64 (unat p) (calculate_dataset_item_2048 tiny_context 0) = calculate_dataset_item_2048 tiny_context p"
    by (simp add: slice_def)
qed simp_all

section \<open>Reciprocals\<close>

lemma takeWhile_rev_upt:
  assumes "P k" and "\<And>i. k < i \<Longrightarrow> i < n \<Longrightarrow> \<not> P i" and "k < n"
  shows "length (takeWhile (\<lambda>i. \<not> P i) (rev [0..<n])) = n - 1 - k"
proof -
  have "[0..<n] = [0..<k] @ [k] @ [Suc k..<n]"
    using assms(3) by (metis append.simps(1) append_Cons less_imp_le_nat upt_add_eq_append upt_conv_Cons le0 le_add_diff_inverse)
  then have "rev [0..<n] = rev [Suc k..<n] @ [k] @ rev [0..<k]" by simp
  moreover have "takeWhile (\<lambda>i. \<not> P i) (rev [Suc k..<n] @ [k] @ rev [0..<k]) = rev [Suc k..<n]"
    using assms by (subst takeWhile_append2) auto
  ultimately show ?thesis by simp
qed

lemma clz_log:
  fixes d :: u32
  assumes "d \<noteq> 0"
  obtains L where "L < 32" and "2 ^ L \<le> uint d" and "uint d < 2 ^ (L + 1)" and "builtin_clz d = of_nat (31 - L)"
proof -
  define L where "L = Max {i. i < 32 \<and> bit d i}"
  have ne: "{i. i < 32 \<and> bit d i} \<noteq> {}" using assms by (auto simp: bit_eq_iff dest: bit_imp_le_length)
  have fin: "finite {i. i < 32 \<and> bit d i}" by simp
  have L: "L < 32" "bit d L" using Max_in [OF fin ne] by (auto simp: L_def)
  have above: "\<not> bit d i" if "L < i" for i
  proof
    assume "bit d i"
    then have "i \<le> L" using bit_imp_le_length [of d i] Max_ge [OF fin, of i] by (simp add: L_def)
    with that show False by simp
  qed
  have "uint d < 2 ^ (L + 1)"
  proof -
    have "take_bit (L + 1) d = d"
    proof (rule bit_eqI)
      fix n
      show "bit (take_bit (L + 1) d) n \<longleftrightarrow> bit d n"
        using above [of n] by (cases "L < n") (auto simp: bit_take_bit_iff)
    qed
    then have "take_bit (L + 1) (uint d) = uint d" by (metis unsigned_take_bit_eq)
    then show ?thesis using take_bit_int_less_exp [of "L + 1" "uint d"] by simp
  qed
  moreover have "2 ^ L \<le> uint d"
  proof (rule ccontr)
    assume "\<not> 2 ^ L \<le> uint d"
    then have "take_bit L (uint d) = uint d" by (simp add: take_bit_int_eq_self)
    then have "\<not> bit (uint d) L" by (metis bit_take_bit_iff less_irrefl)
    then show False using L by (simp add: bit_uint_iff)
  qed
  moreover have "builtin_clz d = of_nat (31 - L)"
    using takeWhile_rev_upt [of "bit d" L 32] L above by (simp add: builtin_clz_def)
  ultimately show ?thesis using that L by blast
qed

lemma div_round_up:
  fixes n d q r N :: nat
  assumes N: "N = q * d + r" and d: "r < d" and e: "n * (d - r) < N"
  shows "n * (q + 1) div N = n div d"
proof -
  have N0: "0 < N" using e by (cases N) simp_all
  have qd: "(q + 1) * d = N + (d - r)" using N d by simp
  have key: "n * (q + 1) * d = n * N + n * (d - r)"
  proof -
    have "n * (q + 1) * d = n * ((q + 1) * d)" by (rule mult.assoc)
    then show ?thesis unfolding qd by (simp only: distrib_left)
  qed
  have kd: "n div d * d \<le> n" "n < (n div d + 1) * d" using d by (simp_all add: dividend_less_div_times)
  have "n div d * N \<le> n * (q + 1)"
  proof -
    have "n div d * N * d = n div d * d * N" by (simp add: mult_ac)
    also have "\<dots> \<le> n * N" by (rule mult_right_mono [OF kd(1)]) simp
    also have "\<dots> \<le> n * (q + 1) * d" unfolding key by simp
    finally show ?thesis using d by simp
  qed
  moreover have "n * (q + 1) < (n div d + 1) * N"
  proof -
    have "n * N + N \<le> (n div d + 1) * d * N" using mult_right_mono [of "n + 1" "(n div d + 1) * d" N] kd(2) by (simp add: algebra_simps)
    then have "n * (q + 1) * d < (n div d + 1) * N * d" unfolding key using e by (simp add: algebra_simps)
    then show ?thesis by simp
  qed
  ultimately show ?thesis by (intro div_nat_eqI) (simp_all add: algebra_simps)
qed

lemma div_round_down:
  fixes n d q r N :: nat
  assumes N: "N = q * d + r" and d: "0 < r" "r < d" and e: "(n + 1) * r \<le> N"
  shows "(n + 1) * q div N = n div d"
proof -
  have N0: "0 < N" using N d by simp
  have key: "(n + 1) * q * d + (n + 1) * r = (n + 1) * N" using N by (simp add: algebra_simps)
  have kd: "n div d * d \<le> n" "n + 1 \<le> (n div d + 1) * d"
    using d dividend_less_div_times [of d n] by (simp_all add: Suc_le_eq algebra_simps)
  have "n div d * N \<le> (n + 1) * q"
  proof -
    have "n div d * N * d = n div d * d * N" by (simp add: mult_ac)
    also have "\<dots> \<le> n * N" by (rule mult_right_mono [OF kd(1)]) simp
    finally have "n div d * N * d + (n + 1) * r \<le> n * N + N" using e by linarith
    also have "\<dots> = (n + 1) * q * d + (n + 1) * r" unfolding key by simp
    finally have "n div d * N * d \<le> (n + 1) * q * d" by linarith
    then show ?thesis using d by simp
  qed
  moreover have "(n + 1) * q < (n div d + 1) * N"
  proof -
    have "(n + 1) * q * d < (n + 1) * N" using key d N0 by (metis add_gr_0 less_add_same_cancel1 mult_pos_pos zero_less_one)
    also have "\<dots> \<le> (n div d + 1) * d * N" by (rule mult_right_mono [OF kd(2)]) simp
    finally have "(n + 1) * q * d < (n div d + 1) * N * d" by (simp add: algebra_simps)
    then show ?thesis by simp
  qed
  ultimately show ?thesis by (intro div_nat_eqI) (simp_all add: algebra_simps)
qed

lemma top_bit: "2 ^ L \<le> k \<Longrightarrow> k < 2 ^ (L + 1) \<Longrightarrow> bit (k :: int) L"
proof -
  assume "2 ^ L \<le> k" "k < 2 ^ (L + 1)"
  then have "k div 2 ^ L = 1" by (intro int_div_pos_eq [of _ _ _ "k - 2 ^ L"]) auto
  then show ?thesis by (simp add: bit_iff_odd)
qed

lemma pow2_test:
  fixes d :: u32
  assumes "2 ^ L \<le> uint d" and "uint d < 2 ^ (L + 1)" and "L < 32"
  shows "d AND (d - 1) = 0 \<longleftrightarrow> uint d = 2 ^ L"
proof
  assume "uint d = 2 ^ L"
  then have "of_int (uint d) = (2 ^ L :: u32)" by simp
  then have "d = 2 ^ L" by simp
  then show "d AND (d - 1) = 0"
    by (auto intro!: bit_word_eqI simp: bit_simps mask_eq_exp_minus_1 [symmetric])
next
  assume z: "d AND (d - 1) = 0"
  show "uint d = 2 ^ L"
  proof (rule ccontr)
    assume "uint d \<noteq> 2 ^ L"
    then have "2 ^ L \<le> uint d - 1" using assms by simp
    moreover have d1: "uint (d - 1) = uint d - 1"
    proof -
      have "1 \<le> uint d" using assms(1) one_le_power [of "2 :: int" L] by linarith
      then show ?thesis using uint_lt2p [of d] by (simp add: uint_word_ariths)
    qed
    ultimately have "bit (uint d) L" "bit (uint (d - 1)) L"
      using assms top_bit by auto
    then have "bit d L" "bit (d - 1) L" using assms(3) by (simp_all add: bit_uint_iff)
    then have "bit (d AND (d - 1)) L" by (simp add: bit_and_iff)
    with z show False by simp
  qed
qed

lemma unat_drop_bit64: "unat (drop_bit n (w :: u64)) = unat w div 2 ^ n"
  by (rule trans [OF unat_drop_bit_eq drop_bit_eq_div])

lemma unat_push_bit64: "n < 64 \<Longrightarrow> unat (push_bit n (1 :: u64)) = 2 ^ n"
proof -
  assume "n < 64"
  then have "(2 :: nat) ^ n < 2 ^ 64" by (intro power_strict_increasing) simp_all
  with \<open>n < 64\<close> show ?thesis by (subst unsigned_push_bit_eq) (simp_all add: push_bit_eq_mult take_bit_nat_eq_self)
qed

lemma unat_ucast_wide: "unat (ucast (a :: u32) :: u64) = unat a"
proof -
  have "unat a < 2 ^ 32" using unsigned_less [of a] by simp
  then show ?thesis by (simp add: unsigned_ucast_eq take_bit_nat_eq_self)
qed

lemma ucast_narrow: "unat w < 2 ^ 32 \<Longrightarrow> ucast (ucast (w :: u64) :: u32) = w"
  by (intro word_unat_eq_iff [THEN iffD2]) (simp add: unat_ucast_wide unsigned_ucast_eq unsigned_take_bit_eq take_bit_nat_eq_self)

lemma dvd_pow2: "D dvd 2 ^ m \<Longrightarrow> \<exists>k. D = (2 :: nat) ^ k"
proof (induction m arbitrary: D)
  case (Suc m)
  show ?case
  proof (cases "even D")
    case True
    then obtain D' where D': "D = 2 * D'" by blast
    with Suc.prems have "D' dvd 2 ^ m" by simp
    with Suc.IH obtain k where "D' = 2 ^ k" by blast
    with D' have "D = 2 ^ Suc k" by simp
    then show ?thesis ..
  next
    case False
    then have "coprime D 2" by simp
    with Suc.prems have "D dvd 2 ^ m" by (simp add: coprime_dvd_mult_right_iff)
    with Suc.IH show ?thesis by blast
  qed
qed (simp add: exI [of _ 0])

lemma reciprocal_bounds:
  fixes D L :: nat
  assumes D: "2 ^ L < D" "D < 2 ^ (L + 1)" and L: "L < 32"
  shows "0 < 2 ^ (32 + L) mod D" and "2 ^ (32 + L) div D + 1 < 2 ^ 32"
proof -
  have "\<not> D dvd 2 ^ (32 + L)"
  proof
    assume "D dvd 2 ^ (32 + L)"
    then obtain k where "D = 2 ^ k" using dvd_pow2 by blast
    with D have "L < k" "k < L + 1" by (simp_all add: power_strict_increasing_iff [of "2 :: nat", simplified] del: power_Suc)
    then show False by simp
  qed
  then show "0 < 2 ^ (32 + L) mod D" by (simp add: dvd_eq_mod_eq_0)
  let ?Q = "2 ^ (32 + L) div D"
  have le: "?Q * (2 ^ L + 1) \<le> 2 ^ 32 * 2 ^ L"
  proof -
    have "?Q * (2 ^ L + 1) \<le> ?Q * D" using D by (intro mult_le_mono) simp_all
    also have "\<dots> \<le> 2 ^ (32 + L)" by (rule div_times_less_eq_dividend)
    finally show ?thesis by (simp only: power_add)
  qed
  have p: "(2 :: nat) ^ L \<le> 2 ^ 31" using L by (intro power_increasing) simp_all
  show "?Q + 1 < 2 ^ 32"
  proof (rule ccontr)
    assume "\<not> ?Q + 1 < 2 ^ 32"
    then have "(2 ^ 32 - 1) * (2 ^ L + 1) \<le> ?Q * (2 ^ L + 1)" by (intro mult_le_mono) simp_all
    with le have "(2 ^ 32 - 1) * (2 ^ L + 1) \<le> (2 :: nat) ^ 32 * 2 ^ L" by (rule order_trans [rotated])
    with p show False by simp
  qed
qed

lemma reciprocal_div:
  fixes A D L :: nat
  assumes D: "2 ^ L < D" "D < 2 ^ (L + 1)" and L: "L < 32" and A: "A < 2 ^ 32"
  defines "N \<equiv> 2 ^ (32 + L)"
  shows "2 * (N mod D) < D \<Longrightarrow> (A + 1) * (N div D) div N = A div D"
    and "\<not> 2 * (N mod D) < D \<Longrightarrow> A * (N div D + 1) div N = A div D"
    and "(A + 1) * (N div D) < 2 ^ 64" and "A * (N div D + 1) < 2 ^ 64"
proof -
  note b = reciprocal_bounds [OF D L, folded N_def]
  have N: "N = N div D * D + N mod D" by simp
  have r: "N mod D < D" using D by simp
  have NL: "N = 2 ^ 32 * 2 ^ L" by (simp add: N_def power_add)
  show "(A + 1) * (N div D) div N = A div D" if "2 * (N mod D) < D"
  proof (rule div_round_down [OF N b(1) r])
    have "(A + 1) * (N mod D) \<le> 2 ^ 32 * 2 ^ L" using that D A by (intro mult_le_mono) simp_all
    then show "(A + 1) * (N mod D) \<le> N" by (simp only: NL)
  qed
  show "A * (N div D + 1) div N = A div D" if "\<not> 2 * (N mod D) < D"
  proof (rule div_round_up [OF N r])
    have "A * (D - N mod D) < 2 ^ 32 * 2 ^ L" using that D A by (intro mult_strict_mono) simp_all
    then show "A * (D - N mod D) < N" by (simp only: NL)
  qed
  have "(A + 1) * (N div D) \<le> 2 ^ 32 * (2 ^ 32 - 1)" "A * (N div D + 1) \<le> 2 ^ 32 * (2 ^ 32 - 1)"
    using A b(2) by (intro mult_le_mono; simp)+
  then show "(A + 1) * (N div D) < 2 ^ 64" "A * (N div D + 1) < 2 ^ 64" by simp_all
qed

lemma quotient_general:
  fixes a d :: u32
  assumes D: "2 ^ L < unat d" "unat d < 2 ^ (L + 1)" and L: "L < 32"
    and np: "d AND (d - 1) \<noteq> 0" and clz: "builtin_clz d = of_nat (31 - L)"
  defines "f \<equiv> calculate_fast_mod_data d"
  shows "unat (drop_bit (unat (fmd_shift f)) ((ucast a + ucast (fmd_increment f)) * ucast (fmd_reciprocal f) :: u64)) =
    unat a div unat d"
proof -
  let ?N = "2 ^ (32 + L) :: nat" and ?n = "push_bit (32 + L) 1 :: u64" and ?D = "unat d"
  let ?q = "?n div ucast d"
  let ?r = "?n - ?q * ucast d"
  note b = reciprocal_bounds [OF D L]
  note v = reciprocal_div [OF D L, of "unat a"]
  have A: "unat a < 2 ^ 32" using unsigned_less [of a] by simp
  have sh: "63 - (of_nat (31 - L) :: u32) = of_nat (32 + L)" using L by simp
  have ush: "unat (of_nat (32 + L) :: u32) = 32 + L" using L by (simp add: unat_of_nat del: of_nat_add)
  have n: "unat ?n = ?N" using L by (intro unat_push_bit64) simp
  have q: "unat ?q = ?N div ?D" by (simp only: unat_div n) (simp add: unat_ucast_wide)
  have D32: "?D < 2 ^ 32" using unsigned_less [of d] by simp
  have qD: "unat (?q * ucast d) = ?N div ?D * ?D"
  proof -
    have "?N div ?D * ?D \<le> ?N" by (rule div_times_less_eq_dividend)
    also have "?N < 2 ^ 64" using L by (intro power_strict_increasing) simp_all
    finally have "unat ?q * unat (ucast d :: u64) < 2 ^ LENGTH(64)" by (simp only: q unat_ucast_wide) simp
    from unat_mult_lem [THEN iffD1, OF this] show ?thesis by (simp only: q unat_ucast_wide)
  qed
  have r: "unat ?r = ?N mod ?D"
  proof -
    have "?q * ucast d \<le> ?n" by (simp only: word_le_nat_alt qD n div_times_less_eq_dividend)
    then have "unat ?r = ?N - ?N div ?D * ?D" by (simp only: unat_sub qD n)
    then show ?thesis by (simp only: minus_div_mult_eq_mod)
  qed
  have t: "?r * 2 < ucast d \<longleftrightarrow> 2 * (?N mod ?D) < ?D"
  proof -
    have "?N mod ?D < ?D" using D by simp
    then have "unat (?r * 2) = 2 * (?N mod ?D)" using D32 by (simp only: unat_word_ariths r) simp
    then show ?thesis by (simp only: word_less_nat_alt unat_ucast_wide)
  qed
  have q1: "unat (?q + 1) = ?N div ?D + 1" 
  proof -
    have "unat ?q + unat (1 :: u64) < 2 ^ LENGTH(64)" using b(2) by (simp only: q) simp
    from unat_add_lem [THEN iffD1, OF this] show ?thesis by (simp only: q unsigned_1)
  qed
  show ?thesis
  proof (cases "2 * (?N mod ?D) < ?D")
    case True
    then have f: "f = \<lparr>fmd_reciprocal = ucast ?q, fmd_increment = 1, fmd_shift = of_nat (32 + L)\<rparr>"
      using np t by (simp only: f_def calculate_fast_mod_data_def Let_def clz sh ush if_False if_True)
    have c: "ucast (ucast ?q :: u32) = ?q" using b(2) by (intro ucast_narrow) (simp only: q)
    have s: "unat (ucast a + ucast (1 :: u32) :: u64) = unat a + 1"
      using A by (simp add: unat_word_ariths unat_ucast_wide)
    have "unat (ucast a + ucast (1 :: u32) :: u64) * unat ?q < 2 ^ LENGTH(64)" using v(3) [OF A] by (simp only: s q) simp
    from unat_mult_lem [THEN iffD1, OF this] show ?thesis
      using v(1) [OF A True] by (simp only: f fast_mod_data.select_convs ush unat_drop_bit64 c s q)
  next
    case False
    then have f: "f = \<lparr>fmd_reciprocal = ucast (?q + 1), fmd_increment = 0, fmd_shift = of_nat (32 + L)\<rparr>"
      using np t by (simp only: f_def calculate_fast_mod_data_def Let_def clz sh ush if_False)
    have c: "ucast (ucast (?q + 1) :: u32) = ?q + 1" using b(2) by (intro ucast_narrow) (simp only: q1)
    have z: "ucast a + ucast (0 :: u32) = (ucast a :: u64)" by simp
    have "unat (ucast a :: u64) * unat (?q + 1) < 2 ^ LENGTH(64)" using v(4) [OF A] by (simp only: unat_ucast_wide q1) simp
    from unat_mult_lem [THEN iffD1, OF this] show ?thesis
      using v(2) [OF A False] by (simp only: f fast_mod_data.select_convs ush unat_drop_bit64 c z q1 unat_ucast_wide)
  qed
qed

lemma fast_mod_quotient:
  fixes a d :: u32
  assumes d: "d \<noteq> 0" and f: "f = calculate_fast_mod_data d"
  shows "unat (drop_bit (unat (fmd_shift f)) ((ucast a + ucast (fmd_increment f)) * ucast (fmd_reciprocal f) :: u64)) =
    unat a div unat d"
proof -
  obtain L where L: "L < 32" "2 ^ L \<le> uint d" "uint d < 2 ^ (L + 1)" "builtin_clz d = of_nat (31 - L)"
    using clz_log [OF d] by blast
  let ?D = "unat d" and ?A = "unat a"
  have D: "2 ^ L \<le> ?D" "?D < 2 ^ (L + 1)"
  proof -
    have "nat (2 ^ L) \<le> nat (uint d)" "nat (uint d) < nat (2 ^ (L + 1))"
      using L(2,3) by (simp_all only: nat_mono nat_less_eq_zless uint_ge_0)
    then show "2 ^ L \<le> ?D" "?D < 2 ^ (L + 1)" by (simp_all add: nat_power_eq nat_mult_distrib)
  qed
  have A: "?A < 2 ^ 32" using unsigned_less [of a] by simp
  show ?thesis
  proof (cases "uint d = 2 ^ L")
    case True
    then have "d AND (d - 1) = 0" using pow2_test [OF L(2,3,1)] by simp
    moreover have "31 - (of_nat (31 - L) :: u32) = of_nat L" using L(1) by simp
    moreover have "unat (of_nat L :: u32) = L" using L(1) by (simp add: unat_of_nat)
    moreover have "?D = 2 ^ L" using True by (metis nat_power_eq nat_numeral zero_le_numeral unat_eq_nat_uint)
    ultimately show ?thesis
      by (simp add: f calculate_fast_mod_data_def L(4) unat_drop_bit64 unat_ucast_wide)
  next
    case False
    then have np: "d AND (d - 1) \<noteq> 0" using pow2_test [OF L(2,3,1)] by simp
    have "2 ^ L < ?D" using False D(1) by (metis le_neq_implies_less of_nat_numeral of_nat_power uint_nat)
    then show ?thesis using quotient_general [OF _ D(2) L(1) np L(4)] f by simp
  qed
qed

text \<open>
  The reciprocal computed on the host makes the multiplication, shift and subtraction of the kernel's \<open>fast_mod\<close>
  the remainder of the division, for every dividend and every divisor other than 0.
\<close>
theorem fast_mod_correct:
  assumes "d \<noteq> 0"
  shows "fast_mod a (calculate_fast_mod_data d) d = a mod d"
proof -
  let ?f = "calculate_fast_mod_data d"
  have "ucast (drop_bit (unat (fmd_shift ?f)) ((ucast a + ucast (fmd_increment ?f)) * ucast (fmd_reciprocal ?f) :: u64)) = a div d"
  proof -
    have "a div d = of_nat (unat a div unat d)" by (simp only: unat_div [symmetric] of_nat_unat) simp
    also have "unat a div unat d = unat (drop_bit (unat (fmd_shift ?f)) ((ucast a + ucast (fmd_increment ?f)) * ucast (fmd_reciprocal ?f) :: u64))"
      by (rule fast_mod_quotient [OF assms refl, symmetric])
    finally show ?thesis by (simp only: of_nat_unat)
  qed
  then show ?thesis unfolding fast_mod_def Let_def by (simp only: minus_div_mult_eq_mod)
qed

theorem fast_mod_correct_witness:
  "calculate_fast_mod_data 7 = \<lparr>fmd_reciprocal = 2454267026, fmd_increment = 1, fmd_shift = 34\<rparr> \<and>
   fast_mod 100 (calculate_fast_mod_data 7) 7 = 2"
  using fast_mod_correct [of 7 100] by code_simp

end
