(* ===== verification/CommonData.thy ===== *)
theory CommonData
  imports Complex_Main CppString
begin

text \<open>
  Conversions of \<open>src/libdevcore/CommonData.h\<close> and \<open>CommonData.cpp\<close>: hexadecimal text to bytes and
  back, big-endian integers, and padding. Bytes are 8-bit words; the integer types of the templates
  are natural numbers together with the width of the type where the code can truncate.
\<close>

section \<open>Hexadecimal input\<close>

datatype WhenError = DontThrow | Throw

datatype hex_error = BadHexCharacter

definition fromHex_char :: "char \<Rightarrow> WhenError \<Rightarrow> hex_error + int" where
  "fromHex_char c throw =
     (let i = of_char c
      in if of_char (CHR ''0'') \<le> i \<and> i \<le> of_char (CHR ''9'') then Inr (i - of_char (CHR ''0''))
         else if of_char (CHR ''a'') \<le> i \<and> i \<le> of_char (CHR ''f'') then Inr (i - of_char (CHR ''a'') + 10)
         else if of_char (CHR ''A'') \<le> i \<and> i \<le> of_char (CHR ''F'') then Inr (i - of_char (CHR ''A'') + 10)
         else if throw = Throw then Inl BadHexCharacter
         else Inr (- 1))"

text \<open>Reading a string at its end yields the null character, as \<open>std::string::operator[]\<close> does.\<close>

definition char_at :: "string \<Rightarrow> nat \<Rightarrow> char" where
  "char_at s i = (if i < length s then s ! i else CHR 0x00)"

definition hex_digit :: "string \<Rightarrow> nat \<Rightarrow> int" where
  "hex_digit s i = projr (fromHex_char (char_at s i) DontThrow)"

function fromHex_loop :: "string \<Rightarrow> WhenError \<Rightarrow> nat \<Rightarrow> u8 list \<Rightarrow> hex_error + u8 list" where
  "fromHex_loop s throw i ret =
     (if i < length s then
        let h = hex_digit s i; l = hex_digit s (i + 1)
        in if h \<noteq> - 1 \<and> l \<noteq> - 1 then fromHex_loop s throw (i + 2) (ret @ [of_int (h * 16 + l)])
           else if throw = Throw then Inl BadHexCharacter
           else Inr []
      else Inr ret)"
  by pat_completeness auto
termination
  by (relation "measure (\<lambda>(s, _, i, _). length s - i)") auto

declare fromHex_loop.simps [simp del]

definition fromHex :: "string \<Rightarrow> WhenError \<Rightarrow> hex_error + u8 list" where
  "fromHex s throw =
     (let start = (if char_at s 0 = CHR ''0'' \<and> char_at s 1 = CHR ''x'' then 2 else 0)
      in if odd (length s) then
           let h = hex_digit s start
           in if h \<noteq> - 1 then fromHex_loop s throw (start + 1) [of_int h]
              else if throw = Throw then Inl BadHexCharacter
              else Inr []
         else fromHex_loop s throw start [])"

section \<open>Hexadecimal output\<close>

datatype HexPrefix = PrefixDontAdd | PrefixAdd

text \<open>\<open>std::setfill('0') << std::setw(w)\<close> applied to a printed number.\<close>

definition setw_fill :: "nat \<Rightarrow> string \<Rightarrow> string" where
  "setw_fill w s = replicate (w - length s) (CHR ''0'') @ s"

definition add_prefix :: "HexPrefix \<Rightarrow> string \<Rightarrow> string" where
  "add_prefix prefix s = (if prefix = PrefixAdd then ''0x'' @ s else s)"

definition toHex :: "u8 list \<Rightarrow> nat \<Rightarrow> HexPrefix \<Rightarrow> string" where
  "toHex data w prefix =
     add_prefix prefix
       (concat (map (\<lambda>(ii, i). setw_fill (if ii \<noteq> 0 then 2 else w) (nat_to_base 16 (unat i)))
          (enumerate 0 data)))"

definition toHex_u64 :: "u64 \<Rightarrow> HexPrefix \<Rightarrow> nat \<Rightarrow> string" where
  "toHex_u64 n prefix bytes = add_prefix prefix (setw_fill bytes (nat_to_base 16 (unat n)))"

definition toHex_u32 :: "u32 \<Rightarrow> HexPrefix \<Rightarrow> nat \<Rightarrow> string" where
  "toHex_u32 n prefix bytes = add_prefix prefix (setw_fill bytes (nat_to_base 16 (unat n)))"

definition toCompactHex_u64 :: "u64 \<Rightarrow> HexPrefix \<Rightarrow> string" where
  "toCompactHex_u64 n prefix = add_prefix prefix (nat_to_base 16 (unat n))"

definition toCompactHex_u32 :: "u32 \<Rightarrow> HexPrefix \<Rightarrow> string" where
  "toCompactHex_u32 n prefix = add_prefix prefix (nat_to_base 16 (unat n))"

section \<open>Big-endian integers\<close>

fun toBigEndian_loop :: "nat \<Rightarrow> nat \<Rightarrow> u8 list \<Rightarrow> u8 list" where
  "toBigEndian_loop 0 val out = out"
| "toBigEndian_loop (Suc i) val out = toBigEndian_loop i (val div 256) (out[i := of_nat (val mod 256)])"

definition toBigEndian :: "nat \<Rightarrow> u8 list \<Rightarrow> u8 list" where
  "toBigEndian val out = toBigEndian_loop (length out) val out"

definition toBigEndian_u256 :: "nat \<Rightarrow> u8 list" where
  "toBigEndian_u256 val = toBigEndian val (replicate 32 0)"

definition toBigEndian_u160 :: "nat \<Rightarrow> u8 list" where
  "toBigEndian_u160 val = toBigEndian val (replicate 20 0)"

text \<open>The first argument is the width in bits of the result type, to which every step is truncated.\<close>

definition fromBigEndian :: "nat \<Rightarrow> u8 list \<Rightarrow> nat" where
  "fromBigEndian w bs = fold (\<lambda>i ret. take_bit w (push_bit 8 ret OR unat i)) bs 0"

fun bytesRequired :: "nat \<Rightarrow> nat" where
  "bytesRequired i = (if i \<noteq> 0 then bytesRequired (i div 256) + 1 else 0)"

declare bytesRequired.simps [simp del]

definition toCompactBigEndian :: "nat \<Rightarrow> nat \<Rightarrow> u8 list" where
  "toCompactBigEndian val mn = toBigEndian val (replicate (max mn (bytesRequired val)) 0)"

definition toHex_u256 :: "nat \<Rightarrow> HexPrefix \<Rightarrow> string" where
  "toHex_u256 val prefix = add_prefix prefix (toHex (toBigEndian_u256 val) 2 PrefixDontAdd)"

section \<open>Padding\<close>

definition padLeft :: "string \<Rightarrow> nat \<Rightarrow> char \<Rightarrow> string" where
  "padLeft v n fillChar =
     (if n > length v then replicate (n - length v) fillChar @ v else v)"

definition padRight :: "string \<Rightarrow> nat \<Rightarrow> char \<Rightarrow> string" where
  "padRight v n fillChar =
     (if n > length v then v @ replicate (n - length v) fillChar else v)"

section \<open>Scaled quantities\<close>

text \<open>
  Floating-point values are real numbers: the rounding of single operations is not modelled.
  \<open>format_fixed\<close> is the output of a non-negative number with \<open>std::fixed\<close> and a precision; it rounds to nearest,
  ties to even. The result None of \<open>getScaledSize\<close> is a read outside of the array of suffixes.
\<close>

datatype ScaleSuffix = SuffixDontAdd | SuffixAdd

definition round_half_even :: "real \<Rightarrow> int" where
  "round_half_even x =
     (let f = \<lfloor>x\<rfloor> in if x - of_int f < 1 / 2 \<or> x - of_int f = 1 / 2 \<and> even f then f else f + 1)"

definition format_fixed :: "nat \<Rightarrow> real \<Rightarrow> string" where
  "format_fixed p x =
     (let n = nat (round_half_even (x * 10 ^ p))
      in to_string (n div 10 ^ p) @ (if p = 0 then [] else ''.'' @ setw_fill p (to_string (n mod 10 ^ p))))"

function scale_loop :: "real \<Rightarrow> nat \<Rightarrow> real \<Rightarrow> nat \<Rightarrow> real \<times> nat" where
  "scale_loop divisor numsizes newvalue i =
     (if newvalue > divisor \<and> i \<le> numsizes - 1
      then scale_loop divisor numsizes (newvalue / divisor) (i + 1) else (newvalue, i))"
  by pat_completeness auto
termination
  by (relation "measure (\<lambda>(_, numsizes, _, i). Suc numsizes - i)") auto

declare scale_loop.simps [simp del]

definition getScaledSize :: "real \<Rightarrow> real \<Rightarrow> nat \<Rightarrow> string list \<Rightarrow> ScaleSuffix \<Rightarrow> string option" where
  "getScaledSize v divisor precision sizes suffix =
     (let (newvalue, i) = scale_loop divisor (length sizes) v 0;
          ret = format_fixed precision newvalue
      in if suffix = SuffixAdd
         then if i < length sizes then Some (ret @ '' '' @ sizes ! i) else None
         else Some ret)"

definition getFormattedHashes :: "real \<Rightarrow> ScaleSuffix \<Rightarrow> nat \<Rightarrow> string option" where
  "getFormattedHashes hr suffix precision =
     getScaledSize hr 1000 precision [''h'', ''Kh'', ''Mh'', ''Gh''] suffix"

definition getFormattedMemory :: "real \<Rightarrow> ScaleSuffix \<Rightarrow> nat \<Rightarrow> string option" where
  "getFormattedMemory mem suffix precision =
     getScaledSize mem 1024 precision [''B'', ''KB'', ''MB'', ''GB''] suffix"

section \<open>Targets from difficulties\<close>

text \<open>
  \<open>lexical_cast\<close> prints a double (\<open>boost::lexical_cast\<close>) and \<open>BigInteger\<close> reads a decimal literal
  (\<open>boost::multiprecision::cpp_int\<close>); the latter fails with an exception on text that is not a number, and
  negative numbers cannot be printed in base 16.
\<close>

datatype target_error = BadNumber | NegativeHex

definition getTargetFromDiff ::
  "(real \<Rightarrow> string) \<Rightarrow> (string \<Rightarrow> nat option) \<Rightarrow> real \<Rightarrow> HexPrefix \<Rightarrow> target_error + string" where
  "getTargetFromDiff lexical_cast BigInteger diff prefix =
     (let base = 0x00000000ffff0000000000000000000000000000000000000000000000000000 :: int;
          product =
            (if diff = 0 then Inr 0xffffffffffffffffffffffffffffffffffffffffffffffffffffffffffffffff
             else
               let diff = 1 / diff;
                   idiff = (if 0 \<le> diff then \<lfloor>diff\<rfloor> else \<lceil>diff\<rceil>);
                   product = base * idiff;
                   sdiff = lexical_cast diff;
                   ldiff = length sdiff
               in (case string_find sdiff ''.'' of
                    None \<Rightarrow> Inr product
                  | Some offset \<Rightarrow>
                      let precision = ldiff - 1 - offset;
                          decimals = dropWhile (\<lambda>c. c = CHR ''0'') (drop (offset + 1) sdiff);
                          decimalDivisor = ''1'' @ replicate precision (CHR ''0'')
                      in (case (BigInteger decimals, BigInteger decimalDivisor) of
                           (Some multiplier, Some divisor) \<Rightarrow>
                             Inr (product + cdiv (base * int multiplier) (int divisor))
                         | _ \<Rightarrow> Inl BadNumber)))
      in (case product of
           Inl e \<Rightarrow> Inl e
         | Inr p \<Rightarrow>
             if p < 0 then Inl NegativeHex
             else Inr (to_lower (add_prefix prefix (setw_fill 64 (nat_to_base 16 (nat p)))))))"

section \<open>Specification\<close>

text \<open>
  The bytes a string of hexadecimal digits denotes, after an optional prefix and, for an odd number of
  digits, with a leading zero.
\<close>

definition hexval :: "char \<Rightarrow> int" where
  "hexval c = projr (fromHex_char c DontThrow)"

definition strip_0x :: "string \<Rightarrow> string" where
  "strip_0x s = (if starts_with ''0x'' s then drop 2 s else s)"

definition pad_even :: "string \<Rightarrow> string" where
  "pad_even s = (if odd (length s) then CHR ''0'' # s else s)"

fun hex_bytes :: "string \<Rightarrow> u8 list option" where
  "hex_bytes [] = Some []"
| "hex_bytes [c] = None"
| "hex_bytes (h # l # s) =
     (if hexval h \<noteq> - 1 \<and> hexval l \<noteq> - 1
      then map_option ((#) (of_int (hexval h * 16 + hexval l))) (hex_bytes s) else None)"

definition hex_of_bytes :: "u8 list \<Rightarrow> string" where
  "hex_of_bytes bs = concat (map (\<lambda>b. [digit_char (unat b div 16), digit_char (unat b mod 16)]) bs)"

text \<open>
  The big-endian digits of a number in base 256.
\<close>

fun be_bytes :: "nat \<Rightarrow> nat \<Rightarrow> u8 list" where
  "be_bytes 0 v = []"
| "be_bytes (Suc n) v = be_bytes n (v div 256) @ [of_nat (v mod 256)]"

text \<open>
  The target of difficulty 1, the contract of the decimal reader, and the parts of a printed number.
  \<open>read_digits\<close> is a reader that fulfils the contract.
\<close>

definition target_base :: int where
  "target_base = 0x00000000ffff0000000000000000000000000000000000000000000000000000"

definition reads_decimals :: "(string \<Rightarrow> nat option) \<Rightarrow> bool" where
  "reads_decimals f \<longleftrightarrow>
     (\<forall>s. list_all is_digit s \<longrightarrow> s = [] \<or> hd s \<noteq> CHR ''0'' \<longrightarrow> f s = Some (decimal_value s)) \<and>
     (\<forall>s. \<not> list_all is_digit s \<longrightarrow> is_digit (hd s) \<longrightarrow> hd s \<noteq> CHR ''0'' \<longrightarrow> f s = None)"

definition printed_parts :: "string \<Rightarrow> string \<Rightarrow> string \<Rightarrow> bool" where
  "printed_parts s i f \<longleftrightarrow> s = i @ ''.'' @ f \<and> CHR ''.'' \<notin> set i"

definition read_digits :: "string \<Rightarrow> nat option" where
  "read_digits s = (if list_all is_digit s then Some (decimal_value s) else None)"

section \<open>Hexadecimal text\<close>

lemma hex_digit_hexval: "i < length s \<Longrightarrow> hex_digit s i = hexval (s ! i)"
  by (simp add: hex_digit_def hexval_def char_at_def)

lemma hexval_zero: "hexval (CHR ''0'') = 0"
  by code_simp

lemma fromHex_loop_eq:
  "i \<le> length s \<Longrightarrow> even (length s - i) \<Longrightarrow>
   fromHex_loop s throw i ret =
     (case hex_bytes (drop i s) of Some bs \<Rightarrow> Inr (ret @ bs)
      | None \<Rightarrow> if throw = Throw then Inl BadHexCharacter else Inr [])"
proof (induction s throw i ret rule: fromHex_loop.induct)
  case (1 s throw i ret)
  show ?case
  proof (cases "i < length s")
    case True
    with "1.prems" have i1: "i + 1 < length s" by presburger
    have d: "drop i s = s ! i # s ! (i + 1) # drop (i + 2) s"
      using True i1 by (metis Cons_nth_drop_Suc Suc_eq_plus1 add_2_eq_Suc')
    have e: "i + 2 \<le> length s" "even (length s - (i + 2))" using "1.prems" i1 by simp_all
    note h = hex_digit_hexval [OF True] hex_digit_hexval [OF i1]
    show ?thesis
    proof (cases "hexval (s ! i) \<noteq> - 1 \<and> hexval (s ! (i + 1)) \<noteq> - 1")
      case ok: True
      then have "fromHex_loop s throw i ret =
        fromHex_loop s throw (i + 2) (ret @ [of_int (hexval (s ! i) * 16 + hexval (s ! (i + 1)))])"
        using True by (simp only: fromHex_loop.simps [of s throw i ret] h Let_def if_True simp_thms)
      also have "\<dots> = (case hex_bytes (drop (i + 2) s) of
          Some bs \<Rightarrow> Inr ((ret @ [of_int (hexval (s ! i) * 16 + hexval (s ! (i + 1)))]) @ bs)
        | None \<Rightarrow> if throw = Throw then Inl BadHexCharacter else Inr [])"
        using "1.IH" [OF True refl refl _ e, unfolded h] ok by (simp only: simp_thms)
      finally show ?thesis using ok by (simp add: d split: option.split)
    next
      case False
      with True show ?thesis by (simp only: fromHex_loop.simps [of s throw i ret] h Let_def d) auto
    qed
  next
    case False
    with "1.prems" show ?thesis by (simp add: fromHex_loop.simps)
  qed
qed

lemma starts_with_0x:
  "(char_at s 0 = CHR ''0'' \<and> char_at s 1 = CHR ''x'') = starts_with ''0x'' s"
proof (cases s)
  case (Cons c cs)
  then show ?thesis by (cases cs) (auto simp: char_at_def starts_with_def)
qed (simp add: char_at_def starts_with_def)

lemma fromHex_eq:
  "fromHex s throw =
     (case hex_bytes (pad_even (strip_0x s)) of Some bs \<Rightarrow> Inr bs
      | None \<Rightarrow> if throw = Throw then Inl BadHexCharacter else Inr [])"
proof -
  define k where "k = (if starts_with ''0x'' s then 2 else 0 :: nat)"
  have k: "k \<le> length s" "even k" "strip_0x s = drop k s"
    by (auto simp: k_def strip_0x_def starts_with_def dest: arg_cong [where f = length])
  show ?thesis
  proof (cases "odd (length s)")
    case True
    then have lt: "k < length s" using k by (metis le_neq_implies_less)
    then have d: "drop k s = s ! k # drop (k + 1) s" by (simp add: Cons_nth_drop_Suc)
    have "fromHex s throw = (if hexval (s ! k) \<noteq> - 1 then fromHex_loop s throw (k + 1) [of_int (hexval (s ! k))]
        else if throw = Throw then Inl BadHexCharacter else Inr [])"
      using True unfolding fromHex_def starts_with_0x k_def [symmetric] by (simp add: hex_digit_hexval [OF lt])
    moreover have "fromHex_loop s throw (k + 1) ret =
       (case hex_bytes (drop (k + 1) s) of Some bs \<Rightarrow> Inr (ret @ bs)
        | None \<Rightarrow> if throw = Throw then Inl BadHexCharacter else Inr [])" for ret
      using True k lt by (intro fromHex_loop_eq) simp_all
    moreover have "pad_even (strip_0x s) = CHR ''0'' # s ! k # drop (k + 1) s"
      using True k lt by (simp add: pad_even_def d)
    ultimately show ?thesis by (simp add: hexval_zero split: option.split)
  next
    case False
    then show ?thesis
      using k fromHex_loop_eq [of k s throw "[]"]
      unfolding fromHex_def starts_with_0x k_def [symmetric] pad_even_def by (simp add: Let_def split: option.split)
  qed
qed

lemma of_char_char_of: "of_char (char_of (n :: nat) :: char) = int n mod 256"
  by (metis of_char_of of_nat_mod of_nat_numeral of_nat_of_char)

lemma hexval_digit: "d < 16 \<Longrightarrow> hexval (digit_char d) = int d"
  by (auto simp: digit_char_def hexval_def fromHex_char_def of_char_char_of)

lemma digit_not_x: "d < 16 \<Longrightarrow> digit_char d \<noteq> CHR ''x''"
  by (auto simp: digit_char_def dest!: arg_cong [where f = "of_char :: char \<Rightarrow> nat"])

lemma digit_char_0: "digit_char 0 = CHR ''0''"
  by code_simp

lemma setw_2: "n < 256 \<Longrightarrow> setw_fill 2 (nat_to_base 16 n) = [digit_char (n div 16), digit_char (n mod 16)]"
  using less_mult_imp_div_less [of n 16 16]
  by (cases "n < 16") (simp_all add: setw_fill_def nat_to_base.simps [of 16 n] nat_to_base.simps [of 16 "n div 16"] digit_char_0)

lemma map_enumerate: "map (\<lambda>(k, x). f x) (enumerate n xs) = map f xs"
  by (induction xs arbitrary: n) simp_all

lemma unat_u8_less: "unat (b :: u8) < 256"
  using unsigned_less [of b] by simp

lemma toHex_eq: "toHex bs 2 prefix = add_prefix prefix (hex_of_bytes bs)"
  using map_enumerate [of "\<lambda>i. setw_fill 2 (nat_to_base 16 (unat i))" 0 bs]
  by (simp add: toHex_def hex_of_bytes_def setw_2 [OF unat_u8_less])

lemma hex_bytes_of_bytes: "hex_bytes (hex_of_bytes bs) = Some bs"
proof (induction bs)
  case (Cons b bs)
  have h: "hexval (digit_char (unat b div 16)) = int (unat b div 16)"
    "hexval (digit_char (unat b mod 16)) = int (unat b mod 16)"
    using less_mult_imp_div_less [of "unat b" 16 16] unat_u8_less [of b] by (simp_all add: hexval_digit)
  have "int (unat b div 16 * 16 + unat b mod 16) = int (unat b)" by (simp only: div_mult_mod_eq)
  then have "int (unat b div 16) * 16 + int (unat b mod 16) = int (unat b)"
    by (simp only: of_nat_add of_nat_mult of_nat_numeral)
  then have "of_int (hexval (digit_char (unat b div 16)) * 16 + hexval (digit_char (unat b mod 16))) = b"
    by (simp only: h) simp
  moreover have "hexval (digit_char (unat b div 16)) \<noteq> - 1" "hexval (digit_char (unat b mod 16)) \<noteq> - 1"
    by (simp_all add: h)
  moreover have "hex_of_bytes (b # bs) = digit_char (unat b div 16) # digit_char (unat b mod 16) # hex_of_bytes bs"
    by (simp add: hex_of_bytes_def)
  ultimately show ?case using Cons by (simp only: hex_bytes.simps) simp
qed (simp add: hex_of_bytes_def)

lemma even_hex_of_bytes: "even (length (hex_of_bytes bs))"
  by (induction bs) (simp_all add: hex_of_bytes_def)

lemma strip_prefix: "strip_0x (add_prefix prefix (hex_of_bytes bs)) = hex_of_bytes bs"
proof (cases bs)
  case (Cons b bs')
  have "digit_char (unat b mod 16) \<noteq> CHR ''x''" by (simp add: digit_not_x)
  then show ?thesis by (simp add: Cons strip_0x_def add_prefix_def starts_with_def hex_of_bytes_def)
qed (simp add: strip_0x_def add_prefix_def starts_with_def hex_of_bytes_def)

lemma fromHex_toHex: "fromHex (toHex bs 2 prefix) throw = Inr bs"
  using even_hex_of_bytes [of bs] by (simp add: fromHex_eq toHex_eq strip_prefix pad_even_def hex_bytes_of_bytes)


section \<open>Big-endian conversion\<close>

lemma length_be_bytes [simp]: "length (be_bytes n v) = n"
  by (induction n arbitrary: v) simp_all

lemma toBigEndian_loop_eq: "n \<le> length out \<Longrightarrow> toBigEndian_loop n v out = be_bytes n v @ drop n out"
proof (induction n v out rule: toBigEndian_loop.induct)
  case (2 i val out)
  have "drop i (out[i := x]) = x # drop (Suc i) out" for x
    using 2 by (simp add: drop_update_swap Cons_nth_drop_Suc [symmetric])
  with 2 show ?case by simp
qed simp

lemma toBigEndian_eq: "toBigEndian v out = be_bytes (length out) v"
  by (simp add: toBigEndian_def toBigEndian_loop_eq)

lemma be_value_be_bytes: "be_value (be_bytes n v) = int (v mod 256 ^ n)"
proof (induction n arbitrary: v)
  case (Suc n)
  have "uint (of_nat (v mod 256) :: u8) = int (v mod 256)" by (simp add: uint_word_of_int_eq unsigned_of_nat take_bit_nat_eq_self)
  moreover have "v mod 256 ^ Suc n = 256 * (v div 256 mod 256 ^ n) + v mod 256"
    by (simp only: power_Suc mod_mult2_eq)
  ultimately show ?case by (simp only: be_bytes.simps be_value_append Suc) simp
qed simp

lemma be_bytes_be_value: "be_bytes (length bs) (nat (be_value bs)) = bs"
  using be_value_inj [of "be_bytes (length bs) (nat (be_value bs))" bs] be_value_bounds [of bs]
  by (simp add: be_value_be_bytes nat_mod_as_int)

lemma shift_or_byte: "push_bit 8 r OR unat (b :: u8) = r * 256 + unat b"
proof -
  have "push_bit 8 r OR unat b = push_bit 8 r + unat b"
  proof (rule disjunctive_add [symmetric])
    fix n
    show "\<not> bit (push_bit 8 r) n \<or> \<not> bit (unat b) n"
      using bit_imp_le_length [of b n] by (cases "8 \<le> n") (auto simp: bit_push_bit_iff bit_unsigned_iff)
  qed
  then show ?thesis by (simp add: push_bit_eq_mult)
qed

lemma fromBigEndian_eq: "int (fromBigEndian w bs) = be_value bs mod 2 ^ w"
proof (induction bs rule: rev_induct)
  case (snoc b bs)
  have "fromBigEndian w (bs @ [b]) = (fromBigEndian w bs * 256 + unat b) mod 2 ^ w"
    by (simp add: fromBigEndian_def shift_or_byte take_bit_eq_mod)
  then have "int (fromBigEndian w (bs @ [b])) = (int (fromBigEndian w bs) * 256 + uint b) mod 2 ^ w"
    by (simp add: of_nat_mod)
  also have "\<dots> = (be_value bs * 256 + uint b) mod 2 ^ w" unfolding snoc by (metis mod_add_cong mod_mult_left_eq)
  finally show ?case by (simp add: be_value_append)
qed (simp add: fromBigEndian_def)

lemma big_endian_roundtrip:
  assumes "8 * n \<le> w"
  shows "fromBigEndian w (toBigEndian v (replicate n 0)) = v mod 256 ^ n"
    and "length bs = n \<Longrightarrow> toBigEndian (fromBigEndian w bs) (replicate n 0) = bs"
proof -
  have p: "(256 :: nat) ^ n = 2 ^ (8 * n)" by (simp add: power_mult)
  have le: "(2 :: nat) ^ (8 * n) \<le> 2 ^ w" using assms by (intro power_increasing) simp_all
  show "fromBigEndian w (toBigEndian v (replicate n 0)) = v mod 256 ^ n"
  proof -
    have "v mod 256 ^ n < 2 ^ w" using p le by (metis mod_less_divisor order_less_le_trans zero_less_numeral zero_less_power)
    then have "int (v mod 256 ^ n) mod 2 ^ w = int (v mod 256 ^ n)" by (metis mod_less of_nat_mod of_nat_numeral of_nat_power)
    then show ?thesis using fromBigEndian_eq [of w "be_bytes n v"]
      by (simp add: toBigEndian_eq be_value_be_bytes)
  qed
  show "toBigEndian (fromBigEndian w bs) (replicate n 0) = bs" if l: "length bs = n"
  proof -
    have "be_value bs < 2 ^ w" using be_value_bounds [of bs] p le l by (metis (mono_tags, lifting) of_nat_le_iff of_nat_numeral of_nat_power order_less_le_trans)
    then have "int (fromBigEndian w bs) = be_value bs" using fromBigEndian_eq [of w bs] be_value_bounds [of bs] by simp
    then have "fromBigEndian w bs = nat (be_value bs)" by linarith
    then show ?thesis using be_bytes_be_value [of bs] l by (simp add: toBigEndian_eq)
  qed
qed

lemma bytesRequired_bounds: "v < 256 ^ bytesRequired v \<and> (v \<noteq> 0 \<longrightarrow> 256 ^ (bytesRequired v - 1) \<le> v)"
proof (induction v rule: bytesRequired.induct)
  case (1 v)
  show ?case
  proof (cases "v = 0")
    case False
    note IH = "1.IH" [OF False]
    have r: "bytesRequired v = Suc (bytesRequired (v div 256))" using False by (simp add: bytesRequired.simps)
    have "v < 256 ^ Suc (bytesRequired (v div 256))" using IH by (simp add: div_less_iff_less_mult)
    moreover have "256 ^ bytesRequired (v div 256) \<le> v"
    proof (cases "v div 256 = 0")
      case True
      then show ?thesis using False by (simp add: bytesRequired.simps)
    next
      case d: False
      then have "bytesRequired (v div 256) = Suc (bytesRequired (v div 256) - 1)" by (simp add: bytesRequired.simps)
      moreover have "256 ^ (bytesRequired (v div 256) - 1) \<le> v div 256" using IH d by simp
      then have "256 * 256 ^ (bytesRequired (v div 256) - 1) \<le> v" by (simp add: less_eq_div_iff_mult_less_eq mult.commute)
      ultimately show ?thesis by (metis power_Suc)
    qed
    ultimately show ?thesis using r by simp
  qed (simp add: bytesRequired.simps)
qed

lemma toCompactBigEndian_eq:
  "be_value (toCompactBigEndian v mn) = int v \<and>
   length (toCompactBigEndian v mn) = max mn (bytesRequired v)"
proof -
  have "v < 256 ^ bytesRequired v" using bytesRequired_bounds by blast
  also have "\<dots> \<le> 256 ^ max mn (bytesRequired v)" by (intro power_increasing) simp_all
  finally show ?thesis by (simp add: toCompactBigEndian_def toBigEndian_eq be_value_be_bytes)
qed

text \<open>
  Big-endian conversion is a round trip when the integer type is wide enough: a number is recovered modulo the
  size of the buffer, a buffer exactly; the compact form denotes the number in the least number of bytes.
\<close>
theorem big_endian_codec:
  assumes "8 * n \<le> w" and "length bs = n"
  shows "fromBigEndian w (toBigEndian v (replicate n 0)) = v mod 256 ^ n \<and>
    toBigEndian (fromBigEndian w bs) (replicate n 0) = bs \<and>
    be_value (toCompactBigEndian v mn) = int v \<and>
    length (toCompactBigEndian v mn) = max mn (bytesRequired v) \<and>
    v < 256 ^ bytesRequired v \<and> (v = 0 \<or> 256 ^ (bytesRequired v - 1) \<le> v)"
  using big_endian_roundtrip [OF assms(1)] assms(2) toCompactBigEndian_eq bytesRequired_bounds [of v] by blast

theorem big_endian_codec_witness:
  "fromBigEndian 64 (toBigEndian 258 (replicate 2 0)) = 258 mod 256 ^ 2 \<and>
   toBigEndian (fromBigEndian 64 [1, 2]) (replicate 2 0) = [1, 2]"
  using big_endian_codec [of 2 64 "[1, 2]" 258] by simp

section \<open>Units\<close>

lemma scale_loop_eq:
  assumes "scale_loop d n v i = (w, j)" and "0 < d"
  shows "i \<le> j \<and> v = w * d ^ (j - i) \<and> (w \<le> d \<or> \<not> j \<le> n - 1) \<and> (i < j \<longrightarrow> 1 < w \<and> j - 1 \<le> n - 1)"
  using assms
proof (induction d n v i rule: scale_loop.induct)
  case (1 d n v i)
  show ?case
  proof (cases "v > d \<and> i \<le> n - 1")
    case True
    with "1.prems" have r: "scale_loop d n (v / d) (i + 1) = (w, j)" by (simp add: scale_loop.simps [of d n v i])
    note IH = "1.IH" [OF True r "1.prems"(2)]
    have ij: "i + 1 \<le> j" using IH by blast
    have "v = w * d ^ (j - i)"
    proof -
      have "v = w * d ^ (j - (i + 1)) * d" using IH "1.prems"(2) by (simp add: field_simps)
      also have "\<dots> = w * d ^ Suc (j - (i + 1))" by simp
      also have "Suc (j - (i + 1)) = j - i" using ij by arith
      finally show ?thesis .
    qed
    moreover have "1 < w \<and> j - 1 \<le> n - 1"
    proof (cases "j = i + 1")
      case j: True
      with IH have "v / d = w" by simp
      with True "1.prems"(2) j show ?thesis by (auto simp: field_simps)
    next
      case False
      with IH show ?thesis by simp
    qed
    ultimately show ?thesis using IH by simp
  next
    case False
    then have "scale_loop d n v i = (v, i)" by (simp only: scale_loop.simps [of d n v i] if_False)
    with "1.prems" have "w = v" "j = i" by simp_all
    with False show ?thesis by auto
  qed
qed

lemma getScaledSize_spec:
  assumes "1 < d" and "0 \<le> v" and "sizes \<noteq> []"
  shows "(\<exists>i w. v = w * d ^ i \<and> (i = 0 \<or> 1 < w) \<and> (w \<le> d) \<and> i < length sizes \<and>
            getScaledSize v d p sizes SuffixAdd = Some (format_fixed p w @ '' '' @ sizes ! i)) \<or>
         (d ^ length sizes < v \<and> getScaledSize v d p sizes SuffixAdd = None)"
proof -
  obtain w i where l: "scale_loop d (length sizes) v 0 = (w, i)" by fastforce
  have n: "0 < length sizes" using assms(3) by simp
  have s: "v = w * d ^ i" "w \<le> d \<or> \<not> i \<le> length sizes - 1" "i = 0 \<or> 1 < w \<and> i - 1 \<le> length sizes - 1"
    using scale_loop_eq [OF l] assms(1) by auto
  show ?thesis
  proof (cases "i < length sizes")
    case True
    with s l n show ?thesis by (intro disjI1 exI [of _ i] exI [of _ w]) (auto simp: getScaledSize_def)
  next
    case False
    with s(3) n have w: "1 < w" and "i - 1 \<le> length sizes - 1" by auto
    with False n have i: "i = length sizes" by arith
    then have "d ^ length sizes < v" using s(1) w assms(1) by simp
    with False l show ?thesis by (simp add: getScaledSize_def)
  qed
qed

lemma getScaledSize_None:
  assumes "1 < d" and "0 \<le> v" and "sizes \<noteq> []"
  shows "getScaledSize v d p sizes SuffixAdd = None \<longleftrightarrow> d ^ length sizes < v"
proof -
  have le: "w * d ^ i \<le> d ^ length sizes" if "w \<le> d" "i < length sizes" for w i
  proof -
    have "w * d ^ i \<le> d * d ^ i" using that assms(1) by (intro mult_right_mono) simp_all
    also have "\<dots> = d ^ Suc i" by simp
    also have "\<dots> \<le> d ^ length sizes" using that assms(1) by (intro power_increasing) simp_all
    finally show ?thesis .
  qed
  from getScaledSize_spec [OF assms, of p] show ?thesis
  proof
    assume "\<exists>i w. v = w * d ^ i \<and> (i = 0 \<or> 1 < w) \<and> (w \<le> d) \<and> i < length sizes \<and>
            getScaledSize v d p sizes SuffixAdd = Some (format_fixed p w @ '' '' @ sizes ! i)"
    then obtain i w where "v = w * d ^ i" "w \<le> d" "i < length sizes" "getScaledSize v d p sizes SuffixAdd \<noteq> None" by auto
    with le [of w i] show ?thesis by simp
  qed simp
qed

text \<open>
  The scaled value and its unit multiply to the quantity; for more than \<open>1000 ^ 4\<close> hashes or \<open>1024 ^ 4\<close> bytes
  the code reads past the end of the array of units.
\<close>
theorem formatted_quantities:
  assumes "0 \<le> v"
  shows "(getFormattedHashes v SuffixAdd p = None \<longleftrightarrow> 1000 ^ 4 < v) \<and>
    (getFormattedMemory v SuffixAdd p = None \<longleftrightarrow> 1024 ^ 4 < v) \<and>
    (v \<le> 1000 ^ 4 \<longrightarrow> (\<exists>i w. v = w * 1000 ^ i \<and> (i = 0 \<or> 1 < w) \<and> w \<le> 1000 \<and> i < 4 \<and>
      getFormattedHashes v SuffixAdd p = Some (format_fixed p w @ '' '' @ [''h'', ''Kh'', ''Mh'', ''Gh''] ! i)))"
proof (intro conjI impI)
  show h: "getFormattedHashes v SuffixAdd p = None \<longleftrightarrow> 1000 ^ 4 < v"
    unfolding getFormattedHashes_def using assms by (subst getScaledSize_None) simp_all
  show "getFormattedMemory v SuffixAdd p = None \<longleftrightarrow> 1024 ^ 4 < v"
    unfolding getFormattedMemory_def using assms by (subst getScaledSize_None) simp_all
  assume "v \<le> 1000 ^ 4"
  with h have "getFormattedHashes v SuffixAdd p \<noteq> None" by simp
  with getScaledSize_spec [of 1000 v "[''h'', ''Kh'', ''Mh'', ''Gh'']" p] assms
  show "\<exists>i w. v = w * 1000 ^ i \<and> (i = 0 \<or> 1 < w) \<and> w \<le> 1000 \<and> i < 4 \<and>
      getFormattedHashes v SuffixAdd p = Some (format_fixed p w @ '' '' @ [''h'', ''Kh'', ''Mh'', ''Gh''] ! i)"
    unfolding getFormattedHashes_def by (simp add: eval_nat_numeral)
qed

theorem formatted_quantities_witness:
  "getFormattedHashes (2 * 1000 ^ 4) SuffixAdd 2 = None \<and>
   (\<exists>i w. 25000000 = w * 1000 ^ i \<and> (i = 0 \<or> 1 < w) \<and> w \<le> 1000 \<and> i < 4 \<and>
      getFormattedHashes 25000000 SuffixAdd 2 = Some (format_fixed 2 w @ '' '' @ [''h'', ''Kh'', ''Mh'', ''Gh''] ! i))"
  using formatted_quantities [of "2 * 1000 ^ 4" 2] formatted_quantities [of 25000000 2] by simp

section \<open>Targets\<close>

lemma find_from_char: "c \<notin> set a \<Longrightarrow> find_from i [c] (a @ c # b) = Some (i + length a)"
  by (induction a arbitrary: i) (auto simp: starts_with_def)

lemma set_nat_to_base: "1 < b \<Longrightarrow> set (nat_to_base b n) \<subseteq> digit_char ` {..<b}"
proof (induction b n rule: nat_to_base.induct)
  case (1 b n)
  show ?case
  proof (cases "n < b")
    case True
    then show ?thesis by (simp add: nat_to_base.simps [of b n])
  next
    case False
    then have "\<not> (b \<le> 1 \<or> n < b)" using "1.prems" by simp
    with "1.IH" "1.prems" show ?thesis by (simp add: nat_to_base.simps [of b n])
  qed
qed

lemma is_digit_digit_char: "d < 10 \<Longrightarrow> is_digit (digit_char d)"
  by (simp add: is_digit_def of_char_digit)

lemma to_string_digits: "list_all is_digit (to_string n)"
  using set_nat_to_base [of 10 n] is_digit_digit_char by (auto simp: to_string_def list_all_iff)

lemma to_lower_digit: "d < 16 \<Longrightarrow> to_lower_char (digit_char d) = digit_char d"
  by (auto simp: to_lower_char_def digit_char_def Let_def)

lemma to_lower_hex: "to_lower (add_prefix p (setw_fill w (nat_to_base 16 n))) = add_prefix p (setw_fill w (nat_to_base 16 n))"
proof -
  have "map to_lower_char (nat_to_base 16 n) = nat_to_base 16 n"
    using set_nat_to_base [of 16 n] to_lower_digit by (auto intro!: map_idI)
  moreover have "to_lower_char (CHR ''0'') = CHR ''0''" "to_lower_char (CHR ''x'') = CHR ''x''" by code_simp+
  ultimately show ?thesis by (simp add: to_lower_def add_prefix_def setw_fill_def)
qed

lemma decimal_value_dropWhile: "decimal_value (dropWhile (\<lambda>c. c = CHR ''0'') f) = decimal_value f"
  by (induction f) auto

lemma decimal_value_power: "decimal_value (CHR ''1'' # replicate n (CHR ''0'')) = 10 ^ n"
proof -
  have "fold (\<lambda>c v. 10 * v + (of_char c - 48)) (replicate n (CHR ''0'')) v = 10 ^ n * v" for v :: nat
    by (induction n arbitrary: v) (simp_all add: algebra_simps)
  then show ?thesis by simp
qed

lemma floor_split:
  fixes b :: int and F P :: nat
  assumes "0 < P"
  shows "\<lfloor>of_int b * (real i + real F / real P)\<rfloor> = b * int i + b * int F div int P"
proof -
  have "of_int b * (real i + real F / real P) = of_int (b * int i) + of_int (b * int F) / of_int (int P)"
    by (simp add: algebra_simps)
  then show ?thesis
    using floor_divide_of_int_eq [of "b * int F" "int P", where 'a = real] by (simp del: of_int_mult)
qed

lemma printed_parts_find:
  assumes "printed_parts s i f"
  shows "string_find s ''.'' = Some (length i)" and "length s - Suc (length i) = length f"
    and "drop (Suc (length i)) s = f"
  using assms find_from_char [of "CHR ''.''" i 0 f] by (auto simp: printed_parts_def string_find_def)

lemma to_string_no_dot: "CHR ''.'' \<notin> set (to_string n)"
proof
  assume "CHR ''.'' \<in> set (to_string n)"
  then have "is_digit (CHR ''.'')" using to_string_digits by (auto simp: list_all_iff)
  then show False by (simp add: is_digit_def)
qed

lemma reads_power:
  assumes "reads_decimals BigInteger"
  shows "BigInteger (CHR ''1'' # replicate n (CHR ''0'')) = Some (10 ^ n)"
proof -
  have "list_all is_digit (CHR ''1'' # replicate n (CHR ''0''))" by (simp add: is_digit_def list_all_iff)
  moreover have "hd (CHR ''1'' # replicate n (CHR ''0'')) \<noteq> CHR ''0''" by simp
  ultimately show ?thesis using assms decimal_value_power [of n] unfolding reads_decimals_def by metis
qed

lemma hd_no_zero: "dropWhile (\<lambda>c. c = CHR ''0'') f \<noteq> [] \<Longrightarrow> hd (dropWhile (\<lambda>c. c = CHR ''0'') f) \<noteq> CHR ''0''"
  using hd_dropWhile [of "\<lambda>c. c = CHR ''0''" f] by blast

lemma digits_dropWhile: "list_all is_digit (dropWhile (\<lambda>c. c = CHR ''0'') f) \<longleftrightarrow> list_all is_digit f"
  by (induction f) (simp_all add: is_digit_def)

text \<open>
  The target of a difficulty is the target of difficulty 1 times the printed reciprocal, rounded down, as 64
  hexadecimal digits.
\<close>
theorem target_from_difficulty:
  assumes "0 < diff" and "reads_decimals BigInteger"
    and "printed_parts (lexical_cast (1 / diff)) (to_string (nat \<lfloor>1 / diff\<rfloor>)) f" and "list_all is_digit f"
  shows "getTargetFromDiff lexical_cast BigInteger diff prefix =
    Inr (add_prefix prefix (setw_fill 64 (nat_to_base 16 (nat
       \<lfloor>of_int target_base * (real (nat \<lfloor>1 / diff\<rfloor>) + real (decimal_value f) / 10 ^ length f)\<rfloor>))))"
proof -
  have pos: "0 \<le> 1 / diff" using assms(1) by simp
  have "BigInteger (dropWhile (\<lambda>c. c = CHR ''0'') f) = Some (decimal_value f)"
    using assms(2,4) digits_dropWhile [of f] hd_no_zero [of f] decimal_value_dropWhile [of f] unfolding reads_decimals_def by metis
  moreover have "cdiv (target_base * int m) (10 ^ n) = target_base * int m div 10 ^ n" for m n
    by (rule cdiv_nonneg) (simp_all add: target_base_def)
  moreover note floor_split [of "10 ^ length f" target_base "nat \<lfloor>1 / diff\<rfloor>" "decimal_value f"]
  moreover have "0 \<le> target_base * \<lfloor>1 / diff\<rfloor> + target_base * int (decimal_value f) div 10 ^ length f"
    using pos by (intro add_nonneg_nonneg mult_nonneg_nonneg pos_imp_zdiv_nonneg_iff [THEN iffD2]) (simp_all add: target_base_def)
  ultimately show ?thesis
    using assms(1) pos printed_parts_find [OF assms(3)] reads_power [OF assms(2)]
    unfolding getTargetFromDiff_def target_base_def [symmetric]
    by (simp add: Let_def to_lower_hex del: decimal_value.simps)
qed

lemma reads_read_digits: "reads_decimals read_digits"
  by (simp add: reads_decimals_def read_digits_def del: decimal_value.simps)

theorem target_from_difficulty_witness:
  "getTargetFromDiff (\<lambda>_. ''0.25'') read_digits 4 PrefixAdd =
     Inr (add_prefix PrefixAdd (setw_fill 64 (nat_to_base 16 (nat \<lfloor>of_int target_base * (real 0 + real 25 / 10 ^ 2)\<rfloor>))))"
proof -
  have z: "to_string 0 = ''0''" by (simp add: to_string_def nat_to_base.simps digit_char_0)
  have "\<lfloor>1 / 4 :: real\<rfloor> = 0" by linarith
  moreover have "printed_parts ''0.25'' ''0'' ''25''" by (simp add: printed_parts_def)
  moreover have "list_all is_digit ''25''" by (simp add: is_digit_def)
  moreover have "decimal_value ''25'' = 25" by code_simp
  ultimately show ?thesis
    using target_from_difficulty [of 4 read_digits "\<lambda>_. ''0.25''" "''25''" PrefixAdd] reads_read_digits z
    by (simp del: decimal_value.simps)
qed



end
