(* ===== verification/FixedHash.thy ===== *)
theory FixedHash
  imports CommonData
begin

text \<open>
  The fixed-size byte arrays of \<open>src/libdevcore/FixedHash.h\<close>, on which headers, boundaries and hashes
  are kept: a list of bytes whose length is the template parameter, passed as the first argument
  where a hash is constructed.
\<close>

section \<open>Construction\<close>

datatype ConstructFromHashType = AlignLeft | AlignRight | FailIfDifferent

definition hash_empty :: "nat \<Rightarrow> u8 list" where
  "hash_empty N = replicate N 0"

definition copy_step :: "nat \<Rightarrow> u8 list \<Rightarrow> ConstructFromHashType \<Rightarrow> nat \<Rightarrow> u8 list \<Rightarrow> u8 list" where
  "copy_step N b t i m_data =
     m_data[(if t = AlignRight then N - 1 - i else i) := b ! (if t = AlignRight then length b - 1 - i else i)]"

definition hash_from_hash :: "nat \<Rightarrow> u8 list \<Rightarrow> ConstructFromHashType \<Rightarrow> u8 list" where
  "hash_from_hash N h t =
     (let c = min (length h) N in fold (copy_step N h t) [0..<c] (replicate N 0))"

definition hash_from_bytes :: "nat \<Rightarrow> u8 list \<Rightarrow> ConstructFromHashType \<Rightarrow> u8 list" where
  "hash_from_bytes N b t =
     (if length b = N then b
      else if t \<noteq> FailIfDifferent then
        let c = min (length b) N in fold (copy_step N b t) [0..<c] (replicate N 0)
      else replicate N 0)"

definition hash_from_arith :: "nat \<Rightarrow> nat \<Rightarrow> u8 list" where
  "hash_from_arith N v = toBigEndian v (replicate N 0)"

definition hash_from_string :: "nat \<Rightarrow> string \<Rightarrow> hex_error + u8 list" where
  "hash_from_string N s =
     (case fromHex s Throw of Inl e \<Rightarrow> Inl e | Inr b \<Rightarrow> Inr (hash_from_bytes N b FailIfDifferent))"

definition hash_arith :: "u8 list \<Rightarrow> nat" where
  "hash_arith h = fromBigEndian (8 * length h) h"

definition hash_bool :: "u8 list \<Rightarrow> bool" where
  "hash_bool h = list_ex (\<lambda>b. b \<noteq> 0) h"

section \<open>Comparison\<close>

fun hash_less :: "u8 list \<Rightarrow> u8 list \<Rightarrow> bool" where
  "hash_less (x # xs) (y # ys) = (if x < y then True else if x > y then False else hash_less xs ys)"
| "hash_less _ _ = False"

definition hash_ge :: "u8 list \<Rightarrow> u8 list \<Rightarrow> bool" where
  "hash_ge a b = (\<not> hash_less a b)"

definition hash_le :: "u8 list \<Rightarrow> u8 list \<Rightarrow> bool" where
  "hash_le a b = (a = b \<or> hash_less a b)"

definition hash_gt :: "u8 list \<Rightarrow> u8 list \<Rightarrow> bool" where
  "hash_gt a b = (\<not> hash_le a b)"

text \<open>The equality of 256-bit hashes compares four 64-bit words read from memory.\<close>

definition word64_of_bytes :: "u8 list \<Rightarrow> u64" where
  "word64_of_bytes bs = foldr (\<lambda>b v. push_bit 8 v OR ucast b) bs 0"

definition hash1_word :: "u8 list \<Rightarrow> nat \<Rightarrow> u64" where
  "hash1_word h i = word64_of_bytes (slice 8 i h)"

definition h256_eq :: "u8 list \<Rightarrow> u8 list \<Rightarrow> bool" where
  "h256_eq a b =
     (hash1_word a 0 = hash1_word b 0 \<and> hash1_word a 1 = hash1_word b 1 \<and>
      hash1_word a 2 = hash1_word b 2 \<and> hash1_word a 3 = hash1_word b 3)"

section \<open>Arithmetic\<close>

definition hash_xor :: "u8 list \<Rightarrow> u8 list \<Rightarrow> u8 list" where
  "hash_xor a b = map2 (XOR) a b"

definition hash_or :: "u8 list \<Rightarrow> u8 list \<Rightarrow> u8 list" where
  "hash_or a b = map2 (OR) a b"

definition hash_and :: "u8 list \<Rightarrow> u8 list \<Rightarrow> u8 list" where
  "hash_and a b = map2 (AND) a b"

definition hash_not :: "u8 list \<Rightarrow> u8 list" where
  "hash_not a = map NOT a"

fun hash_incr_loop :: "nat \<Rightarrow> u8 list \<Rightarrow> u8 list" where
  "hash_incr_loop 0 h = h"
| "hash_incr_loop (Suc i) h =
     (let h = h[i := h ! i + 1] in if h ! i = 0 then hash_incr_loop i h else h)"

definition hash_incr :: "u8 list \<Rightarrow> u8 list" where
  "hash_incr h = hash_incr_loop (length h) h"

section \<open>Text\<close>

definition hash_hex :: "u8 list \<Rightarrow> HexPrefix \<Rightarrow> string" where
  "hash_hex h prefix = toHex h 2 prefix"

definition k_ellipsis :: string where
  "k_ellipsis = [CHR 0xE2, CHR 0x80, CHR 0xA6]"

definition hash_abridged :: "u8 list \<Rightarrow> string" where
  "hash_abridged h = toHex (take 4 h) 2 PrefixDontAdd @ k_ellipsis"

definition hash_print :: "u8 list \<Rightarrow> string" where
  "hash_print h = concat (map (\<lambda>b. setw_fill 2 (nat_to_base 16 (unat b))) h)"

section \<open>Bytes and numbers\<close>

lemma hash_less_iff: "length a = length b \<Longrightarrow> hash_less a b \<longleftrightarrow> be_value a < be_value b"
proof (induction a b rule: list_induct2)
  case (Cons x xs y ys)
  let ?p = "256 ^ length xs :: int"
  have b: "0 \<le> be_value xs" "be_value xs < ?p" "0 \<le> be_value ys" "be_value ys < ?p"
    using be_value_bounds [of xs] be_value_bounds [of ys] Cons.hyps by auto
  have lt: "u * ?p + r < v * ?p + s" if "u < v" "r < ?p" "0 \<le> s" for u v r s :: int
  proof -
    have "(u + 1) * ?p \<le> v * ?p" using that by (intro mult_right_mono) auto
    then show ?thesis using that by (simp add: algebra_simps)
  qed
  have v: "be_value (x # xs) = uint x * ?p + be_value xs" "be_value (y # ys) = uint y * ?p + be_value ys"
    using Cons.hyps by (simp_all add: be_value_Cons)
  show ?case
  proof (cases x y rule: linorder_cases)
    case less
    then have "be_value (x # xs) < be_value (y # ys)" unfolding v using b by (intro lt) (simp_all add: word_less_def)
    with less show ?thesis by simp
  next
    case equal
    then show ?thesis using Cons.IH v by simp
  next
    case greater
    then have "be_value (y # ys) < be_value (x # xs)" unfolding v using b by (intro lt) (simp_all add: word_less_def)
    with greater show ?thesis by (simp add: not_less_iff_gr_or_eq)
  qed
qed simp

lemma word64_of_bytes_inj:
  assumes "length xs \<le> 8" and "length xs = length ys"
  shows "word64_of_bytes xs = word64_of_bytes ys \<longleftrightarrow> xs = ys"
proof -
  have u: "uint (word64_of_bytes zs) = be_value (rev zs)" if "length zs \<le> 8" for zs
    using uint_fold_bytes [of "rev zs"] that by (simp add: word64_of_bytes_def foldr_conv_fold)
  show ?thesis
    using u [of xs] u [of ys] be_value_inj [of "rev xs" "rev ys"] assms by (metis length_rev rev_is_rev_conv)
qed

lemma slices_4:
  assumes "length a = 32"
  shows "a = slice 8 0 a @ slice 8 1 a @ slice 8 2 a @ slice 8 3 a"
proof -
  have "take 8 a @ take 8 (drop 8 a) @ take 8 (drop 16 a) @ take 8 (drop 24 a) = take 32 a"
    using take_add [of 8 8 a] take_add [of 16 8 a] take_add [of 24 8 a] by simp
  with assms show ?thesis by (simp add: slice_def)
qed

lemma h256_eq_iff:
  assumes "length a = 32" and "length b = 32"
  shows "h256_eq a b \<longleftrightarrow> a = b"
proof
  assume e: "h256_eq a b"
  have "slice 8 i a = slice 8 i b" if "hash1_word a i = hash1_word b i" "i < 4" for i
    using that assms word64_of_bytes_inj [of "slice 8 i a" "slice 8 i b"] length_slice [of 8 4 a i] length_slice [of 8 4 b i]
    by (simp add: hash1_word_def)
  with e have "slice 8 0 a = slice 8 0 b" "slice 8 1 a = slice 8 1 b" "slice 8 2 a = slice 8 2 b" "slice 8 3 a = slice 8 3 b"
    unfolding h256_eq_def by auto
  then show "a = b" using slices_4 [OF assms(1)] slices_4 [OF assms(2)] by simp
qed (simp add: h256_eq_def)

lemma incr_loop:
  "i \<le> length h \<Longrightarrow> be_value (take i (hash_incr_loop i h)) = (be_value (take i h) + 1) mod 256 ^ i \<and>
     drop i (hash_incr_loop i h) = drop i h \<and> length (hash_incr_loop i h) = length h"
proof (induction i h rule: hash_incr_loop.induct)
  case (2 i h)
  let ?h = "h[i := h ! i + 1]"
  have t: "take (Suc i) xs = take i xs @ [xs ! i]" if "length xs = length h" for xs :: "u8 list"
    using "2.prems" that by (simp add: take_Suc_conv_app_nth)
  have v: "be_value (take (Suc i) h) = be_value (take i h) * 256 + uint (h ! i)"
    using t [of h] by (simp add: be_value_append)
  have b: "0 \<le> be_value (take i h)" "be_value (take i h) < 256 ^ i"
    using be_value_bounds [of "take i h"] "2.prems" by auto
  show ?case
  proof (cases "h ! i + 1 = 0")
    case True
    have "(uint (h ! i) + 1) mod 256 = 0" using arg_cong [OF True, of uint] by (simp add: uint_word_ariths)
    moreover have "0 \<le> uint (h ! i)" "uint (h ! i) < 256" using uint_lt2p [of "h ! i"] by simp_all
    ultimately have m: "uint (h ! i) = 255" by presburger
    let ?r = "hash_incr_loop i ?h"
    have IH: "be_value (take i ?r) = (be_value (take i h) + 1) mod 256 ^ i" "drop i ?r = drop i ?h" "length ?r = length h"
      using "2.IH" [OF refl] True "2.prems" by simp_all
    have "?r ! i = 0" using IH(2,3) True "2.prems" by (metis Suc_le_lessD hd_drop_conv_nth length_list_update nth_list_update_eq)
    then have "be_value (take (Suc i) ?r) = ((be_value (take i h) + 1) mod 256 ^ i) * 256"
      using t [of ?r] IH by (simp add: be_value_append)
    also have "\<dots> = (be_value (take (Suc i) h) + 1) mod 256 ^ Suc i" unfolding v m by (simp add: mult_mod_right algebra_simps)
    finally have 1: "be_value (take (Suc i) ?r) = (be_value (take (Suc i) h) + 1) mod 256 ^ Suc i" .
    have "drop (Suc i) ?r = drop 1 (drop i ?r)" by simp
    also have "\<dots> = drop (Suc i) h" unfolding IH(2) by simp
    finally have "drop (Suc i) ?r = drop (Suc i) h" .
    with 1 True IH "2.prems" show ?thesis by simp
  next
    case False
    have u: "uint (h ! i) < 256" using uint_lt2p [of "h ! i"] by simp
    have "uint (h ! i) \<noteq> 255"
    proof
      assume "uint (h ! i) = 255"
      then have "h ! i = 255" using word_of_int_uint [of "h ! i"] by simp
      with False show False by simp
    qed
    with u have "uint (h ! i + 1) = uint (h ! i) + 1" by (simp add: uint_word_ariths)
    then have "be_value (take (Suc i) ?h) = be_value (take (Suc i) h) + 1"
      using t [of ?h] "2.prems" unfolding v by (simp add: be_value_append)
    moreover have "be_value (take (Suc i) ?h) < 256 ^ Suc i" using be_value_bounds [of "take (Suc i) ?h"] "2.prems" by auto
    moreover have "0 \<le> be_value (take (Suc i) h)" using be_value_bounds by blast
    ultimately show ?thesis using False "2.prems" by (simp add: Let_def)
  qed
qed simp

lemma be_value_hash_incr: "be_value (hash_incr h) = (be_value h + 1) mod 256 ^ length h"
  and length_hash_incr [simp]: "length (hash_incr h) = length h"
  using incr_loop [of "length h" h] by (auto simp: hash_incr_def)

lemma hash_hex_roundtrip: "hash_from_string (length h) (hash_hex h prefix) = Inr h"
  by (simp add: hash_from_string_def hash_hex_def fromHex_toHex hash_from_bytes_def)

lemma hash_print_eq: "hash_print h = hash_hex h PrefixDontAdd"
  by (simp add: hash_print_def hash_hex_def toHex_eq hex_of_bytes_def add_prefix_def setw_2 [OF unat_u8_less])

lemma copy_left:
  "c \<le> length b \<Longrightarrow> c \<le> N \<Longrightarrow> t \<noteq> AlignRight \<Longrightarrow>
     fold (copy_step N b t) [0..<c] (replicate N 0) = take c b @ replicate (N - c) 0"
proof (induction c)
  case (Suc c)
  have "(take c b @ replicate (N - c) 0)[c := b ! c] = take (Suc c) b @ replicate (N - Suc c) 0"
  proof -
    have "N - c = Suc (N - Suc c)" using Suc.prems by arith
    then have "replicate (N - c) (0 :: u8) = 0 # replicate (N - Suc c) 0" by (simp only: replicate_Suc)
    then show ?thesis using Suc.prems by (simp add: list_update_append take_Suc_conv_app_nth)
  qed
  with Suc show ?case by (simp add: copy_step_def)
qed simp

lemma copy_right:
  "c \<le> length b \<Longrightarrow> c \<le> N \<Longrightarrow>
     fold (copy_step N b AlignRight) [0..<c] (replicate N 0) = replicate (N - c) 0 @ drop (length b - c) b"
proof (induction c)
  case (Suc c)
  have "(replicate (N - c) 0 @ drop (length b - c) b)[N - 1 - c := b ! (length b - 1 - c)] =
    replicate (N - Suc c) 0 @ drop (length b - Suc c) b"
  proof -
    have "N - c = Suc (N - Suc c)" using Suc.prems by arith
    then have "replicate (N - c) (0 :: u8) = replicate (N - Suc c) 0 @ [0]" by (simp only: replicate_Suc replicate_append_same)
    moreover have "drop (length b - Suc c) b = b ! (length b - Suc c) # drop (length b - c) b"
      using Suc.prems Cons_nth_drop_Suc [of "length b - Suc c" b] by (simp add: Suc_diff_Suc)
    ultimately show ?thesis using Suc.prems by (simp add: list_update_append)
  qed
  with Suc show ?case by (simp add: copy_step_def)
qed simp

lemma be_value_zeros: "be_value (replicate n 0 @ bs) = be_value bs"
  by (induction n) (simp_all add: be_value_Cons)

lemma hash_align_right:
  "length b \<le> N \<Longrightarrow> be_value (hash_from_bytes N b AlignRight) = be_value b \<and> length (hash_from_bytes N b AlignRight) = N"
  by (auto simp: hash_from_bytes_def copy_right min_def be_value_zeros)

section \<open>The operators\<close>

lemma hash_bool_iff: "hash_bool a \<longleftrightarrow> be_value a \<noteq> 0"
proof (induction a)
  case (Cons x xs)
  have "0 \<le> be_value xs" "0 \<le> uint x * 256 ^ length xs" using be_value_bounds [of xs] by simp_all
  then have "be_value (x # xs) = 0 \<longleftrightarrow> uint x * 256 ^ length xs = 0 \<and> be_value xs = 0"
    unfolding be_value_Cons by linarith
  with Cons show ?case by (simp add: hash_bool_def uint_0_iff)
qed (simp add: hash_bool_def)

text \<open>
  The comparison operators of 256-bit hashes order them as big-endian numbers; the equality on 64-bit words and
  the conversion to \<open>bool\<close> are equality and the test for a non-zero number.
\<close>
theorem hash_comparisons:
  assumes "length a = 32" and "length b = 32"
  shows "(h256_eq a b \<longleftrightarrow> be_value a = be_value b) \<and> (hash_less a b \<longleftrightarrow> be_value a < be_value b) \<and>
    (hash_le a b \<longleftrightarrow> be_value a \<le> be_value b) \<and> (hash_gt a b \<longleftrightarrow> be_value a > be_value b) \<and>
    (hash_ge a b \<longleftrightarrow> be_value a \<ge> be_value b) \<and> (hash_bool a \<longleftrightarrow> be_value a \<noteq> 0)"
  using assms hash_less_iff [of a b] be_value_inj [of a b] h256_eq_iff [of a b] hash_bool_iff [of a]
  by (auto simp: hash_le_def hash_gt_def hash_ge_def)

theorem hash_comparisons_witness:
  "hash_le (replicate 32 1) (replicate 32 2) \<longleftrightarrow> be_value (replicate 32 1) \<le> be_value (replicate 32 2)"
  using hash_comparisons [of "replicate 32 1" "replicate 32 2"] by simp

text \<open>
  Constructing a hash from text gives the bytes of the text when their number fits and the zero hash when it
  does not, and fails on a character that is not a digit; printing and reading is a round trip.
\<close>
theorem hash_text:
  "hash_from_string N s =
     (case hex_bytes (pad_even (strip_0x s)) of None \<Rightarrow> Inl BadHexCharacter
      | Some b \<Rightarrow> Inr (if length b = N then b else replicate N 0)) \<and>
   hash_from_string (length h) (hash_hex h prefix) = Inr h \<and>
   hash_from_string (length h) (hash_print h) = Inr h"
proof (intro conjI)
  show "hash_from_string N s =
     (case hex_bytes (pad_even (strip_0x s)) of None \<Rightarrow> Inl BadHexCharacter
      | Some b \<Rightarrow> Inr (if length b = N then b else replicate N 0))"
    by (simp add: hash_from_string_def fromHex_eq hash_from_bytes_def split: option.split)
qed (simp_all add: hash_hex_roundtrip hash_print_eq)

text \<open>
  Increment adds one modulo the size of the hash; the conversion to and from the arithmetic type is a round
  trip.
\<close>
theorem hash_arithmetic:
  "be_value (hash_incr h) = (be_value h + 1) mod 256 ^ length h \<and>
   int (hash_arith h) = be_value h \<and> hash_from_arith (length h) (hash_arith h) = h"
proof -
  have "int (hash_arith h) = be_value h mod 2 ^ (8 * length h)" by (simp add: hash_arith_def fromBigEndian_eq)
  then have "int (hash_arith h) = be_value h"
    using be_value_bounds [of h] by (simp add: power_mult)
  then show ?thesis
    using be_value_hash_incr big_endian_roundtrip(2) [of "length h" "8 * length h" h]
    by (simp add: hash_from_arith_def hash_arith_def)
qed

end
