(* ===== verification/Worker.thy ===== *)
theory Worker
  imports Prelude
begin

text \<open>
  The thread control of \<open>src/libdevcore/Worker.cpp\<close>. Two threads share the atomic \<open>m_state\<close>: the worker thread,
  whose body is the lambda in \<open>startWorking\<close>, and the thread that currently holds \<open>x_work\<close> in one of the
  control operations. Each is modelled by a program counter, each atomic access of \<open>m_state\<close> by a step. The
  work loop itself is a parameter of the class: it may return, or throw, at any time.
\<close>

section \<open>State\<close>

datatype WorkerState = Starting | Started | Stopping | Stopped | Killing

text \<open>
  The worker thread: it does not exist, tests the loop condition, tries to set \<open>Started\<close>, runs the work
  loop, exchanges the state with \<open>Stopped\<close>, has remembered the old state and may restore it, waits while
  the state is \<open>Stopped\<close>, or has left the loop.
\<close>

datatype worker_pc =
  NoThread | LoopTest | SetStarted | WorkLoop | SwapStopped | Restore WorkerState | WaitStopped | Exited

text \<open>
  The control thread: idle, waiting at the end of \<open>startWorking\<close>, waiting in \<open>stopWorking\<close>, joining in the
  destructor, or done with it.
\<close>

datatype control_pc = Idle | StartWait | StopWait | Join | Destroyed

record worker =
  m_state :: WorkerState
  m_work :: bool
  w_pc :: worker_pc
  w_ctl :: control_pc

definition worker_new :: worker where
  "worker_new = \<lparr>m_state = Starting, m_work = False, w_pc = NoThread, w_ctl = Idle\<rparr>"

text \<open>\<open>compare_exchange_weak\<close> may fail although the expected value is present; the flag says that it does.\<close>

definition cas :: "bool \<Rightarrow> WorkerState \<Rightarrow> WorkerState \<Rightarrow> worker \<Rightarrow> worker" where
  "cas spurious ex new w = (if m_state w = ex \<and> \<not> spurious then w\<lparr>m_state := new\<rparr> else w)"

section \<open>Control operations\<close>

definition startWorking :: "bool \<Rightarrow> worker \<Rightarrow> worker" where
  "startWorking spurious w =
     (if m_work w then (cas spurious Stopped Starting w)\<lparr>w_ctl := StartWait\<rparr>
      else w\<lparr>m_state := Starting, m_work := True, w_pc := LoopTest, w_ctl := StartWait\<rparr>)"

definition startWorking_wait :: "worker \<Rightarrow> worker" where
  "startWorking_wait w = (if m_state w = Starting then w else w\<lparr>w_ctl := Idle\<rparr>)"

definition triggerStopWorking :: "bool \<Rightarrow> worker \<Rightarrow> worker" where
  "triggerStopWorking spurious w = (if m_work w then cas spurious Started Stopping w else w)"

definition stopWorking :: "bool \<Rightarrow> worker \<Rightarrow> worker" where
  "stopWorking spurious w =
     (if m_work w then (cas spurious Started Stopping w)\<lparr>w_ctl := StopWait\<rparr> else w)"

definition stopWorking_wait :: "worker \<Rightarrow> worker" where
  "stopWorking_wait w = (if m_state w \<noteq> Stopped then w else w\<lparr>w_ctl := Idle\<rparr>)"

definition destroyWorker :: "worker \<Rightarrow> worker" where
  "destroyWorker w =
     (if m_work w then w\<lparr>m_state := Killing, w_ctl := Join\<rparr> else w\<lparr>w_ctl := Destroyed\<rparr>)"

definition destroyWorker_join :: "worker \<Rightarrow> worker" where
  "destroyWorker_join w =
     (if w_pc w = Exited then w\<lparr>m_work := False, w_pc := NoThread, w_ctl := Destroyed\<rparr> else w)"

definition shouldStop :: "worker \<Rightarrow> bool" where
  "shouldStop w = (m_state w \<noteq> Started)"

section \<open>The worker thread\<close>

definition thread_step :: "bool \<Rightarrow> worker \<Rightarrow> worker" where
  "thread_step spurious w =
     (case w_pc w of
        NoThread \<Rightarrow> w
      | LoopTest \<Rightarrow> w\<lparr>w_pc := (if m_state w \<noteq> Killing then SetStarted else Exited)\<rparr>
      | SetStarted \<Rightarrow> (cas spurious Starting Started w)\<lparr>w_pc := WorkLoop\<rparr>
      | WorkLoop \<Rightarrow> w\<lparr>w_pc := SwapStopped\<rparr>
      | SwapStopped \<Rightarrow> w\<lparr>m_state := Stopped, w_pc := Restore (m_state w)\<rparr>
      | Restore ex \<Rightarrow> (if ex = Killing \<or> ex = Starting then w\<lparr>m_state := ex\<rparr> else w)\<lparr>w_pc := WaitStopped\<rparr>
      | WaitStopped \<Rightarrow> (if m_state w = Stopped then w else w\<lparr>w_pc := LoopTest\<rparr>)
      | Exited \<Rightarrow> w)"

section \<open>Executions\<close>

text \<open>
  The control operations run one at a time, under \<open>x_work\<close>, interleaved with the worker thread. The parameter
  says whether exchanges may fail spuriously.
\<close>

inductive worker_step :: "bool \<Rightarrow> worker \<Rightarrow> worker \<Rightarrow> bool" for weak where
  start: "w_ctl w = Idle \<Longrightarrow> spurious \<longrightarrow> weak \<Longrightarrow> worker_step weak w (startWorking spurious w)"
| start_wait: "w_ctl w = StartWait \<Longrightarrow> worker_step weak w (startWorking_wait w)"
| trigger: "w_ctl w = Idle \<Longrightarrow> spurious \<longrightarrow> weak \<Longrightarrow> worker_step weak w (triggerStopWorking spurious w)"
| stop: "w_ctl w = Idle \<Longrightarrow> spurious \<longrightarrow> weak \<Longrightarrow> worker_step weak w (stopWorking spurious w)"
| stop_wait: "w_ctl w = StopWait \<Longrightarrow> worker_step weak w (stopWorking_wait w)"
| destroy: "w_ctl w = Idle \<Longrightarrow> worker_step weak w (destroyWorker w)"
| join: "w_ctl w = Join \<Longrightarrow> worker_step weak w (destroyWorker_join w)"
| thread: "spurious \<longrightarrow> weak \<Longrightarrow> worker_step weak w (thread_step spurious w)"

inductive_cases worker_stepE: "worker_step weak w w'"

inductive worker_reachable :: "bool \<Rightarrow> worker \<Rightarrow> bool" for weak where
  new: "worker_reachable weak worker_new"
| step: "worker_reachable weak w \<Longrightarrow> worker_step weak w w' \<Longrightarrow> worker_reachable weak w'"

section \<open>Specification\<close>

text \<open>
  What holds in every reachable state when exchanges do not fail spuriously, by position of the worker thread:
  a start, a stop or the end of the thread is pending exactly as the control thread waits for it.
\<close>

definition starting_ok :: "worker \<Rightarrow> bool" where
  "starting_ok w \<longleftrightarrow> m_state w = Starting \<and> w_ctl w = StartWait"

definition killing_ok :: "worker \<Rightarrow> bool" where
  "killing_ok w \<longleftrightarrow> m_state w = Killing \<and> w_ctl w = Join"

definition running_ok :: "worker \<Rightarrow> bool" where
  "running_ok w \<longleftrightarrow> (m_state w = Started \<or> m_state w = Stopping) \<and> w_ctl w \<noteq> Join"

definition worker_ok :: "worker \<Rightarrow> bool" where
  "worker_ok w \<longleftrightarrow>
     (if w_pc w = NoThread then \<not> m_work w \<and> (w_ctl w = Idle \<or> w_ctl w = Destroyed)
      else m_work w \<and> w_ctl w \<noteq> Destroyed \<and>
        (case w_pc w of
           LoopTest \<Rightarrow> starting_ok w \<or> killing_ok w
         | SetStarted \<Rightarrow> starting_ok w
         | WorkLoop \<Rightarrow> running_ok w \<or> killing_ok w
         | SwapStopped \<Rightarrow> running_ok w \<or> killing_ok w
         | Restore ex \<Rightarrow>
             if ex = Killing then m_state w = Stopped \<and> w_ctl w = Join
             else (ex = Started \<or> ex = Stopping) \<and> (m_state w = Stopped \<and> w_ctl w \<noteq> Join \<or> starting_ok w \<or> killing_ok w)
         | WaitStopped \<Rightarrow> m_state w = Stopped \<and> w_ctl w \<noteq> Join \<or> starting_ok w \<or> killing_ok w
         | Exited \<Rightarrow> killing_ok w
         | NoThread \<Rightarrow> True))"

text \<open>
  A worker about to be found stopped; a worker that can no longer be told to end.
\<close>

definition stopping_worker :: worker where
  "stopping_worker = \<lparr>m_state = Stopped, m_work = True, w_pc = Restore Stopping, w_ctl = StopWait\<rparr>"

definition kill_lost :: "worker \<Rightarrow> bool" where
  "kill_lost w \<longleftrightarrow> w_ctl w = Join \<and> m_state w \<noteq> Killing \<and> w_pc w \<noteq> Exited \<and> w_pc w \<noteq> Restore Killing"

section \<open>Invariant and progress\<close>

lemmas worker_defs = startWorking_def startWorking_wait_def triggerStopWorking_def stopWorking_def
  stopWorking_wait_def destroyWorker_def destroyWorker_join_def thread_step_def cas_def

lemmas ok_defs = worker_ok_def starting_ok_def killing_ok_def running_ok_def

lemma worker_step_ok: "worker_step False w w' \<Longrightarrow> worker_ok w \<Longrightarrow> worker_ok w'"
  by (erule worker_stepE; simp add: worker_defs ok_defs split: worker_pc.splits if_splits; auto)

lemma worker_reachable_ok: "worker_reachable False w \<Longrightarrow> worker_ok w"
proof (induction rule: worker_reachable.induct)
  case new
  then show ?case by (simp add: worker_ok_def worker_new_def)
next
  case (step w w')
  then show ?case by (blast intro: worker_step_ok)
qed

text \<open>
  C21: when \<open>stopWorking\<close> returns the state is \<open>Stopped\<close> and the work loop is not running.
\<close>
theorem worker_stop_safe:
  assumes "worker_reachable False w" and "worker_step False w w'" and "w_ctl w = StopWait" and "w_ctl w' = Idle"
  shows "m_state w' = Stopped \<and> (w_pc w' = WaitStopped \<or> w_pc w' = Restore Started \<or> w_pc w' = Restore Stopping)"
proof -
  have ok: "worker_ok w'" using worker_reachable_ok [OF assms(1)] worker_step_ok [OF assms(2)] by blast
  have st: "m_state w' = Stopped" and pc: "w_pc w' = w_pc w"
    using assms(2-4) by (auto elim!: worker_stepE simp: worker_defs split: if_splits worker_pc.splits)
  have "w_pc w' \<noteq> NoThread" using worker_reachable_ok [OF assms(1)] assms(3) by (auto simp: pc worker_ok_def)
  with st show ?thesis using ok assms(4)
    by (cases "w_pc w'") (simp_all add: ok_defs split: if_splits)
qed

lemma progress_pc:
  "w_pc w = WorkLoop \<Longrightarrow> m_state ((thread_step False ^^ 2) w) = Stopped"
  "w_pc w = SwapStopped \<Longrightarrow> m_state (thread_step False w) = Stopped"
  by (simp_all add: thread_step_def numeral_2_eq_2)

lemma starting_pc:
  assumes "worker_ok w" and "m_state w = Starting" and "m_work w"
  shows "\<exists>n \<le> 4. m_state ((thread_step False ^^ n) w) = Started"
proof -
  have 1: "m_state (thread_step False v) = Started" if "w_pc v = SetStarted" "m_state v = Starting" for v
    using that by (simp add: thread_step_def cas_def)
  have 2: "m_state (thread_step False (thread_step False v)) = Started" if "w_pc v = LoopTest" "m_state v = Starting" for v
    using that by (intro 1) (simp_all add: thread_step_def)
  have 3: "m_state (thread_step False (thread_step False (thread_step False v))) = Started"
    if "w_pc v = WaitStopped" "m_state v = Starting" for v
    using that by (intro 2) (simp_all add: thread_step_def)
  show ?thesis
  proof (cases "w_pc w")
    case SetStarted
    then show ?thesis using 1 assms by (intro exI [of _ 1]) simp
  next
    case LoopTest
    then show ?thesis using 2 assms by (intro exI [of _ 2]) (simp add: numeral_2_eq_2)
  next
    case WaitStopped
    then show ?thesis using 3 assms by (intro exI [of _ 3]) (simp add: numeral_3_eq_3)
  next
    case (Restore ex)
    then have "w_pc (thread_step False w) = WaitStopped" "m_state (thread_step False w) = Starting"
      using assms by (auto simp: thread_step_def ok_defs split: if_splits)
    from 3 [OF this] show ?thesis by (intro exI [of _ 4]) (simp add: eval_nat_numeral)
  qed (use assms in \<open>simp_all add: ok_defs\<close>)
qed

lemma killing_pc:
  assumes "worker_ok w" and "w_ctl w = Join"
  shows "\<exists>n \<le> 5. w_pc ((thread_step False ^^ n) w) = Exited"
proof -
  have 1: "w_pc (thread_step False v) = Exited" if "w_pc v = LoopTest" "m_state v = Killing" for v
    using that by (simp add: thread_step_def)
  have 2: "w_pc (thread_step False (thread_step False v)) = Exited" if "w_pc v = WaitStopped" "m_state v = Killing" for v
    using that by (intro 1) (simp_all add: thread_step_def)
  have 3: "w_pc (thread_step False (thread_step False (thread_step False v))) = Exited"
    if "w_pc v = Restore ex" "m_state v = Killing \<or> ex = Killing" "ex \<noteq> Starting" for v ex
    using that by (intro 2) (auto simp: thread_step_def)
  have 4: "w_pc (thread_step False (thread_step False (thread_step False (thread_step False v)))) = Exited"
    if "w_pc v = SwapStopped" "m_state v = Killing" for v
    using that by (intro 3 [of _ Killing]) (simp_all add: thread_step_def)
  have 5: "w_pc (thread_step False (thread_step False (thread_step False (thread_step False (thread_step False v))))) = Exited"
    if "w_pc v = WorkLoop" "m_state v = Killing" for v
    using that by (intro 4) (simp_all add: thread_step_def)
  show ?thesis
  proof (cases "w_pc w")
    case LoopTest
    then show ?thesis using 1 assms by (intro exI [of _ 1]) (auto simp: ok_defs)
  next
    case WaitStopped
    then show ?thesis using 2 assms by (intro exI [of _ 2]) (auto simp: ok_defs numeral_2_eq_2)
  next
    case (Restore ex)
    then have "m_state w = Killing \<or> ex = Killing" "ex \<noteq> Starting" using assms by (auto simp: ok_defs split: if_splits)
    with 3 Restore show ?thesis by (intro exI [of _ 3]) (simp add: numeral_3_eq_3)
  next
    case SwapStopped
    then show ?thesis using 4 assms by (intro exI [of _ 4]) (auto simp: ok_defs eval_nat_numeral)
  next
    case WorkLoop
    then show ?thesis using 5 assms by (intro exI [of _ 5]) (auto simp: ok_defs eval_nat_numeral)
  next
    case Exited
    then show ?thesis by (intro exI [of _ 0]) simp
  qed (use assms in \<open>simp_all add: ok_defs\<close>)
qed

lemma stopping_pc:
  assumes "worker_ok w" and "w_ctl w = StopWait"
  shows "\<exists>n \<le> 2. m_state ((thread_step False ^^ n) w) = Stopped"
proof -
  consider "m_state w = Stopped" | "w_pc w = WorkLoop" | "w_pc w = SwapStopped"
    using assms by (cases "w_pc w") (auto simp: ok_defs split: if_splits)
  then show ?thesis
  proof cases
    case 1
    then show ?thesis by (intro exI [of _ 0]) simp
  next
    case 2
    then show ?thesis by (intro exI [of _ 2]) (simp add: progress_pc)
  next
    case 3
    then show ?thesis by (intro exI [of _ 1]) (simp add: progress_pc)
  qed
qed


lemma reachable_thread: "worker_reachable weak w \<Longrightarrow> worker_reachable weak (thread_step False w)"
  by (rule worker_reachable.step) (auto intro: worker_step.thread)

lemma stopping_reachable: "worker_reachable False stopping_worker"
proof -
  let ?a = "thread_step False (thread_step False (startWorking False worker_new))"
  have "worker_reachable False (startWorking False worker_new)"
    by (rule worker_reachable.step [OF worker_reachable.new worker_step.start]) (simp_all add: worker_new_def)
  then have "worker_reachable False ?a" by (intro reachable_thread)
  then have "worker_reachable False (startWorking_wait ?a)"
    by (rule worker_reachable.step [OF _ worker_step.start_wait]) (simp add: worker_defs worker_new_def)
  then have "worker_reachable False (stopWorking False (startWorking_wait ?a))"
    by (rule worker_reachable.step [OF _ worker_step.stop]) (simp_all add: worker_defs worker_new_def)
  then have "worker_reachable False (thread_step False (thread_step False (stopWorking False (startWorking_wait ?a))))"
    by (intro reachable_thread)
  moreover have "thread_step False (thread_step False (stopWorking False (startWorking_wait ?a))) = stopping_worker"
    by (simp add: worker_defs worker_new_def stopping_worker_def)
  ultimately show ?thesis by simp
qed

theorem worker_stop_safe_witness:
  "m_state (stopWorking_wait stopping_worker) = Stopped \<and>
   (w_pc (stopWorking_wait stopping_worker) = WaitStopped \<or> w_pc (stopWorking_wait stopping_worker) = Restore Started \<or>
    w_pc (stopWorking_wait stopping_worker) = Restore Stopping)"
  by (rule worker_stop_safe [OF stopping_reachable worker_step.stop_wait])
     (simp_all add: stopping_worker_def stopWorking_wait_def)


lemma kill_lost_step: "worker_step weak w w' \<Longrightarrow> kill_lost w \<Longrightarrow> kill_lost w'"
  by (erule worker_stepE; simp add: worker_defs kill_lost_def split: worker_pc.splits if_splits)

lemma kill_lost_reachable: "\<exists>w. worker_reachable True w \<and> kill_lost w"
proof -
  let ?a = "startWorking False worker_new"
  let ?b = "thread_step False (thread_step False (thread_step True (thread_step False ?a)))"
  have "worker_reachable True ?a"
    by (rule worker_reachable.step [OF worker_reachable.new worker_step.start]) (simp_all add: worker_new_def)
  then have "worker_reachable True (thread_step True (thread_step False ?a))"
    by (intro worker_reachable.step [OF _ worker_step.thread [of True]] reachable_thread) simp_all
  then have "worker_reachable True ?b" by (intro reachable_thread)
  then have "worker_reachable True (startWorking_wait ?b)"
    by (rule worker_reachable.step [OF _ worker_step.start_wait]) (simp add: worker_defs worker_new_def)
  then have "worker_reachable True (destroyWorker (startWorking_wait ?b))"
    by (rule worker_reachable.step [OF _ worker_step.destroy]) (simp add: worker_defs worker_new_def)
  then have "worker_reachable True (thread_step False (destroyWorker (startWorking_wait ?b)))" by (rule reachable_thread)
  moreover have "kill_lost (thread_step False (destroyWorker (startWorking_wait ?b)))"
    by (simp add: worker_defs worker_new_def kill_lost_def)
  ultimately show ?thesis by blast
qed

text \<open>
  C38: if the weak compare-and-exchange fails spuriously while the thread starts, the request of the destructor can be
  overwritten by the restored \<open>Starting\<close>, and the destructor never returns.
\<close>
theorem spurious_failure_blocks_destructor:
  "\<exists>w. worker_reachable True w \<and> w_ctl w = Join \<and> (\<nexists>w'. (worker_step True)\<^sup>*\<^sup>* w w' \<and> w_ctl w' = Destroyed)"
proof -
  obtain w where w: "worker_reachable True w" "kill_lost w" using kill_lost_reachable by blast
  have "kill_lost w'" if "(worker_step True)\<^sup>*\<^sup>* w w'" for w'
    using that w(2) by (induction rule: rtranclp_induct) (auto intro: kill_lost_step)
  then have "w_ctl w' = Join" if "(worker_step True)\<^sup>*\<^sup>* w w'" for w' using that by (auto simp: kill_lost_def)
  with w show ?thesis by (metis control_pc.distinct(19) kill_lost_def)
qed

end
