(* ===== verification/Miner.thy ===== *)
theory Miner
  imports FixedHash Managed Worker
begin

text \<open>
  Work packages and solutions (\<open>src/libethcore/EthashAux.h\<close>) and the device-independent part of a miner
  (\<open>src/libethcore/Miner.h\<close>, \<open>Miner.cpp\<close>): the data the farm and the miners exchange, pausing, the work
  hand-over, the hash rate meter, and the serialised initialisation of the DAG. Times are microseconds
  of the steady clock, passed as arguments; floating-point values are real numbers.
\<close>

section \<open>Work and solutions\<close>

record EpochContext =
  ec_epochNumber :: int
  ec_lightNumItems :: int
  ec_lightSize :: u64
  ec_lightCache :: "hash512 list"
  ec_dagNumItems :: int
  ec_dagSize :: u64

record WorkPackage =
  wp_job :: string
  wp_boundary :: "u8 list"
  wp_header :: "u8 list"
  wp_seed :: "u8 list"
  wp_epoch :: int
  wp_block :: int
  wp_startNonce :: u64
  wp_exSizeBytes :: u16
  wp_algo :: string

definition h256_zero :: "u8 list" where
  "h256_zero = hash_empty 32"

definition WorkPackage_default :: WorkPackage where
  "WorkPackage_default = \<lparr>wp_job = [], wp_boundary = h256_zero, wp_header = h256_zero, wp_seed = h256_zero,
     wp_epoch = - 1, wp_block = - 1, wp_startNonce = 0, wp_exSizeBytes = 0, wp_algo = ''ethash''\<rparr>"

definition WorkPackage_bool :: "WorkPackage \<Rightarrow> bool" where
  "WorkPackage_bool w = (\<not> h256_eq (wp_header w) h256_zero)"

record Solution =
  sol_nonce :: u64
  sol_mixHash :: "u8 list"
  sol_work :: WorkPackage
  sol_tstamp :: int
  sol_midx :: nat

section \<open>Devices, accounts and telemetry\<close>

datatype DeviceTypeEnum = DeviceUnknown | DeviceCpu | DeviceGpu | DeviceAccelerator

datatype DeviceSubscriptionTypeEnum = SubscriptionNone | SubscriptionOpenCL | SubscriptionCuda | SubscriptionCpu

datatype HwMonitorInfoType = HwUnknown | HwNvidia | HwAmd | HwCpu

datatype ClPlatformTypeEnum = PlatformUnknown | PlatformAmd | PlatformClover | PlatformNvidia

datatype SolutionAccountingEnum = Accepted | Rejected | Wasted | Failed

record SolutionAccountType =
  sa_accepted :: u32
  sa_rejected :: u32
  sa_wasted :: u32
  sa_failed :: u32
  sa_tstamp :: int

definition SolutionAccount_new :: "int \<Rightarrow> SolutionAccountType" where
  "SolutionAccount_new now =
     \<lparr>sa_accepted = 0, sa_rejected = 0, sa_wasted = 0, sa_failed = 0, sa_tstamp = now\<rparr>"

definition SolutionAccount_str :: "SolutionAccountType \<Rightarrow> string" where
  "SolutionAccount_str a =
     ''A'' @ to_string (unat (sa_accepted a)) @
     (if sa_wasted a \<noteq> 0 then '':W'' @ to_string (unat (sa_wasted a)) else []) @
     (if sa_rejected a \<noteq> 0 then '':R'' @ to_string (unat (sa_rejected a)) else []) @
     (if sa_failed a \<noteq> 0 then '':F'' @ to_string (unat (sa_failed a)) else [])"

record HwSensorsType =
  hs_tempC :: int
  hs_fanP :: int
  hs_powerW :: real

record TelemetryAccountType =
  ta_prefix :: string
  ta_hashrate :: real
  ta_paused :: bool
  ta_sensors :: HwSensorsType
  ta_solutions :: SolutionAccountType

definition TelemetryAccount_new :: "int \<Rightarrow> TelemetryAccountType" where
  "TelemetryAccount_new now =
     \<lparr>ta_prefix = [], ta_hashrate = 0, ta_paused = False,
      ta_sensors = \<lparr>hs_tempC = 0, hs_fanP = 0, hs_powerW = 0\<rparr>, ta_solutions = SolutionAccount_new now\<rparr>"

record TelemetryType =
  te_hwmon :: bool
  te_start :: int
  te_farm :: TelemetryAccountType
  te_miners :: "TelemetryAccountType list"

record DeviceDescriptor =
  dd_type :: DeviceTypeEnum
  dd_subscriptionType :: DeviceSubscriptionTypeEnum
  dd_uniqueId :: string
  dd_totalMemory :: nat
  dd_name :: string
  dd_clDetected :: bool
  dd_clName :: string
  dd_clPlatformId :: nat
  dd_clPlatformName :: string
  dd_clPlatformType :: ClPlatformTypeEnum
  dd_clPlatformVersion :: string
  dd_clPlatformVersionMajor :: nat
  dd_clPlatformVersionMinor :: nat
  dd_clDeviceOrdinal :: nat
  dd_clDeviceIndex :: nat
  dd_clDeviceVersion :: string
  dd_clDeviceVersionMajor :: nat
  dd_clDeviceVersionMinor :: nat
  dd_clBoardName :: string
  dd_clMaxMemAlloc :: nat
  dd_clMaxWorkGroup :: nat
  dd_clMaxComputeUnits :: nat
  dd_clNvCompute :: string
  dd_clNvComputeMajor :: nat
  dd_clNvComputeMinor :: nat
  dd_cuDetected :: bool
  dd_cuName :: string
  dd_cuDeviceOrdinal :: nat
  dd_cuDeviceIndex :: nat
  dd_cuCompute :: string
  dd_cuComputeMajor :: nat
  dd_cuComputeMinor :: nat
  dd_cpCpuNumer :: int

text \<open>\<open>DeviceDescriptor()\<close> sets the members without an initialiser to zero.\<close>

definition DeviceDescriptor_default :: DeviceDescriptor where
  "DeviceDescriptor_default = \<lparr>dd_type = DeviceUnknown, dd_subscriptionType = SubscriptionNone, dd_uniqueId = [],
     dd_totalMemory = 0, dd_name = [], dd_clDetected = False, dd_clName = [], dd_clPlatformId = 0, dd_clPlatformName = [],
     dd_clPlatformType = PlatformUnknown, dd_clPlatformVersion = [], dd_clPlatformVersionMajor = 0,
     dd_clPlatformVersionMinor = 0, dd_clDeviceOrdinal = 0, dd_clDeviceIndex = 0, dd_clDeviceVersion = [],
     dd_clDeviceVersionMajor = 0, dd_clDeviceVersionMinor = 0, dd_clBoardName = [], dd_clMaxMemAlloc = 0,
     dd_clMaxWorkGroup = 0, dd_clMaxComputeUnits = 0, dd_clNvCompute = [], dd_clNvComputeMajor = 0,
     dd_clNvComputeMinor = 0, dd_cuDetected = False, dd_cuName = [], dd_cuDeviceOrdinal = 0, dd_cuDeviceIndex = 0,
     dd_cuCompute = [], dd_cuComputeMajor = 0, dd_cuComputeMinor = 0, dd_cpCpuNumer = 0\<rparr>"

record HwMonitorInfo =
  hw_deviceType :: HwMonitorInfoType
  hw_devicePciId :: string
  hw_deviceIndex :: int

section \<open>The miner\<close>

datatype MinerPauseEnum =
  PauseDueToOverHeating | PauseDueToAPIRequest | PauseDueToFarmPaused | PauseDueToInsufficientMemory
  | PauseDueToInitEpochError

text \<open>The values below \<open>Pause_MAX\<close>, in order.\<close>

definition pause_reasons :: "MinerPauseEnum list" where
  "pause_reasons = [PauseDueToOverHeating, PauseDueToAPIRequest, PauseDueToFarmPaused,
     PauseDueToInsufficientMemory, PauseDueToInitEpochError]"

record miner =
  mi_index :: nat
  mi_worker :: worker
  mi_descriptor :: DeviceDescriptor
  mi_epochContext :: EpochContext
  mi_hwmoninfo :: HwMonitorInfo
  mi_pauseFlags :: "MinerPauseEnum \<Rightarrow> bool"
  mi_work :: WorkPackage
  mi_new_work :: bool
  mi_hashTime :: int
  mi_hashRate :: real
  mi_groupCount :: u64
  mi_hashRateUpdate :: bool

definition EpochContext_default :: EpochContext where
  "EpochContext_default = \<lparr>ec_epochNumber = 0, ec_lightNumItems = 0, ec_lightSize = 0, ec_lightCache = [],
     ec_dagNumItems = 0, ec_dagSize = 0\<rparr>"

definition miner_new :: "int \<Rightarrow> nat \<Rightarrow> DeviceDescriptor \<Rightarrow> miner" where
  "miner_new now index device =
     \<lparr>mi_index = index, mi_worker = worker_new, mi_descriptor = device, mi_epochContext = EpochContext_default,
      mi_hwmoninfo = \<lparr>hw_deviceType = HwUnknown, hw_devicePciId = [], hw_deviceIndex = - 1\<rparr>,
      mi_pauseFlags = (\<lambda>_. False), mi_work = WorkPackage_default, mi_new_work = False, mi_hashTime = now,
      mi_hashRate = 0, mi_groupCount = 0, mi_hashRateUpdate = False\<rparr>"

definition kick_miner :: "miner \<Rightarrow> miner" where
  "kick_miner m = m\<lparr>mi_new_work := True\<rparr>"

definition miner_paused :: "miner \<Rightarrow> bool" where
  "miner_paused m = list_ex (mi_pauseFlags m) pause_reasons"

definition miner_pauseTest :: "MinerPauseEnum \<Rightarrow> miner \<Rightarrow> bool" where
  "miner_pauseTest what m = mi_pauseFlags m what"

definition miner_setWork :: "WorkPackage \<Rightarrow> miner \<Rightarrow> miner" where
  "miner_setWork w m =
     (let m = (if miner_paused m then m\<lparr>mi_work := (mi_work m)\<lparr>wp_header := h256_zero\<rparr>\<rparr>
               else m\<lparr>mi_work := w\<rparr>)
      in kick_miner m)"

definition miner_setEpoch :: "EpochContext \<Rightarrow> miner \<Rightarrow> miner" where
  "miner_setEpoch ec m = m\<lparr>mi_epochContext := ec\<rparr>"

definition miner_pause :: "MinerPauseEnum \<Rightarrow> miner \<Rightarrow> miner" where
  "miner_pause what m =
     kick_miner (m\<lparr>mi_pauseFlags := (mi_pauseFlags m)(what := True),
                   mi_work := (mi_work m)\<lparr>wp_header := h256_zero\<rparr>\<rparr>)"

definition miner_resume :: "MinerPauseEnum \<Rightarrow> miner \<Rightarrow> miner" where
  "miner_resume fromwhat m = m\<lparr>mi_pauseFlags := (mi_pauseFlags m)(fromwhat := False)\<rparr>"

definition pause_text :: "MinerPauseEnum \<Rightarrow> string" where
  "pause_text p =
     (case p of PauseDueToOverHeating \<Rightarrow> ''Overheating''
      | PauseDueToAPIRequest \<Rightarrow> ''Api request''
      | PauseDueToFarmPaused \<Rightarrow> ''Farm suspended''
      | PauseDueToInsufficientMemory \<Rightarrow> ''Insufficient GPU memory''
      | PauseDueToInitEpochError \<Rightarrow> ''Epoch initialization error'')"

definition miner_pausedString :: "miner \<Rightarrow> string" where
  "miner_pausedString m =
     (if miner_paused m then
        fold (\<lambda>i retVar. if mi_pauseFlags m i
                         then (if retVar \<noteq> [] then retVar @ ''; '' else retVar) @ pause_text i else retVar)
          pause_reasons []
      else [])"

definition TriggerHashRateUpdate :: "bool \<Rightarrow> miner \<Rightarrow> miner" where
  "TriggerHashRateUpdate spurious m =
     (if \<not> mi_hashRateUpdate m \<and> \<not> spurious then m\<lparr>mi_hashRateUpdate := True\<rparr>
      else m\<lparr>mi_hashRate := 0\<rparr>)"

definition updateHashRate :: "bool \<Rightarrow> int \<Rightarrow> u32 \<Rightarrow> u32 \<Rightarrow> miner \<Rightarrow> miner" where
  "updateHashRate spurious t groupSize increment m =
     (let m = m\<lparr>mi_groupCount := mi_groupCount m + ucast increment\<rparr>
      in if \<not> (mi_hashRateUpdate m \<and> \<not> spurious) then m
         else let us = t - mi_hashTime m
              in m\<lparr>mi_hashRateUpdate := False, mi_hashTime := t,
                   mi_hashRate := (if us \<noteq> 0 then real (unat (mi_groupCount m * ucast groupSize)) * 1000000 / of_int us
                                   else 0),
                   mi_groupCount := 0\<rparr>)"

section \<open>Initialisation of an epoch\<close>

text \<open>
  The static members that serialise the initialisation, and the position of every miner thread in
  \<open>initEpoch\<close>: not entered, waiting for its turn, in \<open>initEpoch_internal\<close>, or returned with a result. One round
  of initialisations is modelled, in which every miner enters at most once.
\<close>

datatype init_pc = NotEntered | Waiting | Loading | Returned bool

record dag_load =
  s_dagLoadMode :: nat
  s_dagLoadIndex :: nat
  s_minersCount :: nat
  dl_pc :: "nat \<Rightarrow> init_pc"
  dl_shouldStop :: "nat \<Rightarrow> bool"

definition DAG_LOAD_MODE_SEQUENTIAL :: nat where "DAG_LOAD_MODE_SEQUENTIAL = 1"

definition setDagLoadInfo :: "nat \<Rightarrow> nat \<Rightarrow> dag_load \<Rightarrow> dag_load" where
  "setDagLoadInfo mode devicecount d =
     d\<lparr>s_dagLoadMode := mode, s_dagLoadIndex := 0, s_minersCount := devicecount\<rparr>"

definition initEpoch_enter :: "nat \<Rightarrow> dag_load \<Rightarrow> dag_load" where
  "initEpoch_enter i d =
     d\<lparr>dl_pc := (dl_pc d)(i := (if s_dagLoadMode d = DAG_LOAD_MODE_SEQUENTIAL then Waiting else Loading))\<rparr>"

definition initEpoch_wait :: "nat \<Rightarrow> dag_load \<Rightarrow> dag_load" where
  "initEpoch_wait i d =
     (if s_dagLoadIndex d < i then d
      else if dl_shouldStop d i then d\<lparr>dl_pc := (dl_pc d)(i := Returned False)\<rparr>
      else d\<lparr>dl_pc := (dl_pc d)(i := Loading)\<rparr>)"

definition initEpoch_finish :: "bool \<Rightarrow> nat \<Rightarrow> dag_load \<Rightarrow> dag_load" where
  "initEpoch_finish result i d =
     (let d = (if s_dagLoadMode d = DAG_LOAD_MODE_SEQUENTIAL then
                 let d = d\<lparr>s_dagLoadIndex := i + 1\<rparr>
                 in if s_minersCount d = s_dagLoadIndex d then d\<lparr>s_dagLoadIndex := 0\<rparr> else d
               else d)
      in d\<lparr>dl_pc := (dl_pc d)(i := Returned result)\<rparr>)"

inductive dag_step :: "dag_load \<Rightarrow> dag_load \<Rightarrow> bool" where
  enter: "i < s_minersCount d \<Longrightarrow> dl_pc d i = NotEntered \<Longrightarrow> dag_step d (initEpoch_enter i d)"
| wait: "i < s_minersCount d \<Longrightarrow> dl_pc d i = Waiting \<Longrightarrow> dag_step d (initEpoch_wait i d)"
| finish: "i < s_minersCount d \<Longrightarrow> dl_pc d i = Loading \<Longrightarrow> dag_step d (initEpoch_finish result i d)"
| stop: "dag_step d (d\<lparr>dl_shouldStop := (dl_shouldStop d)(i := True)\<rparr>)"

inductive_cases dag_stepE: "dag_step d d'"

definition dag_initial :: "nat \<Rightarrow> dag_load" where
  "dag_initial n = setDagLoadInfo DAG_LOAD_MODE_SEQUENTIAL n
     \<lparr>s_dagLoadMode = 0, s_dagLoadIndex = 0, s_minersCount = 0, dl_pc = (\<lambda>_. NotEntered), dl_shouldStop = (\<lambda>_. False)\<rparr>"

section \<open>Specification\<close>

text \<open>
  The miners before the current index have returned, those after it have not started; in the end all have
  returned and the index is back at the first.
\<close>

definition turn_ok :: "dag_load \<Rightarrow> bool" where
  "turn_ok d \<longleftrightarrow>
     (\<forall>i. i < s_dagLoadIndex d \<longrightarrow> (\<exists>r. dl_pc d i = Returned r)) \<and>
     (\<forall>i. s_dagLoadIndex d < i \<longrightarrow> dl_pc d i = NotEntered \<or> dl_pc d i = Waiting)"

definition dag_ok :: "dag_load \<Rightarrow> bool" where
  "dag_ok d \<longleftrightarrow> s_dagLoadMode d = DAG_LOAD_MODE_SEQUENTIAL \<and>
     (turn_ok d \<or> (\<forall>i. i < s_minersCount d \<longrightarrow> (\<exists>r. dl_pc d i = Returned r)))"

text \<open>
  The situation in which a stopped miner has returned without passing on its turn.
\<close>

definition dag_blocked :: "dag_load \<Rightarrow> bool" where
  "dag_blocked d \<longleftrightarrow> s_minersCount d = 3 \<and> s_dagLoadIndex d = 1 \<and> dl_pc d 0 = Returned True \<and>
     dl_pc d 1 = Returned False \<and> dl_pc d 2 = Waiting \<and> dl_shouldStop d 2"

text \<open>
  The operations other components perform on a miner, as data.
\<close>

datatype miner_op =
  SetWork WorkPackage | SetEpoch EpochContext | Pause MinerPauseEnum | Resume MinerPauseEnum
  | TriggerRate bool | UpdateRate bool int u32 u32

fun apply_op :: "miner_op \<Rightarrow> miner \<Rightarrow> miner" where
  "apply_op (SetWork w) m = miner_setWork w m"
| "apply_op (SetEpoch ec) m = miner_setEpoch ec m"
| "apply_op (Pause r) m = miner_pause r m"
| "apply_op (Resume r) m = miner_resume r m"
| "apply_op (TriggerRate s) m = TriggerHashRateUpdate s m"
| "apply_op (UpdateRate s t g i) m = updateHashRate s t g i m"

text \<open>
  The last request that concerns a reason was to pause.
\<close>

definition pause_requested :: "MinerPauseEnum \<Rightarrow> miner_op list \<Rightarrow> bool" where
  "pause_requested r ops \<longleftrightarrow>
     find (\<lambda>op. op = Pause r \<or> op = Resume r) (rev ops) = Some (Pause r)"

definition idle_when_paused :: "miner \<Rightarrow> bool" where
  "idle_when_paused m \<longleftrightarrow> (miner_paused m \<longrightarrow> wp_header (mi_work m) = h256_zero)"

section \<open>Serialised loading and pausing\<close>

lemma dag_step_ok: "dag_step d d' \<Longrightarrow> dag_ok d \<Longrightarrow> dag_ok d'"
proof (induction rule: dag_step.induct)
  case (enter i d)
  then have t: "turn_ok d" and m: "s_dagLoadMode d = DAG_LOAD_MODE_SEQUENTIAL" by (auto simp: dag_ok_def)
  have "turn_ok (initEpoch_enter i d)"
    using t enter.hyps m by (auto simp: turn_ok_def initEpoch_enter_def)
  with m show ?case by (simp add: dag_ok_def initEpoch_enter_def)
next
  case (wait i d)
  then have t: "turn_ok d" and m: "s_dagLoadMode d = DAG_LOAD_MODE_SEQUENTIAL" by (auto simp: dag_ok_def)
  have "turn_ok (initEpoch_wait i d)"
  proof (cases "s_dagLoadIndex d < i")
    case False
    moreover have "\<not> i < s_dagLoadIndex d" using t wait.hyps by (auto simp: turn_ok_def)
    ultimately have "i = s_dagLoadIndex d" by simp
    with t show ?thesis by (auto simp: turn_ok_def initEpoch_wait_def)
  qed (use t in \<open>simp add: initEpoch_wait_def\<close>)
  with m show ?case by (simp add: dag_ok_def initEpoch_wait_def)
next
  case (finish i d result)
  have t: "turn_ok d" using finish by (auto simp: dag_ok_def)
  then have i: "s_dagLoadIndex d = i"
    using finish.hyps unfolding turn_ok_def by (metis init_pc.distinct linorder_neqE_nat)
  show ?case
  proof (cases "s_minersCount d = i + 1")
    case True
    then have "\<exists>r. dl_pc (initEpoch_finish result i d) j = Returned r" if "j < s_minersCount d" for j
      using that t i finish.prems by (cases "j = i") (auto simp: initEpoch_finish_def turn_ok_def dag_ok_def Let_def less_Suc_eq)
    moreover have "s_dagLoadMode (initEpoch_finish result i d) = DAG_LOAD_MODE_SEQUENTIAL"
      "s_minersCount (initEpoch_finish result i d) = s_minersCount d"
      using finish.prems by (simp_all add: dag_ok_def initEpoch_finish_def Let_def)
    ultimately show ?thesis by (simp add: dag_ok_def)
  next
    case False
    then have "turn_ok (initEpoch_finish result i d)"
      using t i finish.prems by (auto simp: initEpoch_finish_def turn_ok_def dag_ok_def Let_def less_Suc_eq)
    then show ?thesis using finish.prems False by (simp add: dag_ok_def initEpoch_finish_def Let_def)
  qed
next
  case (stop d i)
  then show ?case by (simp add: dag_ok_def turn_ok_def)
qed

lemma dag_initial_ok: "dag_ok (dag_initial n)"
  by (simp add: dag_ok_def turn_ok_def dag_initial_def setDagLoadInfo_def)

lemma dag_reachable_ok: "dag_step\<^sup>*\<^sup>* (dag_initial n) d \<Longrightarrow> dag_ok d"
  by (induction rule: rtranclp_induct) (auto intro: dag_step_ok dag_initial_ok)


lemma dag_blocked_step: "dag_step d d' \<Longrightarrow> dag_blocked d \<Longrightarrow> dag_blocked d'"
proof (induction rule: dag_step.induct)
  case (wait i d)
  then have "i = 2" by (auto simp: dag_blocked_def numeral_3_eq_3 less_Suc_eq numeral_2_eq_2)
  with wait show ?case by (simp add: dag_blocked_def initEpoch_wait_def)
qed (auto simp: dag_blocked_def numeral_3_eq_3 less_Suc_eq numeral_2_eq_2)

lemma dag_reach:
  "dag_step\<^sup>*\<^sup>* a d \<Longrightarrow> i < s_minersCount d \<Longrightarrow> dl_pc d i = NotEntered \<Longrightarrow> dag_step\<^sup>*\<^sup>* a (initEpoch_enter i d)"
  "dag_step\<^sup>*\<^sup>* a d \<Longrightarrow> i < s_minersCount d \<Longrightarrow> dl_pc d i = Waiting \<Longrightarrow> dag_step\<^sup>*\<^sup>* a (initEpoch_wait i d)"
  "dag_step\<^sup>*\<^sup>* a d \<Longrightarrow> i < s_minersCount d \<Longrightarrow> dl_pc d i = Loading \<Longrightarrow> dag_step\<^sup>*\<^sup>* a (initEpoch_finish r i d)"
  "dag_step\<^sup>*\<^sup>* a d \<Longrightarrow> dag_step\<^sup>*\<^sup>* a (d\<lparr>dl_shouldStop := (dl_shouldStop d)(i := True)\<rparr>)"
  by (erule rtranclp.rtrancl_into_rtrancl, rule dag_step.intros; assumption)+

lemma dag_blocked_reachable: "\<exists>d. dag_step\<^sup>*\<^sup>* (dag_initial 3) d \<and> dag_blocked d"
proof -
  let ?a = "initEpoch_enter 2 (initEpoch_enter 1 (initEpoch_enter 0 (dag_initial 3)))"
  let ?s = "\<lambda>i d. d\<lparr>dl_shouldStop := (dl_shouldStop d)(i := True)\<rparr>"
  let ?c = "?s 2 (?s 1 (?s 0 (initEpoch_wait 0 ?a)))"
  note defs = initEpoch_enter_def initEpoch_wait_def initEpoch_finish_def dag_initial_def setDagLoadInfo_def
    DAG_LOAD_MODE_SEQUENTIAL_def Let_def
  have "dag_step\<^sup>*\<^sup>* (dag_initial 3) ?a" by (intro dag_reach rtranclp.rtrancl_refl) (simp_all add: defs)
  then have "dag_step\<^sup>*\<^sup>* (dag_initial 3) (initEpoch_wait 0 ?a)" by (rule dag_reach) (simp_all add: defs)
  then have "dag_step\<^sup>*\<^sup>* (dag_initial 3) ?c" by (intro dag_reach(4))
  then have "dag_step\<^sup>*\<^sup>* (dag_initial 3) (initEpoch_finish True 0 ?c)" by (rule dag_reach) (simp_all add: defs)
  then have "dag_step\<^sup>*\<^sup>* (dag_initial 3) (initEpoch_wait 1 (initEpoch_finish True 0 ?c))"
    by (rule dag_reach) (simp_all add: defs)
  moreover have "dag_blocked (initEpoch_wait 1 (initEpoch_finish True 0 ?c))" by (simp add: defs dag_blocked_def)
  ultimately show ?thesis by blast
qed

text \<open>
  C39: a miner that is stopped while it waits for its turn returns without advancing the index; a later miner, although
  told to stop as well, never leaves the waiting loop.
\<close>
theorem stop_during_serialised_load_blocks:
  "\<exists>d. dag_step\<^sup>*\<^sup>* (dag_initial 3) d \<and> dl_shouldStop d 2 \<and>
     \<not> (\<exists>d' r. dag_step\<^sup>*\<^sup>* d d' \<and> dl_pc d' 2 = Returned r)"
proof -
  obtain d where d: "dag_step\<^sup>*\<^sup>* (dag_initial 3) d" "dag_blocked d" using dag_blocked_reachable by blast
  have "dag_blocked d'" if "dag_step\<^sup>*\<^sup>* d d'" for d'
    using that d(2) by (induction rule: rtranclp_induct) (auto intro: dag_blocked_step)
  then have "dl_pc d' 2 \<noteq> Returned r" if "dag_step\<^sup>*\<^sup>* d d'" for d' r using that by (simp add: dag_blocked_def)
  moreover have "dl_shouldStop d 2" using d(2) by (simp add: dag_blocked_def)
  ultimately show ?thesis using d(1) by blast
qed


lemmas miner_defs = miner_setWork_def miner_setEpoch_def miner_pause_def miner_resume_def
  TriggerHashRateUpdate_def updateHashRate_def kick_miner_def Let_def

lemma apply_op_flags:
  "mi_pauseFlags (apply_op op m) r =
     (if op = Pause r then True else if op = Resume r then False else mi_pauseFlags m r)"
  by (cases op) (auto simp: miner_defs)

lemma miner_paused_iff: "miner_paused m \<longleftrightarrow> (\<exists>r. mi_pauseFlags m r)"
  by (auto simp: miner_paused_def pause_reasons_def) (metis MinerPauseEnum.exhaust)

lemma apply_op_idle: "idle_when_paused m \<Longrightarrow> idle_when_paused (apply_op op m)"
proof (cases op)
  case (Resume r)
  assume "idle_when_paused m"
  with Resume show ?thesis by (auto simp: idle_when_paused_def miner_paused_iff miner_resume_def split: if_splits)
qed (auto simp: idle_when_paused_def miner_paused_def miner_defs)

text \<open>
  After any sequence of operations a miner is paused exactly for the reasons whose last request was to pause,
  and a paused miner has no work.
\<close>
theorem miner_pause_correct:
  fixes ops now index device
  defines "m \<equiv> fold apply_op ops (miner_new now index device)"
  shows "(miner_paused m \<longleftrightarrow> (\<exists>r. pause_requested r ops)) \<and>
    (miner_pauseTest r m \<longleftrightarrow> pause_requested r ops) \<and> (miner_paused m \<longrightarrow> \<not> WorkPackage_bool (mi_work m))"
proof -
  have flags: "mi_pauseFlags m r = pause_requested r ops" for r
    unfolding m_def
  proof (induction ops rule: rev_induct)
    case Nil
    then show ?case by (simp add: miner_new_def pause_requested_def)
  next
    case (snoc op ops)
    then show ?case by (auto simp: apply_op_flags pause_requested_def)
  qed
  have "idle_when_paused (miner_new now index device)"
    by (simp add: idle_when_paused_def miner_paused_def miner_new_def pause_reasons_def)
  then have "idle_when_paused m" unfolding m_def by (rule fold_invariant) (rule apply_op_idle)
  then have "miner_paused m \<longrightarrow> \<not> WorkPackage_bool (mi_work m)"
    by (simp add: idle_when_paused_def WorkPackage_bool_def h256_eq_def)
  with flags show ?thesis by (simp add: miner_paused_iff miner_pauseTest_def)
qed

theorem miner_pause_witness:
  "\<not> WorkPackage_bool (mi_work (fold apply_op [Pause PauseDueToAPIRequest,
     SetWork (WorkPackage_default\<lparr>wp_header := replicate 32 1\<rparr>)] (miner_new 0 0 DeviceDescriptor_default)))"
proof -
  let ?ops = "[Pause PauseDueToAPIRequest, SetWork (WorkPackage_default\<lparr>wp_header := replicate 32 1\<rparr>)]"
  have "pause_requested PauseDueToAPIRequest ?ops" by (simp add: pause_requested_def)
  with miner_pause_correct [of ?ops 0 0 DeviceDescriptor_default] show ?thesis by blast
qed

end
