(* ===== verification/Farm.thy ===== *)
theory Farm
  imports Miner
begin

text \<open>
  The collection of miners, \<open>src/libethcore/Farm.h\<close> and \<open>Farm.cpp\<close>: distribution of work and nonce
  segments, start and stop, pausing, verification of the solutions the devices report, solution
  accounts and the periodic collection of data. The operations run under \<open>x_minerWork\<close> or in the
  farm's strand and are functions on the state. The random number generator, the clock and the
  readings of the hardware monitors are arguments. Solutions handed to the callback
  \<open>m_onSolutionFound\<close> and calls of \<open>m_onMinerRestart\<close> are recorded in the state.
\<close>

section \<open>State\<close>

record FarmSettings =
  fs_dagLoadMode :: nat
  fs_noEval :: bool
  fs_hwMon :: nat
  fs_ergodicity :: nat
  fs_tempStart :: nat
  fs_tempStop :: nat

record farm =
  f_paused :: bool
  f_miners :: "miner list"
  f_currentWp :: WorkPackage
  f_currentEc :: EpochContext
  f_isMining :: bool
  f_telemetry :: TelemetryType
  f_settings :: FarmSettings
  f_nonce_scrambler :: u64
  f_nonce_segment_with :: nat
  f_nvml :: "(string \<times> int) list option"
  f_sysfs :: "(string \<times> int) list option"
  f_devices :: "(string \<times> DeviceDescriptor) list"
  f_dag :: dag_load
  f_managed :: managed_state
  f_found :: "Solution list"
  f_restarts :: nat

text \<open>The exceptions and undefined behaviours the operations can run into.\<close>

datatype farm_error = OutOfRange | NullContext | BadConversion

text \<open>The back ends compiled in.\<close>

record build_flags =
  ETH_ETHASHCUDA :: bool
  ETH_ETHASHCL :: bool
  ETH_ETHASHCPU :: bool

section \<open>Construction\<close>

definition pci_id :: "nat \<Rightarrow> nat \<Rightarrow> string" where
  "pci_id bus device =
     setw_fill 2 (nat_to_base 16 bus) @ '':'' @ setw_fill 2 (nat_to_base 16 device) @ ''.0''"

definition needs_nvml :: "DeviceDescriptor \<Rightarrow> bool" where
  "needs_nvml d \<longleftrightarrow> dd_subscriptionType d = SubscriptionCuda \<or>
     dd_subscriptionType d = SubscriptionOpenCL \<and> dd_clPlatformType d = PlatformNvidia"

definition needs_sysfs :: "DeviceDescriptor \<Rightarrow> bool" where
  "needs_sysfs d \<longleftrightarrow>
     dd_subscriptionType d = SubscriptionOpenCL \<and> dd_clPlatformType d = PlatformAmd"

text \<open>
  \<open>nvml\<close> and \<open>sysfs\<close> are what \<open>wrap_nvml_create\<close> and \<open>wrap_amdsysfs_create\<close> return: None, or the PCI bus and
  device numbers of the cards.
\<close>

definition farm_new ::
  "int \<Rightarrow> u64 \<Rightarrow> (nat \<times> nat) list option \<Rightarrow> (nat \<times> nat) list option \<Rightarrow> FarmSettings \<Rightarrow>
   (string \<times> DeviceDescriptor) list \<Rightarrow> farm" where
  "farm_new now random nvml sysfs settings devices =
     (let hw = fs_hwMon settings \<noteq> 0;
          sysfsh = (if hw \<and> list_ex (\<lambda>(_, d). needs_sysfs d) devices then sysfs else None);
          nvmlh = (if hw \<and> list_ex (\<lambda>(_, d). needs_nvml d) devices then nvml else None)
      in \<lparr>f_paused = False, f_miners = [], f_currentWp = WorkPackage_default, f_currentEc = EpochContext_default,
          f_isMining = False,
          f_telemetry = \<lparr>te_hwmon = hw, te_start = now, te_farm = TelemetryAccount_new now, te_miners = []\<rparr>,
          f_settings = settings, f_nonce_scrambler = random, f_nonce_segment_with = 32,
          f_nvml = map_option (\<lambda>cs. map (\<lambda>(i, bus, dev). (pci_id bus (dev div 8), int i)) (enumerate 0 cs)) nvmlh,
          f_sysfs = map_option (\<lambda>cs. map (\<lambda>(i, bus, dev). (pci_id bus dev, int i)) (enumerate 0 cs)) sysfsh,
          f_devices = devices,
          f_dag = \<lparr>s_dagLoadMode = 0, s_dagLoadIndex = 0, s_minersCount = 0,
                   dl_pc = (\<lambda>_. NotEntered), dl_shouldStop = (\<lambda>_. False)\<rparr>,
          f_managed = managed_init, f_found = [], f_restarts = 0\<rparr>)"

section \<open>Work\<close>

definition farm_shuffle :: "u64 \<Rightarrow> farm \<Rightarrow> farm" where
  "farm_shuffle random f = f\<lparr>f_nonce_scrambler := random\<rparr>"

text \<open>
  The width of the segment of one of \<open>n\<close> miners when \<open>exSizeBytes\<close> hexadecimal digits of the nonce are
  fixed: \<open>(unsigned int)log2(pow(2, 64 - 4 * exSizeBytes) / n)\<close>. The conversion is undefined for
  infinity and for values not above \<open>- 1\<close>.
\<close>

definition segment_width :: "u16 \<Rightarrow> nat \<Rightarrow> nat option" where
  "segment_width exSizeBytes n =
     (let x = log 2 (2 powr (64 - real (unat exSizeBytes) * 4) / real n)
      in if n = 0 \<or> x \<le> - 1 then None else Some (nat \<lfloor>x\<rfloor>))"

definition farm_setEpoch :: "(int \<Rightarrow> bool) \<Rightarrow> nat \<Rightarrow> int \<Rightarrow> farm \<Rightarrow> farm_error + farm" where
  "farm_setEpoch calloc tid epoch f =
     (let (p, ms) = get_global_epoch_context calloc tid epoch (f_managed f)
      in case p of
           None \<Rightarrow> Inl NullContext
         | Some p \<Rightarrow>
             let c = ms_store ms ! p;
                 ec = \<lparr>ec_epochNumber = epoch, ec_lightNumItems = ctx_light_cache_num_items c,
                       ec_lightSize = get_light_cache_size (ctx_light_cache_num_items c),
                       ec_lightCache = ctx_light_cache c,
                       ec_dagNumItems = ethash_calculate_full_dataset_num_items epoch,
                       ec_dagSize = get_full_dataset_size (ethash_calculate_full_dataset_num_items epoch)\<rparr>
             in Inr (f\<lparr>f_managed := ms, f_currentEc := ec, f_miners := map (miner_setEpoch ec) (f_miners f)\<rparr>))"

definition assign_work :: "u64 \<Rightarrow> nat \<Rightarrow> farm \<Rightarrow> farm" where
  "assign_work startNonce i f =
     (let wp = (f_currentWp f)\<lparr>wp_startNonce := startNonce + push_bit (f_nonce_segment_with f) (of_nat i)\<rparr>
      in f\<lparr>f_currentWp := wp, f_miners := (f_miners f)[i := miner_setWork wp (f_miners f ! i)]\<rparr>)"

definition farm_setWork ::
  "(int \<Rightarrow> bool) \<Rightarrow> nat \<Rightarrow> u64 \<Rightarrow> WorkPackage \<Rightarrow> farm \<Rightarrow> farm_error + farm" where
  "farm_setWork calloc tid random newWp f =
     (case (if wp_epoch (f_currentWp f) \<noteq> wp_epoch newWp then farm_setEpoch calloc tid (wp_epoch newWp) f
            else Inr f) of
        Inl e \<Rightarrow> Inl e
      | Inr f \<Rightarrow>
          let f = f\<lparr>f_currentWp := newWp\<rparr>;
              f = (if fs_ergodicity (f_settings f) = 2 \<and> wp_exSizeBytes (f_currentWp f) = 0
                   then farm_shuffle random f else f)
          in if wp_exSizeBytes (f_currentWp f) > 0 then
               case segment_width (wp_exSizeBytes (f_currentWp f)) (length (f_miners f)) of
                 None \<Rightarrow> Inl BadConversion
               | Some w \<Rightarrow>
                   let f = f\<lparr>f_nonce_segment_with := w\<rparr>
                   in Inr (fold (assign_work (wp_startNonce newWp)) [0..<length (f_miners f)] f)
             else Inr (fold (assign_work (f_nonce_scrambler f)) [0..<length (f_miners f)] f))"

section \<open>Start and stop\<close>

definition device_prefix :: "build_flags \<Rightarrow> DeviceDescriptor \<Rightarrow> string" where
  "device_prefix b d =
     (if ETH_ETHASHCUDA b \<and> dd_subscriptionType d = SubscriptionCuda then ''cu''
      else if ETH_ETHASHCL b \<and> dd_subscriptionType d = SubscriptionOpenCL then ''cl''
      else if ETH_ETHASHCPU b \<and> dd_subscriptionType d = SubscriptionCpu then ''cp''
      else [])"

definition miner_startWorking :: "miner \<Rightarrow> miner" where
  "miner_startWorking m = m\<lparr>mi_worker := startWorking False (mi_worker m)\<rparr>"

definition miner_triggerStop :: "miner \<Rightarrow> miner" where
  "miner_triggerStop m = m\<lparr>mi_worker := triggerStopWorking False (mi_worker m)\<rparr>"

definition start_device :: "build_flags \<Rightarrow> int \<Rightarrow> string \<times> DeviceDescriptor \<Rightarrow> farm \<Rightarrow> farm" where
  "start_device b now = (\<lambda>(_, d) f.
     let prefix = device_prefix b d
     in if prefix = [] then f
        else f\<lparr>f_miners := f_miners f @ [miner_startWorking (miner_new now (length (f_miners f)) d)],
               f_telemetry := (f_telemetry f)\<lparr>te_miners :=
                 te_miners (f_telemetry f) @ [(TelemetryAccount_new now)\<lparr>ta_prefix := prefix\<rparr>]\<rparr>\<rparr>)"

definition farm_start :: "build_flags \<Rightarrow> int \<Rightarrow> farm \<Rightarrow> farm" where
  "farm_start b now f =
     (if f_isMining f then f
      else if f_miners f = [] then
        let f = fold (start_device b now) (f_devices f) f
        in f\<lparr>f_dag := setDagLoadInfo (fs_dagLoadMode (f_settings f)) (length (f_miners f)) (f_dag f),
             f_isMining := True\<rparr>
      else f\<lparr>f_miners := map miner_startWorking (f_miners f), f_isMining := True\<rparr>)"

text \<open>The miners that \<open>stop\<close> drops are returned as well: their destructors wait for the threads.\<close>

definition farm_stop :: "farm \<Rightarrow> farm \<times> miner list" where
  "farm_stop f =
     (if f_isMining f
      then (f\<lparr>f_miners := [], f_isMining := False\<rparr>, map (kick_miner \<circ> miner_triggerStop) (f_miners f))
      else (f, []))"

definition farm_pause :: "farm \<Rightarrow> farm" where
  "farm_pause f = f\<lparr>f_paused := True, f_miners := map (miner_pause PauseDueToFarmPaused) (f_miners f)\<rparr>"

definition farm_resume :: "farm \<Rightarrow> farm" where
  "farm_resume f = f\<lparr>f_paused := False, f_miners := map (miner_resume PauseDueToFarmPaused) (f_miners f)\<rparr>"

definition farm_restart :: "farm \<Rightarrow> farm" where
  "farm_restart f = f\<lparr>f_restarts := f_restarts f + 1\<rparr>"

section \<open>Accounts\<close>

definition account :: "SolutionAccountingEnum \<Rightarrow> int \<Rightarrow> SolutionAccountType \<Rightarrow> SolutionAccountType" where
  "account a now s =
     (case a of
        Accepted \<Rightarrow> s\<lparr>sa_accepted := sa_accepted s + 1, sa_tstamp := now\<rparr>
      | Wasted \<Rightarrow> s\<lparr>sa_wasted := sa_wasted s + 1, sa_tstamp := now\<rparr>
      | Rejected \<Rightarrow> s\<lparr>sa_rejected := sa_rejected s + 1, sa_tstamp := now\<rparr>
      | Failed \<Rightarrow> s\<lparr>sa_failed := sa_failed s + 1, sa_tstamp := now\<rparr>)"

definition account_in :: "SolutionAccountingEnum \<Rightarrow> int \<Rightarrow> TelemetryAccountType \<Rightarrow> TelemetryAccountType" where
  "account_in a now t = t\<lparr>ta_solutions := account a now (ta_solutions t)\<rparr>"

text \<open>The farm's account is updated before the access to the miner's account may throw.\<close>

definition accountSolution ::
  "int \<Rightarrow> nat \<Rightarrow> SolutionAccountingEnum \<Rightarrow> farm \<Rightarrow> farm_error option \<times> farm" where
  "accountSolution now minerIdx a f =
     (let te = f_telemetry f;
          te = te\<lparr>te_farm := account_in a now (te_farm te)\<rparr>
      in if minerIdx < length (te_miners te)
         then (None, f\<lparr>f_telemetry :=
                 te\<lparr>te_miners := (te_miners te)[minerIdx := account_in a now (te_miners te ! minerIdx)]\<rparr>\<rparr>)
         else (Some OutOfRange, f\<lparr>f_telemetry := te\<rparr>))"

definition getSolutions_farm :: "farm \<Rightarrow> SolutionAccountType" where
  "getSolutions_farm f = ta_solutions (te_farm (f_telemetry f))"

definition getSolutions :: "int \<Rightarrow> nat \<Rightarrow> farm \<Rightarrow> SolutionAccountType" where
  "getSolutions now minerIdx f =
     (let ms = te_miners (f_telemetry f)
      in if minerIdx < length ms then ta_solutions (ms ! minerIdx) else SolutionAccount_new now)"

section \<open>Solutions\<close>

definition submitProofAsync ::
  "bool \<Rightarrow> (int \<Rightarrow> bool) \<Rightarrow> nat \<Rightarrow> int \<Rightarrow> Solution \<Rightarrow> farm \<Rightarrow> farm_error option \<times> farm" where
  "submitProofAsync dbuild calloc tid now s f =
     (if \<not> fs_noEval (f_settings f) \<or> dbuild then
        let w = sol_work s;
            (r, ms) = eval_progpow calloc tid (wp_epoch w) (wp_block w) (wp_header w) (sol_nonce s) (f_managed f);
            f = f\<lparr>f_managed := ms\<rparr>
        in case r of
             None \<Rightarrow> (Some NullContext, f)
           | Some (result, mixHash) \<Rightarrow>
               if hash_gt result (wp_boundary w) then accountSolution now (sol_midx s) Failed f
               else (None, f\<lparr>f_found := f_found f @ [s\<lparr>sol_mixHash := mixHash\<rparr>]\<rparr>)
      else (None, f\<lparr>f_found := f_found f @ [s]\<rparr>))"

section \<open>Nonce segments and temperatures\<close>

definition set_nonce_scrambler :: "u64 \<Rightarrow> farm \<Rightarrow> farm" where
  "set_nonce_scrambler n f = f\<lparr>f_nonce_scrambler := n\<rparr>"

definition set_nonce_segment_width :: "nat \<Rightarrow> farm \<Rightarrow> farm" where
  "set_nonce_segment_width n f =
     (if wp_exSizeBytes (f_currentWp f) = 0 then f\<lparr>f_nonce_segment_with := n\<rparr> else f)"

definition get_nonce_scrambler_json :: "farm \<Rightarrow> string \<times> nat \<times> nat" where
  "get_nonce_scrambler_json f =
     (toHex_u64 (f_nonce_scrambler f) PrefixAdd 16, f_nonce_segment_with f, length (f_miners f))"

definition setTStartTStop :: "nat \<Rightarrow> nat \<Rightarrow> farm \<Rightarrow> farm" where
  "setTStartTStop tstart tstop f =
     f\<lparr>f_settings := (f_settings f)\<lparr>fs_tempStart := tstart, fs_tempStop := tstop\<rparr>\<rparr>"

section \<open>Data collection\<close>

text \<open>
  \<open>readings\<close> gives temperature, fan speed and power of a card; the power is read only at monitoring
  level 2. A card without a known index is looked up once by its PCI identification.
\<close>

definition resolve_card :: "(string \<times> int) list \<Rightarrow> HwMonitorInfo \<Rightarrow> int \<times> HwMonitorInfo" where
  "resolve_card cards hw =
     (if hw_deviceIndex hw = - 1 \<and> hw_devicePciId hw \<noteq> [] then
        case map_of (rev cards) (hw_devicePciId hw) of
          Some i \<Rightarrow> (i, hw\<lparr>hw_deviceIndex := i\<rparr>)
        | None \<Rightarrow> (- 1, hw\<lparr>hw_deviceIndex := - 2\<rparr>)
      else (hw_deviceIndex hw, hw))"

definition read_card ::
  "nat \<Rightarrow> (int \<Rightarrow> nat \<times> nat \<times> nat) \<Rightarrow> (string \<times> int) list \<Rightarrow> miner \<Rightarrow> (nat \<times> nat \<times> nat) \<times> miner" where
  "read_card hwMon readings cards m =
     (let (i, hw) = resolve_card cards (mi_hwmoninfo m);
          m = m\<lparr>mi_hwmoninfo := hw\<rparr>
      in if 0 \<le> i then
           let (tempC, fanpcnt, powerW) = readings i
           in ((tempC, fanpcnt, if hwMon = 2 then powerW else 0), m)
         else ((0, 0, 0), m))"

definition monitor_miner ::
  "(HwMonitorInfoType \<Rightarrow> int \<Rightarrow> nat \<times> nat \<times> nat) \<Rightarrow> farm \<Rightarrow> miner \<Rightarrow> (nat \<times> nat \<times> nat) \<times> miner" where
  "monitor_miner readings f m =
     (case (hw_deviceType (mi_hwmoninfo m), f_nvml f, f_sysfs f) of
        (HwNvidia, Some cards, _) \<Rightarrow> read_card (fs_hwMon (f_settings f)) (readings HwNvidia) cards m
      | (HwAmd, _, Some cards) \<Rightarrow> read_card (fs_hwMon (f_settings f)) (readings HwAmd) cards m
      | _ \<Rightarrow> ((0, 0, 0), m))"

definition check_temperature :: "FarmSettings \<Rightarrow> nat \<Rightarrow> miner \<Rightarrow> miner" where
  "check_temperature settings tempC m =
     (if fs_tempStop settings \<noteq> 0 then
        let paused = miner_pauseTest PauseDueToOverHeating m;
            m = (if \<not> paused \<and> tempC \<ge> fs_tempStop settings then miner_pause PauseDueToOverHeating m else m)
        in if paused \<and> tempC \<le> fs_tempStart settings then miner_resume PauseDueToOverHeating m else m
      else m)"

definition collect_miner ::
  "(HwMonitorInfoType \<Rightarrow> int \<Rightarrow> nat \<times> nat \<times> nat) \<Rightarrow> nat \<Rightarrow> real \<times> (farm_error + farm) \<Rightarrow> real \<times> (farm_error + farm)" where
  "collect_miner readings k = (\<lambda>(farm_hr, r). case r of Inl e \<Rightarrow> (farm_hr, Inl e) | Inr f \<Rightarrow>
     let m = f_miners f ! k;
         i = mi_index m;
         hr = (if miner_paused m then 0 else mi_hashRate m);
         farm_hr = farm_hr + hr
     in if i < length (te_miners (f_telemetry f)) then
          let t = (te_miners (f_telemetry f) ! i)\<lparr>ta_hashrate := hr, ta_paused := miner_paused m\<rparr>;
              (t, m) =
                (if fs_hwMon (f_settings f) \<noteq> 0 then
                   let ((tempC, fanpcnt, powerW), m) = monitor_miner readings f m;
                       m = check_temperature (f_settings f) tempC m
                   in (t\<lparr>ta_sensors := \<lparr>hs_tempC = int tempC, hs_fanP = int fanpcnt, hs_powerW = real powerW / 1000\<rparr>\<rparr>, m)
                 else (t, m));
              te = f_telemetry f
          in (farm_hr, Inr (f\<lparr>f_miners := (f_miners f)[k := TriggerHashRateUpdate False m],
                f_telemetry := te\<lparr>te_miners := (te_miners te)[i := t],
                                  te_farm := (te_farm te)\<lparr>ta_hashrate := farm_hr\<rparr>\<rparr>\<rparr>))
        else (farm_hr, Inl OutOfRange))"

definition collectData ::
  "(HwMonitorInfoType \<Rightarrow> int \<Rightarrow> nat \<times> nat \<times> nat) \<Rightarrow> bool \<Rightarrow> farm \<Rightarrow> farm_error + farm" where
  "collectData readings ec f =
     (if ec then Inr f
      else snd (fold (collect_miner readings) [0..<length (f_miners f)] (0, Inr f)))"

section \<open>Specification\<close>

text \<open>
  A work package with the start nonce of a segment; the first nonce of the whole search.
\<close>

definition with_nonce :: "u64 \<Rightarrow> nat \<Rightarrow> nat \<Rightarrow> WorkPackage \<Rightarrow> WorkPackage" where
  "with_nonce start w i wp = wp\<lparr>wp_startNonce := start + push_bit w (of_nat i)\<rparr>"

definition first_nonce :: "WorkPackage \<Rightarrow> farm \<Rightarrow> u64" where
  "first_nonce wp f = (if wp_exSizeBytes wp > 0 then wp_startNonce wp else f_nonce_scrambler f)"

text \<open>
  The sums of the counters of the miners, and the farm's own counters. The invariant of the farm: the miners
  are numbered by position, each has an account, and no paused miner has work.
\<close>

definition counters :: "SolutionAccountType \<Rightarrow> u32 \<times> u32 \<times> u32 \<times> u32" where
  "counters s = (sa_accepted s, sa_rejected s, sa_wasted s, sa_failed s)"

definition total :: "(SolutionAccountType \<Rightarrow> u32) \<Rightarrow> farm \<Rightarrow> u32" where
  "total c f = sum_list (map (c \<circ> ta_solutions) (te_miners (f_telemetry f)))"

definition accounts_balanced :: "farm \<Rightarrow> bool" where
  "accounts_balanced f \<longleftrightarrow>
     counters (ta_solutions (te_farm (f_telemetry f))) =
       (total sa_accepted f, total sa_rejected f, total sa_wasted f, total sa_failed f)"

definition miners_ok :: "miner list \<Rightarrow> bool" where
  "miners_ok ms \<longleftrightarrow> map mi_index ms = [0..<length ms] \<and> list_all idle_when_paused ms"

definition farm_ok :: "farm \<Rightarrow> bool" where
  "farm_ok f \<longleftrightarrow> miners_ok (f_miners f) \<and> length (f_miners f) \<le> length (te_miners (f_telemetry f)) \<and> accounts_balanced f"

text \<open>
  Everything that happens to a farm: calls of its operations, and the operations other components perform on
  one of its miners.
\<close>

inductive farm_step :: "build_flags \<Rightarrow> (int \<Rightarrow> bool) \<Rightarrow> farm \<Rightarrow> farm \<Rightarrow> bool" for b calloc where
  start: "farm_step b calloc f (farm_start b now f)"
| stop: "farm_step b calloc f (fst (farm_stop f))"
| work: "farm_setWork calloc tid random wp f = Inr f' \<Longrightarrow> farm_step b calloc f f'"
| pause: "farm_step b calloc f (farm_pause f)"
| resume: "farm_step b calloc f (farm_resume f)"
| restart: "farm_step b calloc f (farm_restart f)"
| account: "i < length (te_miners (f_telemetry f)) \<Longrightarrow> farm_step b calloc f (snd (accountSolution now i a f))"
| submit: "sol_midx s < length (te_miners (f_telemetry f)) \<Longrightarrow>
    farm_step b calloc f (snd (submitProofAsync False calloc tid now s f))"
| scrambler: "farm_step b calloc f (set_nonce_scrambler n f)"
| segment: "farm_step b calloc f (set_nonce_segment_width w f)"
| temperatures: "farm_step b calloc f (setTStartTStop t0 t1 f)"
| collect: "collectData readings ec f = Inr f' \<Longrightarrow> farm_step b calloc f f'"
| miner: "k < length (f_miners f) \<Longrightarrow>
    farm_step b calloc f (f\<lparr>f_miners := (f_miners f)[k := apply_op op (f_miners f ! k)]\<rparr>)"

text \<open>
  The contexts of the light cache of contexts are those created for their epochs.
\<close>

definition light_ok :: "(int \<Rightarrow> bool) \<Rightarrow> managed_state \<Rightarrow> bool" where
  "light_ok calloc st \<longleftrightarrow>
     (\<forall>c \<in> set (ms_store st). ethash_create_epoch_context calloc (ctx_epoch_number c) = Some c) \<and>
     (\<forall>p. ms_shared st = Some p \<longrightarrow> p < length (ms_store st)) \<and>
     (\<forall>tid p. ms_local st tid = Some p \<longrightarrow> p < length (ms_store st))"

text \<open>
  A farm with two miners.
\<close>

definition two_miners :: farm where
  "two_miners = (farm_new 0 5 None None
      \<lparr>fs_dagLoadMode = 0, fs_noEval = False, fs_hwMon = 0, fs_ergodicity = 0, fs_tempStart = 40, fs_tempStop = 0\<rparr> [])
     \<lparr>f_miners := [miner_new 0 0 DeviceDescriptor_default, miner_new 0 1 DeviceDescriptor_default],
      f_telemetry := \<lparr>te_hwmon = False, te_start = 0, te_farm = TelemetryAccount_new 0,
        te_miners = [TelemetryAccount_new 0, TelemetryAccount_new 0]\<rparr>\<rparr>"

section \<open>Nonce segments\<close>

lemma segment_width_spec:
  assumes "0 < n" and "unat ex * 4 \<le> 64" and "n \<le> 2 ^ (64 - unat ex * 4)"
  obtains w where "segment_width ex n = Some w" and "n * 2 ^ w \<le> 2 ^ (64 - unat ex * 4)"
    and "2 ^ (64 - unat ex * 4) < n * 2 ^ (w + 1)"
proof -
  define k where "k = 64 - unat ex * 4"
  have p: "2 powr (64 - real (unat ex) * 4) = (2 :: real) ^ k"
    using assms(2) by (simp add: k_def powr_realpow [symmetric])
  define x where "x = log 2 (2 ^ k / real n)"
  have r: "real n \<le> 2 ^ k" using assms(3) unfolding k_def by (metis of_nat_le_iff of_nat_numeral of_nat_power)
  then have "1 \<le> 2 ^ k / real n" using assms(1) by simp
  then have x0: "0 \<le> x" by (simp add: x_def)
  define w where "w = nat \<lfloor>x\<rfloor>"
  have "real w \<le> x" "x < real w + 1" using x0 by (simp_all add: w_def)
  moreover have "2 powr x = 2 ^ k / real n" using assms(1) by (simp add: x_def)
  ultimately have "2 powr real w \<le> 2 ^ k / real n" "2 ^ k / real n < 2 powr (real w + 1)"
    by (metis powr_le_cancel_iff one_less_numeral_iff semiring_norm(76), metis powr_less_cancel_iff one_less_numeral_iff semiring_norm(76))
  then have "2 ^ w * real n \<le> 2 ^ k" "2 ^ k < 2 ^ (w + 1) * real n"
    using assms(1) by (simp_all add: powr_realpow [symmetric] field_simps powr_add)
  then have "real (n * 2 ^ w) \<le> real (2 ^ k)" "real (2 ^ k) < real (n * 2 ^ (w + 1))"
    by (simp_all add: mult.commute)
  then have "n * 2 ^ w \<le> 2 ^ k" "2 ^ k < n * 2 ^ (w + 1)" by (simp_all only: of_nat_le_iff of_nat_less_iff)
  moreover have "segment_width ex n = Some w"
    using assms(1) x0 unfolding segment_width_def p x_def [symmetric] w_def by simp
  ultimately show ?thesis using that unfolding k_def by blast
qed

lemma assign_works:
  "k \<le> length (f_miners f) \<Longrightarrow>
   f_nonce_segment_with (fold (assign_work start) [0..<k] f) = f_nonce_segment_with f \<and>
   length (f_miners (fold (assign_work start) [0..<k] f)) = length (f_miners f) \<and>
   (\<exists>s. f_currentWp (fold (assign_work start) [0..<k] f) = (f_currentWp f)\<lparr>wp_startNonce := s\<rparr>) \<and>
   (\<forall>i < length (f_miners f). f_miners (fold (assign_work start) [0..<k] f) ! i =
      (if i < k then miner_setWork (with_nonce start (f_nonce_segment_with f) i (f_currentWp f)) (f_miners f ! i)
       else f_miners f ! i))"
proof (induction k)
  case 0
  show ?case by (auto intro!: exI [of _ "wp_startNonce (f_currentWp f)"])
next
  case (Suc k)
  then show ?case
    by (auto simp: assign_work_def Let_def with_nonce_def nth_list_update less_Suc_eq)
qed

lemma farm_setEpoch_keeps:
  "farm_setEpoch calloc tid e f = Inr f' \<Longrightarrow>
     f_miners f' = map (miner_setEpoch (f_currentEc f')) (f_miners f) \<and> f_nonce_segment_with f' = f_nonce_segment_with f \<and>
     f_nonce_scrambler f' = f_nonce_scrambler f \<and> f_settings f' = f_settings f \<and> f_telemetry f' = f_telemetry f"
  by (auto simp: farm_setEpoch_def Let_def split: prod.splits option.splits)

lemma miner_setEpoch_simps [simp]:
  "miner_paused (miner_setEpoch ec m) = miner_paused m" "mi_work (miner_setEpoch ec m) = mi_work m"
  "mi_index (miner_setEpoch ec m) = mi_index m" "mi_pauseFlags (miner_setEpoch ec m) = mi_pauseFlags m"
  by (simp_all add: miner_setEpoch_def miner_paused_def)

lemma farm_setWork_cases:
  assumes "farm_setWork calloc tid random wp f = Inr f'"
  obtains g where "f_miners g = f_miners f \<or> (\<exists>ec. f_miners g = map (miner_setEpoch ec) (f_miners f))"
    and "f_currentWp g = wp" and "f_telemetry g = f_telemetry f"
    and "wp_exSizeBytes wp > 0 \<Longrightarrow> segment_width (wp_exSizeBytes wp) (length (f_miners f)) = Some (f_nonce_segment_with g)"
    and "wp_exSizeBytes wp = 0 \<Longrightarrow> f_nonce_segment_with g = f_nonce_segment_with f"
    and "f' = fold (assign_work (first_nonce wp g)) [0..<length (f_miners g)] g"
proof -
  obtain h where h: "(if wp_epoch (f_currentWp f) \<noteq> wp_epoch wp then farm_setEpoch calloc tid (wp_epoch wp) f else Inr f) = Inr h"
    using assms unfolding farm_setWork_def by (auto split: sum.splits)
  have hk: "f_miners h = f_miners f \<or> (\<exists>ec. f_miners h = map (miner_setEpoch ec) (f_miners f))"
    "f_nonce_segment_with h = f_nonce_segment_with f" "f_telemetry h = f_telemetry f" "length (f_miners h) = length (f_miners f)"
    using h farm_setEpoch_keeps [of calloc tid "wp_epoch wp" f h] by (auto split: if_splits)
  let ?a = "h\<lparr>f_currentWp := wp\<rparr>"
  define g0 where "g0 = (if fs_ergodicity (f_settings h) = 2 \<and> wp_exSizeBytes wp = 0 then farm_shuffle random ?a else ?a)"
  have g0: "f_miners g0 = f_miners h" "f_currentWp g0 = wp" "f_telemetry g0 = f_telemetry h"
    "f_nonce_segment_with g0 = f_nonce_segment_with h"
    by (simp_all add: g0_def farm_shuffle_def)
  have e: "farm_setWork calloc tid random wp f =
    (if wp_exSizeBytes wp > 0 then
       case segment_width (wp_exSizeBytes wp) (length (f_miners g0)) of None \<Rightarrow> Inl BadConversion
       | Some w \<Rightarrow> Inr (fold (assign_work (wp_startNonce wp)) [0..<length (f_miners g0)] (g0\<lparr>f_nonce_segment_with := w\<rparr>))
     else Inr (fold (assign_work (f_nonce_scrambler g0)) [0..<length (f_miners g0)] g0))"
    unfolding farm_setWork_def h by (simp add: Let_def g0_def farm_shuffle_def split: option.split)
  show ?thesis
  proof (cases "wp_exSizeBytes wp > 0")
    case True
    with e assms obtain w where w: "segment_width (wp_exSizeBytes wp) (length (f_miners g0)) = Some w"
      "f' = fold (assign_work (wp_startNonce wp)) [0..<length (f_miners g0)] (g0\<lparr>f_nonce_segment_with := w\<rparr>)"
      by (auto split: option.splits)
    show ?thesis
      by (rule that [of "g0\<lparr>f_nonce_segment_with := w\<rparr>"]) (use True w hk g0 in \<open>simp_all add: first_nonce_def\<close>)
  next
    case False
    with e assms have "f' = fold (assign_work (f_nonce_scrambler g0)) [0..<length (f_miners g0)] g0" by simp
    then show ?thesis by (intro that [of g0]) (use False hk g0 in \<open>simp_all add: first_nonce_def\<close>)
  qed
qed

lemma farm_setWork_miners:
  assumes "farm_setWork calloc tid random wp f = Inr f'" and "i < length (f_miners f)"
  obtains s where "\<And>i. i < length (f_miners f) \<Longrightarrow> \<not> miner_paused (f_miners f ! i) \<Longrightarrow>
      mi_work (f_miners f' ! i) = with_nonce s (f_nonce_segment_with f') i wp"
    and "wp_exSizeBytes wp > 0 \<Longrightarrow> s = wp_startNonce wp \<and>
      segment_width (wp_exSizeBytes wp) (length (f_miners f)) = Some (f_nonce_segment_with f')"
    and "wp_exSizeBytes wp = 0 \<Longrightarrow> f_nonce_segment_with f' = f_nonce_segment_with f"
proof (rule farm_setWork_cases [OF assms(1)])
  fix g
  assume g: "f_miners g = f_miners f \<or> (\<exists>ec. f_miners g = map (miner_setEpoch ec) (f_miners f))" "f_currentWp g = wp"
    and ex: "wp_exSizeBytes wp > 0 \<Longrightarrow> segment_width (wp_exSizeBytes wp) (length (f_miners f)) = Some (f_nonce_segment_with g)"
    and nx: "wp_exSizeBytes wp = 0 \<Longrightarrow> f_nonce_segment_with g = f_nonce_segment_with f"
    and f': "f' = fold (assign_work (first_nonce wp g)) [0..<length (f_miners g)] g"
  note a = assign_works [of "length (f_miners g)" g "first_nonce wp g", folded f']
  have len: "length (f_miners g) = length (f_miners f)" using g(1) by auto
  have p: "miner_paused (f_miners g ! i) = miner_paused (f_miners f ! i)" if "i < length (f_miners f)" for i
    using g(1) that by auto
  show ?thesis
  proof (rule that [of "first_nonce wp g"])
    show "mi_work (f_miners f' ! i) = with_nonce (first_nonce wp g) (f_nonce_segment_with f') i wp"
      if "i < length (f_miners f)" "\<not> miner_paused (f_miners f ! i)" for i
      using a that p [of i] len g(2) by (simp add: miner_setWork_def kick_miner_def)
    show "first_nonce wp g = wp_startNonce wp \<and>
      segment_width (wp_exSizeBytes wp) (length (f_miners f)) = Some (f_nonce_segment_with f')" if "wp_exSizeBytes wp > 0"
      using ex [OF that] a that by (simp add: first_nonce_def)
    show "f_nonce_segment_with f' = f_nonce_segment_with f" if "wp_exSizeBytes wp = 0" using nx [OF that] a by simp
  qed
qed

lemma segment_nonce: "w < 64 \<Longrightarrow> wp_startNonce (with_nonce s w i wp) + of_nat a = s + of_nat (i * 2 ^ w + a)"
  by (simp add: with_nonce_def push_bit_eq_mult)

lemma offset_less:
  assumes "i < n" and "a < (2 :: nat) ^ w"
  shows "i * 2 ^ w + a < n * 2 ^ w"
proof -
  have "i * 2 ^ w + a < (i + 1) * 2 ^ w" using assms(2) by simp
  also have "\<dots> \<le> n * 2 ^ w" using assms(1) by (intro mult_le_mono1) simp
  finally show ?thesis .
qed

lemma offset_inj:
  assumes "a < (2 :: nat) ^ w" and "b < 2 ^ w" and "i * 2 ^ w + a = j * 2 ^ w + b"
  shows "i = j"
proof -
  have "(i * 2 ^ w + a) div 2 ^ w = i" "(j * 2 ^ w + b) div 2 ^ w = j" using assms(1,2) by simp_all
  with assms(3) show ?thesis by simp
qed

text \<open>
  C9: the miners search disjoint segments: after new work, no nonce of the segment of a miner occurs in the segment of
  another one, and when the pool fixes leading digits of the nonce, every nonce keeps them.
\<close>
theorem nonce_segments_disjoint:
  assumes "farm_setWork calloc tid random wp f = Inr f'"
    and "i < length (f_miners f)" and "j < length (f_miners f)" and "i \<noteq> j"
    and "\<not> miner_paused (f_miners f ! i)" and "\<not> miner_paused (f_miners f ! j)"
    and "if wp_exSizeBytes wp = 0 then length (f_miners f) * 2 ^ f_nonce_segment_with f \<le> 2 ^ 64
         else unat (wp_exSizeBytes wp) \<le> 16 \<and> length (f_miners f) \<le> 2 ^ (64 - unat (wp_exSizeBytes wp) * 4)"
    and "a < 2 ^ f_nonce_segment_with f'" and "b < 2 ^ f_nonce_segment_with f'"
  shows "wp_startNonce (mi_work (f_miners f' ! i)) + of_nat a \<noteq> wp_startNonce (mi_work (f_miners f' ! j)) + of_nat b \<and>
    (wp_exSizeBytes wp \<noteq> 0 \<longrightarrow>
      (\<exists>t < 2 ^ (64 - unat (wp_exSizeBytes wp) * 4).
        wp_startNonce (mi_work (f_miners f' ! i)) + of_nat a = wp_startNonce wp + of_nat t))"
proof -
  let ?n = "length (f_miners f)" and ?w = "f_nonce_segment_with f'" and ?k = "64 - unat (wp_exSizeBytes wp) * 4"
  obtain s where s: "\<And>i. i < ?n \<Longrightarrow> \<not> miner_paused (f_miners f ! i) \<Longrightarrow> mi_work (f_miners f' ! i) = with_nonce s ?w i wp"
    "wp_exSizeBytes wp > 0 \<Longrightarrow> s = wp_startNonce wp \<and> segment_width (wp_exSizeBytes wp) ?n = Some ?w"
    "wp_exSizeBytes wp = 0 \<Longrightarrow> ?w = f_nonce_segment_with f"
    using farm_setWork_miners [OF assms(1,2)] by blast
  have n: "2 \<le> ?n" using assms(2-4) by linarith
  have ex: "?n * 2 ^ ?w \<le> 2 ^ ?k" if "wp_exSizeBytes wp \<noteq> 0"
  proof -
    have "0 < ?n" "unat (wp_exSizeBytes wp) * 4 \<le> 64" "?n \<le> 2 ^ ?k" using n assms(7) that by auto
    with segment_width_spec obtain w where "segment_width (wp_exSizeBytes wp) ?n = Some w" "?n * 2 ^ w \<le> 2 ^ ?k" by metis
    then show ?thesis using s(2) that by (simp add: word_neq_0_conv)
  qed
  have "(2 :: nat) ^ ?k \<le> 2 ^ 64" by (intro power_increasing) simp_all
  then have le: "?n * 2 ^ ?w \<le> 2 ^ 64" using ex s(3) assms(7) by (cases "wp_exSizeBytes wp = 0") auto
  have w: "?w < 64"
  proof (rule ccontr)
    assume "\<not> ?w < 64"
    then have "(2 :: nat) ^ 64 \<le> 2 ^ ?w" by (intro power_increasing) simp_all
    moreover have "2 * 2 ^ ?w \<le> ?n * 2 ^ ?w" using n by (intro mult_le_mono1)
    ultimately have "2 * 2 ^ 64 \<le> (2 :: nat) ^ 64" using le by linarith
    then show False by simp
  qed
  note st = s(1) [OF assms(2,5)] s(1) [OF assms(3,6)]
  have lt: "i * 2 ^ ?w + a < 2 ^ 64" "j * 2 ^ ?w + b < 2 ^ 64"
    using offset_less [OF assms(2,8)] offset_less [OF assms(3,9)] le by simp_all
  have "of_nat (i * 2 ^ ?w + a) \<noteq> (of_nat (j * 2 ^ ?w + b) :: u64)"
  proof
    assume "of_nat (i * 2 ^ ?w + a) = (of_nat (j * 2 ^ ?w + b) :: u64)"
    then have "unat (of_nat (i * 2 ^ ?w + a) :: u64) = unat (of_nat (j * 2 ^ ?w + b) :: u64)" by (simp only:)
    then have "i * 2 ^ ?w + a = j * 2 ^ ?w + b"
      using lt by (simp only: unat_of_nat take_bit_nat_eq_self) simp
    then show False using offset_inj [OF assms(8,9)] assms(4) by simp
  qed
  moreover have "\<exists>t < 2 ^ ?k. wp_startNonce (mi_work (f_miners f' ! i)) + of_nat a = wp_startNonce wp + of_nat t"
    if "wp_exSizeBytes wp \<noteq> 0"
    using s(2) that ex [OF that] offset_less [OF assms(2,8)] unfolding st segment_nonce [OF w]
    by (intro exI [of _ "i * 2 ^ ?w + a"]) (auto simp: word_neq_0_conv)
  ultimately show ?thesis unfolding st segment_nonce [OF w] by simp
qed

section \<open>The invariant\<close>

lemma sum_list_map_update:
  "i < length xs \<Longrightarrow> sum_list (map g (xs[i := y])) + g (xs ! i) = sum_list (map g xs) + (g y :: 'a::ab_group_add)"
  by (induction xs arbitrary: i) (auto split: nat.split simp: algebra_simps)

lemma accounts_update:
  assumes "accounts_balanced f" and "i < length (te_miners (f_telemetry f))"
    and "ta_solutions t = ta_solutions (te_miners (f_telemetry f) ! i)"
    and "te_miners (f_telemetry f') = (te_miners (f_telemetry f))[i := t]"
    and "ta_solutions (te_farm (f_telemetry f')) = ta_solutions (te_farm (f_telemetry f))"
  shows "accounts_balanced f'"
proof -
  have "total c f' = total c f" for c
    using sum_list_map_update [OF assms(2), of "c \<circ> ta_solutions" t] assms(3) unfolding total_def assms(4) by simp
  with assms(1,5) show ?thesis by (simp add: accounts_balanced_def)
qed

lemma accountSolution_balanced:
  assumes "accounts_balanced f" and "i < length (te_miners (f_telemetry f))"
  shows "accounts_balanced (snd (accountSolution now i a f))"
proof -
  have up: "sum_list (map g (xs[i := y])) = sum_list (map g xs) + (g y - g (xs ! i))"
    if "i < length xs" for xs and y :: TelemetryAccountType and g :: "TelemetryAccountType \<Rightarrow> u32"
    using sum_list_map_update [OF that, of g y] by (simp add: algebra_simps)
  show ?thesis
    using assms by (cases a)
      (auto simp: accountSolution_def accounts_balanced_def counters_def total_def up account_in_def account_def Let_def)
qed

lemma miners_ok_map:
  assumes "miners_ok ms" and "\<And>m. m \<in> set ms \<Longrightarrow> idle_when_paused m \<Longrightarrow> mi_index (g m) = mi_index m \<and> idle_when_paused (g m)"
  shows "miners_ok (map g ms)"
  using assms by (auto simp: miners_ok_def list_all_iff comp_def cong: map_cong)

lemma miners_ok_update:
  assumes "miners_ok ms" and "k < length ms" and "mi_index m = mi_index (ms ! k)" and "idle_when_paused m"
  shows "miners_ok (ms[k := m])"
proof -
  have "map mi_index (ms[k := m]) = map mi_index ms"
    using assms(2,3) by (metis list_update_id map_update nth_map)
  moreover have "list_all idle_when_paused (ms[k := m])"
    using assms(1,4) set_update_subset_insert [of ms k m] by (auto simp: miners_ok_def list_all_iff)
  ultimately show ?thesis using assms(1) by (simp add: miners_ok_def)
qed

lemma apply_op_index [simp]: "mi_index (apply_op op m) = mi_index m"
  by (cases op) (auto simp: miner_defs)

lemma idle_ops [simp]:
  "idle_when_paused m \<Longrightarrow> idle_when_paused (miner_setWork w m)"
  "idle_when_paused m \<Longrightarrow> idle_when_paused (miner_setEpoch ec m)"
  "idle_when_paused m \<Longrightarrow> idle_when_paused (miner_pause r m)"
  "idle_when_paused m \<Longrightarrow> idle_when_paused (miner_resume r m)"
  "idle_when_paused m \<Longrightarrow> idle_when_paused (TriggerHashRateUpdate s m)"
  using apply_op_idle [of m "SetWork w"] apply_op_idle [of m "SetEpoch ec"] apply_op_idle [of m "Pause r"]
    apply_op_idle [of m "Resume r"] apply_op_idle [of m "TriggerRate s"] by simp_all

lemma index_ops [simp]:
  "mi_index (miner_setWork w m) = mi_index m" "mi_index (miner_pause r m) = mi_index m"
  "mi_index (miner_resume r m) = mi_index m" "mi_index (TriggerHashRateUpdate s m) = mi_index m"
  using apply_op_index [of "SetWork w" m] apply_op_index [of "Pause r" m] apply_op_index [of "Resume r" m]
    apply_op_index [of "TriggerRate s" m] by simp_all

lemma idle_worker [simp]:
  "idle_when_paused (miner_startWorking m) = idle_when_paused m" "mi_index (miner_startWorking m) = mi_index m"
  "idle_when_paused (miner_new now i d)" "mi_index (miner_new now i d) = i"
  by (simp_all add: idle_when_paused_def miner_paused_def miner_startWorking_def miner_new_def pause_reasons_def)

lemma start_device_ok: "farm_ok f \<Longrightarrow> farm_ok (start_device b now d f)"
  by (cases d) (auto simp: start_device_def farm_ok_def miners_ok_def accounts_balanced_def counters_def total_def
      TelemetryAccount_new_def SolutionAccount_new_def Let_def)

lemma farm_start_ok: "farm_ok f \<Longrightarrow> farm_ok (farm_start b now f)"
proof -
  assume ok: "farm_ok f"
  have "farm_ok (fold (start_device b now) ds f)" for ds
    using ok by (rule fold_invariant) (rule start_device_ok)
  moreover have "miners_ok (map miner_startWorking (f_miners f))" using ok by (intro miners_ok_map) (auto simp: farm_ok_def)
  ultimately show ?thesis using ok
    by (auto simp: farm_start_def Let_def farm_ok_def accounts_balanced_def total_def)
qed

lemma farm_ok_cong:
  assumes "farm_ok f" and "f_telemetry f' = f_telemetry f" and "miners_ok (f_miners f')"
    and "length (f_miners f') \<le> length (f_miners f)"
  shows "farm_ok f'"
  using assms by (simp add: farm_ok_def accounts_balanced_def total_def)

lemma farm_ok_update:
  assumes "farm_ok f" and "k < length (f_miners f)" and "mi_index m = mi_index (f_miners f ! k)"
    and "idle_when_paused (f_miners f ! k) \<Longrightarrow> idle_when_paused m"
  shows "miners_ok ((f_miners f)[k := m])"
proof -
  have "idle_when_paused (f_miners f ! k)" using assms(1,2) by (simp add: farm_ok_def miners_ok_def list_all_length)
  with assms show ?thesis by (intro miners_ok_update) (simp_all add: farm_ok_def)
qed

lemma assign_work_ok: "farm_ok f \<Longrightarrow> k < length (f_miners f) \<Longrightarrow> farm_ok (assign_work s k f)"
  by (rule farm_ok_cong) (auto simp: assign_work_def Let_def intro!: farm_ok_update)

lemma assign_works_ok: "k \<le> length (f_miners f) \<Longrightarrow> farm_ok f \<Longrightarrow> farm_ok (fold (assign_work s) [0..<k] f)"
proof (induction k)
  case (Suc k)
  then have "length (f_miners (fold (assign_work s) [0..<k] f)) = length (f_miners f)" by (intro assign_works [THEN conjunct2, THEN conjunct1]) simp
  with Suc show ?case by (auto intro: assign_work_ok)
qed simp

lemma farm_setWork_ok:
  assumes "farm_ok f" and "farm_setWork calloc tid random wp f = Inr f'"
  shows "farm_ok f'"
proof (rule farm_setWork_cases [OF assms(2)])
  fix g
  assume g: "f_miners g = f_miners f \<or> (\<exists>ec. f_miners g = map (miner_setEpoch ec) (f_miners f))"
    "f_telemetry g = f_telemetry f" "f' = fold (assign_work (first_nonce wp g)) [0..<length (f_miners g)] g"
  have "miners_ok (f_miners g)"
    using g(1) assms(1) by (auto simp: farm_ok_def intro!: miners_ok_map)
  then have "farm_ok g" using g(1,2) by (intro farm_ok_cong [OF assms(1)]) auto
  then show ?thesis using assign_works_ok [of "length (f_miners g)" g] g(3) by simp
qed

lemma check_temperature_props:
  "idle_when_paused m \<Longrightarrow> idle_when_paused (check_temperature s t m)" "mi_index (check_temperature s t m) = mi_index m"
  by (simp_all add: check_temperature_def Let_def)

lemma monitor_miner_props:
  assumes "monitor_miner readings f m = (x, m')"
  shows "mi_index m' = mi_index m \<and> (idle_when_paused m' = idle_when_paused m)"
  using assms by (auto simp: monitor_miner_def read_card_def resolve_card_def idle_when_paused_def miner_paused_def Let_def
      split: prod.splits HwMonitorInfoType.splits option.splits if_splits)

lemma collect_miner_ok:
  assumes "farm_ok f" and "k < length (f_miners f)"
  shows "\<exists>hr' f'. collect_miner readings k (hr, Inr f) = (hr', Inr f') \<and> farm_ok f' \<and> length (f_miners f') = length (f_miners f)"
proof -
  let ?m = "f_miners f ! k"
  have "map mi_index (f_miners f) ! k = k" using assms by (simp add: farm_ok_def miners_ok_def)
  then have i: "mi_index ?m = k" using assms(2) by simp
  have k: "k < length (te_miners (f_telemetry f))" using assms by (simp add: farm_ok_def)
  let ?hr = "if miner_paused ?m then 0 else mi_hashRate ?m"
  let ?t0 = "(te_miners (f_telemetry f) ! k)\<lparr>ta_hashrate := ?hr, ta_paused := miner_paused ?m\<rparr>"
  obtain t m where tm: "(if fs_hwMon (f_settings f) \<noteq> 0 then
       let ((tempC, fanpcnt, powerW), m) = monitor_miner readings f ?m; m = check_temperature (f_settings f) tempC m
       in (?t0\<lparr>ta_sensors := \<lparr>hs_tempC = int tempC, hs_fanP = int fanpcnt, hs_powerW = real powerW / 1000\<rparr>\<rparr>, m)
     else (?t0, ?m)) = (t, m)" by fastforce
  have t: "ta_solutions t = ta_solutions (te_miners (f_telemetry f) ! k)"
    using tm by (auto simp: Let_def split: if_splits prod.splits)
  have m: "mi_index m = mi_index ?m \<and> (idle_when_paused ?m \<longrightarrow> idle_when_paused m)"
    using tm monitor_miner_props [of readings f ?m] check_temperature_props
    by (auto simp: Let_def split: if_splits prod.splits)
  define f' where "f' = f\<lparr>f_miners := (f_miners f)[k := TriggerHashRateUpdate False m],
    f_telemetry := (f_telemetry f)\<lparr>te_miners := (te_miners (f_telemetry f))[k := t],
      te_farm := (te_farm (f_telemetry f))\<lparr>ta_hashrate := hr + ?hr\<rparr>\<rparr>\<rparr>"
  have "collect_miner readings k (hr, Inr f) = (hr + ?hr, Inr f')"
    using k by (simp only: collect_miner_def prod.case sum.case Let_def i tm [unfolded Let_def] if_True f'_def)
  moreover have "accounts_balanced f'"
    by (rule accounts_update [OF _ k t]) (use assms(1) in \<open>simp_all add: farm_ok_def f'_def\<close>)
  moreover have "miners_ok (f_miners f')"
    unfolding f'_def using m by (simp, intro farm_ok_update [OF assms]) simp_all
  ultimately show ?thesis using assms(1) by (auto simp: farm_ok_def f'_def)
qed

lemma collect_miners_ok:
  "k \<le> length (f_miners f) \<Longrightarrow> farm_ok f \<Longrightarrow>
   \<exists>hr' f'. fold (collect_miner readings) [0..<k] (hr, Inr f) = (hr', Inr f') \<and> farm_ok f' \<and> length (f_miners f') = length (f_miners f)"
proof (induction k)
  case (Suc k)
  then obtain hr1 f1 where "fold (collect_miner readings) [0..<k] (hr, Inr f) = (hr1, Inr f1)" "farm_ok f1"
    "length (f_miners f1) = length (f_miners f)" by auto
  with collect_miner_ok [of f1 k readings hr1] Suc.prems show ?case by simp
qed simp

lemma collectData_ok: "farm_ok f \<Longrightarrow> \<exists>f'. collectData readings ec f = Inr f' \<and> farm_ok f'"
  using collect_miners_ok [of "length (f_miners f)" f readings 0] by (auto simp: collectData_def)

lemma submitProof_ok:
  assumes "farm_ok f" and "sol_midx s < length (te_miners (f_telemetry f))"
  shows "farm_ok (snd (submitProofAsync d calloc tid now s f))"
proof -
  have a: "farm_ok (snd (accountSolution now (sol_midx s) Failed g))" if "farm_ok g" "f_telemetry g = f_telemetry f" for g
    using accountSolution_balanced [of g "sol_midx s" now Failed] that assms(2)
    by (auto simp: farm_ok_def accountSolution_def Let_def)
  have c: "farm_ok g" if "f_telemetry g = f_telemetry f" "f_miners g = f_miners f" for g
    using assms(1) that by (intro farm_ok_cong [OF assms(1)]) (auto simp: farm_ok_def)
  have k: "farm_ok (f\<lparr>f_managed := ms\<rparr>)" "farm_ok (f\<lparr>f_managed := ms, f_found := x\<rparr>)" "farm_ok (f\<lparr>f_found := x\<rparr>)" for ms x
    by (rule c; simp)+
  have "farm_ok (snd (accountSolution now (sol_midx s) Failed (f\<lparr>f_managed := ms\<rparr>)))" for ms
    by (rule a [OF k(1)]) simp
  with k show ?thesis
    by (simp add: submitProofAsync_def Let_def split: prod.split option.split)
qed

lemma farm_step_ok: "farm_step b calloc f f' \<Longrightarrow> farm_ok f \<Longrightarrow> farm_ok f'"
proof (induction rule: farm_step.induct)
  case (stop f)
  then show ?case by (auto simp: farm_stop_def farm_ok_def miners_ok_def accounts_balanced_def total_def)
next
  case (pause f)
  then show ?case
    by (intro farm_ok_cong [OF pause]) (auto simp: farm_pause_def farm_ok_def intro!: miners_ok_map)
next
  case (resume f)
  then show ?case
    by (intro farm_ok_cong [OF resume]) (auto simp: farm_resume_def farm_ok_def intro!: miners_ok_map)
next
  case (account i f now a)
  then show ?case using accountSolution_balanced [of f i now a]
    by (auto simp: farm_ok_def accountSolution_def Let_def)
next
  case (collect readings ec f f')
  then show ?case using collectData_ok [of f readings ec] by auto
next
  case (miner k f op)
  then show ?case
    by (intro farm_ok_cong [OF miner(2)]) (auto intro!: farm_ok_update apply_op_idle)
next
  case (segment f w)
  then show ?case by (intro farm_ok_cong [OF segment]) (auto simp: set_nonce_segment_width_def farm_ok_def)
next
  case (start f now)
  then show ?case by (rule farm_start_ok)
next
  case (work tid random wp f f')
  then show ?case by (blast intro: farm_setWork_ok)
next
  case (submit s f tid now)
  then show ?case by (blast intro: submitProof_ok)
qed (auto simp: farm_restart_def set_nonce_scrambler_def setTStartTStop_def farm_ok_def accounts_balanced_def total_def)

lemma farm_new_ok: "farm_ok (farm_new now random nvml sysfs settings devices)"
  by (simp add: farm_ok_def farm_new_def miners_ok_def accounts_balanced_def counters_def total_def
      TelemetryAccount_new_def SolutionAccount_new_def Let_def)


section \<open>Verification of solutions\<close>

lemma word64_at_words: "i < length ws \<Longrightarrow> word64_at (words_of_word64s ws) i = ws ! i"
proof (induction ws arbitrary: i)
  case (Cons w ws)
  have w: "push_bit 32 (ucast (ucast (drop_bit 32 w) :: u32)) OR ucast (ucast w :: u32) = w"
    by (rule bit_word_eqI) (auto simp: bit_simps)
  show ?case
  proof (cases i)
    case 0
    then show ?thesis using w by (simp add: word64_at_def words_of_word64s_def)
  next
    case (Suc j)
    with Cons have "word64_at (words_of_word64s ws) j = ws ! j" by simp
    with Suc show ?thesis by (simp add: word64_at_def words_of_word64s_def)
  qed
qed simp

lemma byte_at_load_le: "k < 8 \<Longrightarrow> j + k < length bs \<Longrightarrow> byte_at (load_le (drop j bs)) k = bs ! (j + k)"
proof (rule bit_word_eqI)
  fix n assume k: "k < 8" "j + k < length bs" and n: "n < LENGTH(8)"
  then have "(8 * k + n) div 8 = k" "(8 * k + n) mod 8 = n" "8 * k + n < 64" "k < length bs - j" by simp_all
  with k n show "bit (byte_at (load_le (drop j bs)) k) n = bit (bs ! (j + k)) n"
    by (simp add: byte_at_def bit_simps bit_load_le_drop)
qed

lemma bytes_of_hash256: "length bs = 32 \<Longrightarrow> bytes_of_words (hash256_from_bytes bs) = bs"
proof -
  assume l: "length bs = 32"
  have len: "length (hash256_from_bytes bs) = 8" by (simp add: hash256_from_bytes_def)
  have "map (byte_at (word64_at (hash256_from_bytes bs) i)) [0..<8] = slice 8 i bs" if "i < 4" for i
  proof (rule nth_equalityI)
    show "length (map (byte_at (word64_at (hash256_from_bytes bs) i)) [0..<8]) = length (slice 8 i bs)"
      using length_slice [of 8 4 bs i] l that by simp
    fix k assume "k < length (map (byte_at (word64_at (hash256_from_bytes bs) i)) [0..<8])"
    then have k: "k < 8" by simp
    then have "map (byte_at (word64_at (hash256_from_bytes bs) i)) [0..<8] ! k = byte_at (load_le (drop (8 * i) bs)) k"
      using that by (simp add: hash256_from_bytes_def word64_at_words del: upt_Suc)
    also have "\<dots> = bs ! (8 * i + k)" using k that l by (intro byte_at_load_le) simp_all
    also have "\<dots> = slice 8 i bs ! k" using k that l by (simp add: slice_def)
    finally show "map (byte_at (word64_at (hash256_from_bytes bs) i)) [0..<8] ! k = slice 8 i bs ! k" .
  qed
  then have "bytes_of_words (hash256_from_bytes bs) = concat (map (\<lambda>i. slice 8 i bs) [0..<4])"
    unfolding bytes_of_words_word64s [OF len] by (metis (mono_tags, lifting) atLeastLessThan_upt map_eq_conv atLeastLessThan_iff)
  also have "\<dots> = slice 8 0 bs @ slice 8 1 bs @ slice 8 2 bs @ slice 8 3 bs" by (simp add: upt_rec numeral_eq_Suc)
  also have "\<dots> = bs" by (rule slices_4 [OF l, symmetric])
  finally show ?thesis .
qed

lemma get_light_ok:
  assumes "light_ok calloc st" and "0 \<le> e" and "e \<le> 32639" and c: "ethash_create_epoch_context calloc e = Some c"
  shows "\<exists>p st'. get_global_epoch_context calloc tid e st = (Some p, st') \<and> light_ok calloc st' \<and> ms_store st' ! p = c"
proof -
  have e: "ctx_epoch_number c = e"
    by (rule create_epoch_context_props(1) [OF assms(2,3) c [unfolded ethash_create_epoch_context_def]])
  have st: "ms_store st ! q = c" if "q < length (ms_store st)" "ctx_epoch_number (ms_store st ! q) = e" for q
    using assms(1) c that by (metis light_ok_def nth_mem option.inject)
  show ?thesis
  proof (cases "local_misses tid e st")
    case False
    then obtain q where "ms_local st tid = Some q" "ctx_epoch_number (ms_store st ! q) = e"
      by (auto simp: local_misses_def split: option.splits)
    moreover from this have "q < length (ms_store st)" using assms(1) by (auto simp: light_ok_def)
    ultimately show ?thesis using False assms(1) st by (auto simp: get_global_epoch_context_def)
  next
    case True
    show ?thesis
    proof (cases "\<exists>q. ms_shared st = Some q \<and> ctx_epoch_number (ms_store st ! q) = e")
      case s: True
      then obtain q where q: "ms_shared st = Some q" "ctx_epoch_number (ms_store st ! q) = e" by blast
      then have "q < length (ms_store st)" using assms(1) by (auto simp: light_ok_def)
      with q True assms(1) st [of q] show ?thesis
        by (auto simp: get_global_epoch_context_def update_local_context_def update_local_def light_ok_def)
    next
      case s: False
      with True c e assms(1) show ?thesis
        by (auto simp: get_global_epoch_context_def update_local_context_def update_local_def light_ok_def Let_def less_Suc_eq
            split: option.splits)
    qed
  qed
qed

lemma eval_progpow_light:
  assumes "light_ok calloc st" and "0 \<le> e" and "e \<le> 32639" and "ethash_create_epoch_context calloc e = Some c"
  shows "\<exists>st'. eval_progpow calloc tid e block header nonce st =
      (let r = fst (progpow_hash c block (hash256_from_bytes header) nonce)
       in (Some (bytes_of_words (res_final_hash r), bytes_of_words (res_mix_hash r)), st')) \<and> light_ok calloc st'"
  using get_light_ok [OF assms, of tid] by (auto simp: eval_progpow_def Let_def)

lemma length_final_hash: "length (res_final_hash (fst (progpow_hash c block header nonce))) = 8"
  by (auto simp: progpow_hash_def Let_def keccak_progpow_256_def split: prod.split)

text \<open>
  C4: with evaluation enabled, a solution is handed on exactly when its nonce meets the boundary, with the mix hash that
  makes it pass verification on a light context; otherwise it is counted as failed.
\<close>
theorem farm_forwards_verified:
  assumes "light_ok calloc (f_managed f)" and "0 \<le> wp_epoch w" and "wp_epoch w \<le> 32639"
    and "ethash_create_epoch_context calloc (wp_epoch w) = Some c" and "\<not> fs_noEval (f_settings f)"
    and "length (wp_boundary w) = 32" and "sol_work s = w" and "sol_midx s < length (te_miners (f_telemetry f))"
  shows "\<exists>f'. submitProofAsync False calloc tid now s f = (None, f') \<and> light_ok calloc (f_managed f') \<and>
    (if \<exists>mix. progpow_verify c (wp_block w) (hash256_from_bytes (wp_header w)) mix (sol_nonce s) (hash256_from_bytes (wp_boundary w))
     then \<exists>mix. f_found f' = f_found f @ [s\<lparr>sol_mixHash := bytes_of_words mix\<rparr>] \<and>
       progpow_verify c (wp_block w) (hash256_from_bytes (wp_header w)) mix (sol_nonce s) (hash256_from_bytes (wp_boundary w))
     else f_found f' = f_found f \<and> sa_failed (getSolutions now (sol_midx s) f') = sa_failed (getSolutions now (sol_midx s) f) + 1)"
proof -
  let ?r = "fst (progpow_hash c (wp_block w) (hash256_from_bytes (wp_header w)) (sol_nonce s))"
  obtain st' where st': "eval_progpow calloc tid (wp_epoch w) (wp_block w) (wp_header w) (sol_nonce s) (f_managed f) =
      (Some (bytes_of_words (res_final_hash ?r), bytes_of_words (res_mix_hash ?r)), st')" "light_ok calloc st'"
    using eval_progpow_light [OF assms(1-4)] unfolding Let_def by blast
  have "length (hash256_from_bytes (wp_boundary w)) = 8" by (simp add: hash256_from_bytes_def)
  then have le: "is_less_or_equal (res_final_hash ?r) (hash256_from_bytes (wp_boundary w)) \<longleftrightarrow>
      \<not> hash_gt (bytes_of_words (res_final_hash ?r)) (wp_boundary w)"
    using is_less_or_equal_iff [OF length_final_hash] hash_less_iff [of "bytes_of_words (res_final_hash ?r)" "wp_boundary w"]
      be_value_inj [of "bytes_of_words (res_final_hash ?r)" "wp_boundary w"] assms(6) length_final_hash
    by (auto simp: bytes_of_hash256 hash_gt_def hash_le_def length_bytes_of_words)
  have v: "progpow_verify c (wp_block w) (hash256_from_bytes (wp_header w)) mix (sol_nonce s) (hash256_from_bytes (wp_boundary w)) \<longleftrightarrow>
      mix = res_mix_hash ?r \<and> \<not> hash_gt (bytes_of_words (res_final_hash ?r)) (wp_boundary w)" for mix
    by (simp add: progpow_verify_iff le)
  show ?thesis
    using assms(5,7,8) st' unfolding v
    by (auto simp: submitProofAsync_def accountSolution_def getSolutions_def account_in_def account_def Let_def)
qed

section \<open>Restart, examples\<close>

lemma start_devices_count:
  "length (f_miners (fold (start_device b now) ds f)) = length (f_miners f) + length (filter (\<lambda>d. device_prefix b (snd d) \<noteq> []) ds) \<and>
   length (te_miners (f_telemetry (fold (start_device b now) ds f))) =
     length (te_miners (f_telemetry f)) + length (filter (\<lambda>d. device_prefix b (snd d) \<noteq> []) ds) \<and>
   f_devices (fold (start_device b now) ds f) = f_devices f \<and> f_isMining (fold (start_device b now) ds f) = f_isMining f"
  by (induction ds arbitrary: f) (auto simp: start_device_def Let_def split: prod.splits)

text \<open>
  Stopping the farm drops the miners but not their telemetry: after a restart there are more telemetry entries than
  miners, by the number of entries before.
\<close>
theorem restart_keeps_stale_telemetry:
  fixes b now1 now2 now3 random nvml sysfs settings devices
  defines "f1 \<equiv> farm_start b now1 (farm_new now1 random nvml sysfs settings devices)"
  defines "f3 \<equiv> farm_start b now3 (fst (farm_stop f1))"
  shows "length (f_miners f3) = length (f_miners f1) \<and>
    length (te_miners (f_telemetry f3)) = length (te_miners (f_telemetry f1)) + length (f_miners f3)"
  using start_devices_count [of b now1 devices "farm_new now1 random nvml sysfs settings devices"]
    start_devices_count [of b now3 devices "fst (farm_stop f1)"]
  by (auto simp: f1_def f3_def farm_start_def farm_stop_def farm_new_def Let_def)

theorem nonce_segments_witness:
  "\<exists>f'. farm_setWork (\<lambda>_. True) 0 0 (WorkPackage_default\<lparr>wp_exSizeBytes := 2, wp_startNonce := 0x1200000000000000\<rparr>) two_miners = Inr f' \<and>
     wp_startNonce (mi_work (f_miners f' ! 0)) + of_nat 0 \<noteq> wp_startNonce (mi_work (f_miners f' ! 1)) + of_nat 0"
proof -
  let ?wp = "WorkPackage_default\<lparr>wp_exSizeBytes := 2, wp_startNonce := 0x1200000000000000\<rparr>"
  have n: "length (f_miners two_miners) = 2" by (simp add: two_miners_def)
  obtain w where w: "segment_width 2 2 = Some w" using segment_width_spec [of 2 2] by (auto simp: unat_numeral)
  have "\<exists>f'. farm_setWork (\<lambda>_. True) 0 0 ?wp two_miners = Inr f'"
    unfolding farm_setWork_def by (simp add: w [unfolded numeral_2_eq_2] two_miners_def farm_new_def WorkPackage_default_def Let_def)
  then obtain f' where f': "farm_setWork (\<lambda>_. True) 0 0 ?wp two_miners = Inr f'" by blast
  moreover have "\<not> miner_paused (f_miners two_miners ! i)" if "i < 2" for i
    using that by (auto simp: two_miners_def miner_new_def miner_paused_def pause_reasons_def less_2_cases_iff)
  ultimately show ?thesis using nonce_segments_disjoint [OF f', of 0 1 0 0] by (auto simp: n)
qed


theorem farm_forwards_witness:
  "\<exists>c f'. ethash_create_epoch_context (\<lambda>_. True) 3 = Some c \<and>
     submitProofAsync False (\<lambda>_. True) 0 0 \<lparr>sol_nonce = 7, sol_mixHash = h256_zero,
       sol_work = WorkPackage_default\<lparr>wp_epoch := 3, wp_block := 90000\<rparr>, sol_tstamp = 0, sol_midx = 0\<rparr> two_miners = (None, f')"
proof -
  obtain c where c: "ethash_create_epoch_context (\<lambda>_. True) 3 = Some c"
    by (simp add: ethash_create_epoch_context_def generic_create_epoch_context_def Let_def)
  let ?w = "WorkPackage_default\<lparr>wp_epoch := 3, wp_block := 90000\<rparr>"
  let ?s = "\<lparr>sol_nonce = 7, sol_mixHash = h256_zero, sol_work = ?w, sol_tstamp = 0, sol_midx = 0\<rparr>"
  have "light_ok (\<lambda>_. True) (f_managed two_miners)"
    by (simp add: light_ok_def two_miners_def farm_new_def managed_init_def Let_def)
  moreover have "length (wp_boundary ?w) = 32" by (simp add: WorkPackage_default_def h256_zero_def hash_empty_def)
  moreover have "\<not> fs_noEval (f_settings two_miners)" "0 < length (te_miners (f_telemetry two_miners))"
    by (simp_all add: two_miners_def farm_new_def Let_def)
  ultimately have "\<exists>f'. submitProofAsync False (\<lambda>_. True) 0 0 ?s two_miners = (None, f')"
    using farm_forwards_verified [of "\<lambda>_. True" two_miners ?w c ?s 0 0] c by auto
  with c show ?thesis by blast
qed

end
