(* ===== verification/PoolClient.thy ===== *)
theory PoolClient
  imports Farm PoolURI
begin

text \<open>
  What the clients of the pool protocols share, \<open>src/libpoolprotocols/PoolClient.h\<close>: the data of a session and
  the events a client reports to the pool manager. The callbacks \<open>m_onConnected\<close>, \<open>m_onDisconnected\<close>,
  \<open>m_onWorkReceived\<close>, \<open>m_onSolutionAccepted\<close> and \<open>m_onSolutionRejected\<close> are the constructors of
  \<open>client_event\<close>. Times are microseconds of the steady clock.
\<close>

section \<open>Sessions\<close>

record Session =
  ss_start :: int
  ss_subscribed :: bool
  ss_authorized :: bool
  ss_extraNonce :: u64
  ss_extraNonceSizeBytes :: nat
  ss_nextWorkBoundary :: "u8 list"
  ss_firstMiningSet :: bool
  ss_timeout :: u32
  ss_sessionId :: string
  ss_workerId :: string
  ss_algo :: string
  ss_epoch :: u32
  ss_lastTxStamp :: int

definition default_boundary :: "u8 list" where
  "default_boundary = [0, 0, 0, 0, 255, 255] @ replicate 26 0"

definition Session_new :: "int \<Rightarrow> Session" where
  "Session_new now = \<lparr>ss_start = now, ss_subscribed = False, ss_authorized = False, ss_extraNonce = 0,
     ss_extraNonceSizeBytes = 0, ss_nextWorkBoundary = default_boundary, ss_firstMiningSet = False, ss_timeout = 30,
     ss_sessionId = [], ss_workerId = [], ss_algo = ''ethash'', ss_epoch = 0, ss_lastTxStamp = now\<rparr>"

definition Session_duration :: "int \<Rightarrow> Session \<Rightarrow> u64" where
  "Session_duration now s = of_int (cdiv (now - ss_start s) 60000000)"

definition isSubscribed :: "Session option \<Rightarrow> bool" where
  "isSubscribed s = (case s of Some x \<Rightarrow> ss_subscribed x | None \<Rightarrow> False)"

definition isAuthorized :: "Session option \<Rightarrow> bool" where
  "isAuthorized s = (case s of Some x \<Rightarrow> ss_authorized x | None \<Rightarrow> False)"

section \<open>Events\<close>

datatype client_event =
    Connected
  | Disconnected
  | WorkReceived WorkPackage
  | SolutionAccepted int nat bool
  | SolutionRejected int nat

text \<open>The endpoint a client reports while its socket is connected.\<close>

definition ActiveEndPoint :: "bool \<Rightarrow> string \<Rightarrow> string" where
  "ActiveEndPoint isConn endpoint = (if isConn then '' ['' @ endpoint @ '']'' else [])"

end
