(* ===== verification/PoolManager.thy ===== *)
theory PoolManager
  imports PoolClient
begin

text \<open>
  The manager of the pool connections, \<open>src/libpoolprotocols/PoolManager.h\<close> and \<open>PoolManager.cpp\<close>: the list of
  endpoints, the connection in use, the handlers of the events a client reports and of the solutions the farm
  finds, and the timers. An endpoint is shared between the list and the client, so endpoints live in a store
  (\<open>pm_uris\<close>) and are referred to by position. Of the client in use the manager sees the protocol family, its
  endpoint and whether it is connected; the operations of a client that the manager calls are recorded
  in \<open>pm_calls\<close>, and every call of \<open>disconnect\<close> is the last action of the operation that makes it. Posting
  \<open>rotateConnect\<close> to the strand counts in \<open>pm_posts\<close>.
\<close>

section \<open>State\<close>

record PoolSettings =
  ps_connections :: "nat list"
  ps_getWorkPollInterval :: nat
  ps_noWorkTimeout :: nat
  ps_noResponseTimeout :: nat
  ps_poolFailoverTimeout :: nat
  ps_reportHashrate :: bool
  ps_hashRateInterval :: nat
  ps_hashRateId :: string
  ps_connectionMaxRetries :: nat
  ps_benchmarkBlock :: nat
  ps_benchmarkDiff :: real

definition PoolSettings_default :: "string \<Rightarrow> PoolSettings" where
  "PoolSettings_default random = \<lparr>ps_connections = [], ps_getWorkPollInterval = 500, ps_noWorkTimeout = 100000,
     ps_noResponseTimeout = 10, ps_poolFailoverTimeout = 0, ps_reportHashrate = False, ps_hashRateInterval = 60,
     ps_hashRateId = random, ps_connectionMaxRetries = 10, ps_benchmarkBlock = 0, ps_benchmarkDiff = 1\<rparr>"

record pool_client =
  pc_family :: ProtocolFamily
  pc_conn :: "nat option"
  pc_isConnected :: bool
  pc_endpoint :: string

datatype client_call =
    CallConnect
  | CallDisconnect
  | CallSubmitSolution Solution
  | CallSubmitHashrate u64 string

record pool_manager =
  pm_settings :: PoolSettings
  pm_uris :: "URI list"
  pm_schemes :: schemes
  pm_farm :: farm
  pm_running :: bool
  pm_stopping :: bool
  pm_async_pending :: bool
  pm_connectionAttempt :: nat
  pm_selectedHost :: string
  pm_connectionSwitches :: u32
  pm_activeConnectionIdx :: nat
  pm_currentWp :: WorkPackage
  pm_failovertimer :: "nat option"
  pm_submithrtimer :: "nat option"
  pm_client :: "pool_client option"
  pm_epochChanges :: u32
  pm_epochCache :: "int \<times> hash256"
  pm_posts :: nat
  pm_calls :: "client_call list"
  pm_sigterm :: bool

text \<open>The exceptions, and the undefined behaviours of dereferencing a null pointer.\<close>

datatype pool_error =
    OutstandingOperations
  | IndexOutOfBounds
  | RemoveActive
  | NotFound
  | BadUri uri_error
  | NullClient
  | NullConnection
  | FarmError farm_error

definition pool_new :: "PoolSettings \<Rightarrow> URI list \<Rightarrow> farm \<Rightarrow> pool_manager" where
  "pool_new settings uris f = \<lparr>pm_settings = settings, pm_uris = uris, pm_schemes = s_schemes, pm_farm = f,
     pm_running = False, pm_stopping = False, pm_async_pending = False, pm_connectionAttempt = 0,
     pm_selectedHost = [], pm_connectionSwitches = 0, pm_activeConnectionIdx = 0,
     pm_currentWp = WorkPackage_default\<lparr>wp_header := h256_zero\<rparr>, pm_failovertimer = None, pm_submithrtimer = None,
     pm_client = None, pm_epochChanges = 0, pm_epochCache = (0, hash256_from_bytes h256_zero),
     pm_posts = 0, pm_calls = [], pm_sigterm = False\<rparr>"

abbreviation connections :: "pool_manager \<Rightarrow> nat list" where
  "connections pm \<equiv> ps_connections (pm_settings pm)"

definition set_connections :: "nat list \<Rightarrow> pool_manager \<Rightarrow> pool_manager" where
  "set_connections cs pm = pm\<lparr>pm_settings := (pm_settings pm)\<lparr>ps_connections := cs\<rparr>\<rparr>"

definition call_client :: "client_call \<Rightarrow> pool_manager \<Rightarrow> pool_manager" where
  "call_client c pm = pm\<lparr>pm_calls := pm_calls pm @ [c]\<rparr>"

definition remove_at :: "nat \<Rightarrow> 'a list \<Rightarrow> 'a list" where
  "remove_at i xs = take i xs @ drop (Suc i) xs"

definition client_connected :: "pool_manager \<Rightarrow> bool" where
  "client_connected pm = (case pm_client pm of Some c \<Rightarrow> pc_isConnected c | None \<Rightarrow> False)"

section \<open>Handlers of the farm\<close>

definition on_miner_restart :: "build_flags \<Rightarrow> int \<Rightarrow> pool_manager \<Rightarrow> pool_manager" where
  "on_miner_restart b now pm =
     (let f = (if f_isMining (pm_farm pm) then fst (farm_stop (pm_farm pm)) else pm_farm pm)
      in pm\<lparr>pm_farm := farm_start b now f\<rparr>)"

definition on_solution_found :: "Solution \<Rightarrow> pool_manager \<Rightarrow> pool_manager" where
  "on_solution_found sol pm = (if client_connected pm then call_client (CallSubmitSolution sol) pm else pm)"

section \<open>Handlers of the client\<close>

text \<open>\<open>cancel\<close> and \<open>expires_from_now\<close> with \<open>async_wait\<close> of a timer: None is a timer without a pending wait.\<close>

definition connected_host :: "URI \<Rightarrow> string \<Rightarrow> pool_manager \<Rightarrow> pool_manager" where
  "connected_host u ep pm =
     pm\<lparr>pm_selectedHost := (if (u_hostType u = HostDns \<or> u_hostType u = HostBasic) \<and> ep \<noteq> []
                             then u_host u @ ep else pm_selectedHost pm),
        pm_currentWp := (pm_currentWp pm)\<lparr>wp_job := [], wp_header := h256_zero\<rparr>\<rparr>"

definition connected_shuffle :: "u64 \<Rightarrow> farm \<Rightarrow> farm" where
  "connected_shuffle random f = (if fs_ergodicity (f_settings f) = 1 then farm_shuffle random f else f)"

definition connected_failover :: "pool_manager \<Rightarrow> pool_manager" where
  "connected_failover pm =
     pm\<lparr>pm_failovertimer := (if pm_activeConnectionIdx pm \<noteq> 0 \<and> ps_poolFailoverTimeout (pm_settings pm) \<noteq> 0
                              then Some (ps_poolFailoverTimeout (pm_settings pm)) else None)\<rparr>"

definition connected_mining :: "build_flags \<Rightarrow> int \<Rightarrow> farm \<Rightarrow> farm" where
  "connected_mining b now f =
     (if \<not> f_isMining f then farm_start b now f else if f_paused f then farm_resume f else f)"

definition connected_report :: "pool_manager \<Rightarrow> pool_manager" where
  "connected_report pm =
     pm\<lparr>pm_submithrtimer := (if ps_reportHashrate (pm_settings pm) then Some (ps_hashRateInterval (pm_settings pm))
                              else pm_submithrtimer pm)\<rparr>"

definition on_connected :: "build_flags \<Rightarrow> int \<Rightarrow> u64 \<Rightarrow> pool_manager \<Rightarrow> pool_error + pool_manager" where
  "on_connected b now random pm =
     (case pm_client pm of None \<Rightarrow> Inl NullClient | Some c \<Rightarrow>
     (case pc_conn c of None \<Rightarrow> Inl NullConnection | Some r \<Rightarrow>
        let pm = connected_host (pm_uris pm ! r) (ActiveEndPoint (pc_isConnected c) (pc_endpoint c)) pm;
            pm = pm\<lparr>pm_farm := connected_shuffle random (pm_farm pm)\<rparr>;
            pm = connected_failover pm;
            pm = pm\<lparr>pm_farm := connected_mining b now (pm_farm pm)\<rparr>;
            pm = connected_report pm
        in Inr (pm\<lparr>pm_async_pending := False\<rparr>)))"

definition on_disconnected :: "pool_manager \<Rightarrow> pool_error + pool_manager" where
  "on_disconnected pm =
     (case pm_client pm of None \<Rightarrow> Inl NullClient | Some c \<Rightarrow>
        let pm = pm\<lparr>pm_client := Some (c\<lparr>pc_conn := None\<rparr>),
                    pm_currentWp := (pm_currentWp pm)\<lparr>wp_header := h256_zero\<rparr>,
                    pm_failovertimer := None, pm_submithrtimer := None\<rparr>
        in if pm_stopping pm then
             Inr (pm\<lparr>pm_farm := (if f_isMining (pm_farm pm) then fst (farm_stop (pm_farm pm)) else pm_farm pm),
                     pm_running := False\<rparr>)
           else Inr (pm\<lparr>pm_async_pending := True, pm_farm := farm_pause (pm_farm pm), pm_posts := pm_posts pm + 1\<rparr>))"

text \<open>Whether the work package starts a new epoch, and the epoch the miners get.\<close>

definition work_newEpoch :: "nat \<Rightarrow> WorkPackage \<Rightarrow> WorkPackage \<Rightarrow> bool" where
  "work_newEpoch mode current wp =
     (wp_epoch current = - 1 \<or>
      (if mode = 3 then wp_epoch wp \<noteq> wp_epoch current else \<not> h256_eq (wp_seed wp) (wp_seed current)))"

definition work_epoch :: "int \<times> hash256 \<Rightarrow> WorkPackage \<Rightarrow> int \<times> (int \<times> hash256)" where
  "work_epoch cache wp =
     (if wp_epoch wp = - 1 then
        if 0 < wp_block wp then (cdiv (wp_block wp) 2147483647, cache)
        else find_epoch_number cache (hash256_from_bytes (wp_seed wp))
      else (wp_epoch wp, cache))"

definition receive_work :: "nat \<Rightarrow> WorkPackage \<Rightarrow> pool_manager \<Rightarrow> pool_manager" where
  "receive_work mode wp pm =
     (if work_newEpoch mode (pm_currentWp pm) wp then
        pm\<lparr>pm_epochChanges := pm_epochChanges pm + 1,
           pm_currentWp := wp\<lparr>wp_epoch := fst (work_epoch (pm_epochCache pm) wp)\<rparr>,
           pm_epochCache := snd (work_epoch (pm_epochCache pm) wp)\<rparr>
      else pm\<lparr>pm_currentWp := wp\<lparr>wp_epoch := wp_epoch (pm_currentWp pm)\<rparr>\<rparr>)"

definition client_mode :: "pool_manager \<Rightarrow> pool_client \<Rightarrow> nat" where
  "client_mode pm c = (case pc_conn c of Some r \<Rightarrow> u_stratumMode (pm_uris pm ! r) | None \<Rightarrow> 0)"

definition on_work_received ::
  "(int \<Rightarrow> bool) \<Rightarrow> nat \<Rightarrow> u64 \<Rightarrow> WorkPackage \<Rightarrow> pool_manager \<Rightarrow> pool_error + pool_manager" where
  "on_work_received calloc tid random wp pm =
     (if \<not> WorkPackage_bool wp then Inr pm
      else case pm_client pm of None \<Rightarrow> Inl NullClient | Some c \<Rightarrow>
     (if wp_epoch (pm_currentWp pm) \<noteq> - 1 \<and> pc_conn c = None then Inl NullConnection
      else
        let pm = receive_work (client_mode pm c) wp pm
        in (case farm_setWork calloc tid random (pm_currentWp pm) (pm_farm pm) of
              Inl e \<Rightarrow> Inl (FarmError e)
            | Inr f \<Rightarrow> Inr (pm\<lparr>pm_farm := f\<rparr>))))"

definition on_solution_accepted :: "int \<Rightarrow> nat \<Rightarrow> pool_manager \<Rightarrow> pool_error option \<times> pool_manager" where
  "on_solution_accepted now minerIdx pm =
     (let (e, f) = accountSolution now minerIdx Accepted (pm_farm pm)
      in (map_option FarmError e, pm\<lparr>pm_farm := f\<rparr>))"

definition on_solution_rejected :: "nat \<Rightarrow> pool_manager \<Rightarrow> pool_manager" where
  "on_solution_rejected minerIdx pm = pm"

section \<open>Operations\<close>

text \<open>
  \<open>stop\<close> up to its wait loop, and what follows the loop, which ends when \<open>m_running\<close> is false. The result of the
  first part says whether the loop is entered.
\<close>

definition pool_stop :: "pool_manager \<Rightarrow> bool \<times> pool_manager" where
  "pool_stop pm =
     (if pm_running pm then
        let pm = pm\<lparr>pm_async_pending := True, pm_stopping := True\<rparr>
        in if client_connected pm then (True, call_client CallDisconnect pm)
           else (False, pm\<lparr>pm_failovertimer := None, pm_submithrtimer := None,
                   pm_farm := (if f_isMining (pm_farm pm) then fst (farm_stop (pm_farm pm)) else pm_farm pm)\<rparr>)
      else (False, pm))"

definition pool_stop_wait :: "pool_manager \<Rightarrow> pool_manager option" where
  "pool_stop_wait pm = (if pm_running pm then None else Some (pm\<lparr>pm_client := None\<rparr>))"

definition addConnection_uri :: "URI \<Rightarrow> pool_manager \<Rightarrow> pool_manager" where
  "addConnection_uri u pm = set_connections (connections pm @ [length (pm_uris pm)]) (pm\<lparr>pm_uris := pm_uris pm @ [u]\<rparr>)"

definition addConnection :: "boost_ops \<Rightarrow> string \<Rightarrow> pool_manager \<Rightarrow> pool_error + pool_manager" where
  "addConnection B connstring pm =
     (case URI_new B (pm_schemes pm) connstring False of
        Inl e \<Rightarrow> Inl (BadUri e)
      | Inr u \<Rightarrow> Inr (addConnection_uri u pm))"

definition removeConnection :: "nat \<Rightarrow> pool_manager \<Rightarrow> pool_error + pool_manager" where
  "removeConnection idx pm =
     (if pm_async_pending pm then Inl OutstandingOperations
      else if length (connections pm) \<le> idx then Inl IndexOutOfBounds
      else if idx = pm_activeConnectionIdx pm then Inl RemoveActive
      else
        let pm = set_connections (remove_at idx (connections pm)) pm
        in Inr (if idx < pm_activeConnectionIdx pm
                then pm\<lparr>pm_activeConnectionIdx := pm_activeConnectionIdx pm - 1\<rparr> else pm))"

text \<open>\<open>spurious\<close> is a spurious failure of the weak exchange.\<close>

definition setActiveConnectionCommon :: "bool \<Rightarrow> nat \<Rightarrow> pool_manager \<Rightarrow> pool_error option \<times> pool_manager" where
  "setActiveConnectionCommon spurious idx pm =
     (if pm_async_pending pm \<or> spurious then (Some OutstandingOperations, pm)
      else
        let pm = pm\<lparr>pm_async_pending := True\<rparr>
        in if idx \<noteq> pm_activeConnectionIdx pm then
             let pm = pm\<lparr>pm_connectionSwitches := pm_connectionSwitches pm + 1, pm_activeConnectionIdx := idx,
                         pm_connectionAttempt := 0\<rparr>
             in (case pm_client pm of None \<Rightarrow> (Some NullClient, pm) | Some _ \<Rightarrow> (None, call_client CallDisconnect pm))
           else (None, pm\<lparr>pm_async_pending := False\<rparr>))"

definition setActiveConnection :: "bool \<Rightarrow> nat \<Rightarrow> pool_manager \<Rightarrow> pool_error option \<times> pool_manager" where
  "setActiveConnection spurious idx pm =
     (if length (connections pm) \<le> idx then (Some IndexOutOfBounds, pm)
      else setActiveConnectionCommon spurious idx pm)"

text \<open>
  The overload with a text. \<open>iequals\<close> is \<open>boost::iequals\<close>. The local variable \<open>found\<close> is never set, so the final
  test always throws; an exception of the loop propagates before.
\<close>

definition setActiveConnection_str ::
  "(string \<Rightarrow> string \<Rightarrow> bool) \<Rightarrow> bool \<Rightarrow> string \<Rightarrow> pool_manager \<Rightarrow> pool_error option \<times> pool_manager" where
  "setActiveConnection_str iequals spurious connstring pm =
     (let found = False;
          matches = filter (\<lambda>idx. iequals (u_uri (pm_uris pm ! (connections pm ! idx))) connstring)
                      [0..<length (connections pm)];
          (e, pm) = (case matches of [] \<Rightarrow> (None, pm) | idx # _ \<Rightarrow> setActiveConnectionCommon spurious idx pm)
      in case e of Some err \<Rightarrow> (Some err, pm)
         | None \<Rightarrow> if \<not> found then (Some NotFound, pm) else (None, pm))"

definition getActiveConnection :: "pool_manager \<Rightarrow> nat option" where
  "getActiveConnection pm =
     (if pm_activeConnectionIdx pm < length (connections pm)
      then Some (connections pm ! pm_activeConnectionIdx pm) else None)"

text \<open>The members \<open>index\<close>, \<open>active\<close> and \<open>uri\<close> of the entries.\<close>

definition getConnectionsJson :: "pool_manager \<Rightarrow> (nat \<times> bool \<times> string) list" where
  "getConnectionsJson pm =
     map (\<lambda>(i, r). (i, i = pm_activeConnectionIdx pm, u_uri (pm_uris pm ! r))) (enumerate 0 (connections pm))"

definition pool_start :: "pool_manager \<Rightarrow> pool_manager" where
  "pool_start pm = pm\<lparr>pm_running := True, pm_async_pending := True,
     pm_connectionSwitches := pm_connectionSwitches pm + 1, pm_posts := pm_posts pm + 1\<rparr>"

text \<open>\<open>rotateConnect\<close>: which endpoint is to be tried next.\<close>

definition wrap_index :: "pool_manager \<Rightarrow> pool_manager" where
  "wrap_index pm =
     (if length (connections pm) \<le> pm_activeConnectionIdx pm then pm\<lparr>pm_activeConnectionIdx := 0\<rparr> else pm)"

definition count_switch :: "pool_manager \<Rightarrow> pool_manager" where
  "count_switch pm = pm\<lparr>pm_connectionSwitches := pm_connectionSwitches pm + 1\<rparr>"

definition erase_active :: "pool_manager \<Rightarrow> pool_manager" where
  "erase_active pm = set_connections (remove_at (pm_activeConnectionIdx pm) (connections pm)) pm"

definition rotate_select :: "pool_manager \<Rightarrow> pool_error + pool_manager" where
  "rotate_select pm =
     (let pm = wrap_index pm; i = pm_activeConnectionIdx pm
      in if length (connections pm) \<le> i then Inl IndexOutOfBounds
         else if u_unrecoverable (pm_uris pm ! (connections pm ! i))
         then Inr (count_switch (wrap_index ((erase_active pm)\<lparr>pm_connectionAttempt := 0\<rparr>)))
         else if ps_connectionMaxRetries (pm_settings pm) \<le> pm_connectionAttempt pm then
           if length (connections pm) = 1 then Inr (erase_active pm)
           else Inr (count_switch (wrap_index (pm\<lparr>pm_connectionAttempt := 0, pm_activeConnectionIdx := i + 1\<rparr>)))
         else Inr pm)"

definition pool_exit :: "pool_manager \<Rightarrow> pool_manager" where
  "pool_exit pm =
     pm\<lparr>pm_farm := (if f_isMining (pm_farm pm) then fst (farm_stop (pm_farm pm)) else pm_farm pm),
        pm_running := False, pm_sigterm := True\<rparr>"

text \<open>The selected endpoint gets a new client of its protocol family, which is told to connect.\<close>

definition new_client :: "nat \<Rightarrow> pool_manager \<Rightarrow> pool_manager" where
  "new_client r pm =
     (let u = pm_uris pm ! r;
          (family, table) = URI_Family (pm_schemes pm) u;
          pm = pm\<lparr>pm_schemes := table, pm_selectedHost := u_host u @ '':'' @ to_string (unat (u_port u)),
                  pm_client := Some \<lparr>pc_family = family, pc_conn = Some r, pc_isConnected = False, pc_endpoint = []\<rparr>,
                  pm_uris := (pm_uris pm)[r := URI_Responds False u]\<rparr>
      in call_client CallConnect pm)"

definition rotateConnect :: "pool_manager \<Rightarrow> pool_error + pool_manager" where
  "rotateConnect pm =
     (if client_connected pm then Inr pm
      else case rotate_select pm of
             Inl e \<Rightarrow> Inl e
           | Inr pm \<Rightarrow>
               if connections pm \<noteq> [] \<and>
                  u_host (pm_uris pm ! (connections pm ! pm_activeConnectionIdx pm)) \<noteq> ''exit''
               then Inr (new_client (connections pm ! pm_activeConnectionIdx pm) pm)
               else Inr (pool_exit pm))"

definition failovertimer_elapsed :: "bool \<Rightarrow> pool_manager \<Rightarrow> pool_error option \<times> pool_manager" where
  "failovertimer_elapsed ec pm =
     (if \<not> ec \<and> pm_running pm \<and> pm_activeConnectionIdx pm \<noteq> 0 then
        let pm = pm\<lparr>pm_activeConnectionIdx := 0, pm_connectionAttempt := 0,
                    pm_connectionSwitches := pm_connectionSwitches pm + 1\<rparr>
        in (case pm_client pm of None \<Rightarrow> (Some NullClient, pm) | Some _ \<Rightarrow> (None, call_client CallDisconnect pm))
      else (None, pm))"

text \<open>\<open>rate\<close> is the hash rate of the farm, converted to 32 bits.\<close>

definition submithrtimer_elapsed :: "bool \<Rightarrow> u32 \<Rightarrow> pool_manager \<Rightarrow> pool_manager" where
  "submithrtimer_elapsed ec rate pm =
     (if \<not> ec \<and> pm_running pm then
        let pm = (if client_connected pm
                  then call_client (CallSubmitHashrate (ucast rate) (ps_hashRateId (pm_settings pm))) pm else pm)
        in pm\<lparr>pm_submithrtimer := Some (ps_hashRateInterval (pm_settings pm))\<rparr>
      else pm)"

definition getCurrentEpoch :: "pool_manager \<Rightarrow> int" where
  "getCurrentEpoch pm = wp_epoch (pm_currentWp pm)"

section \<open>Interleavings\<close>

text \<open>
  Everything that happens to a manager once it has been started: the posted tasks and the timers, the events and
  status changes of the client (which changes its endpoint's flags and reports the acceptance only of solutions
  that miners of the farm found), the solutions of the farm, and the requests of the programming interface and of the main thread.
\<close>

inductive pool_step :: "build_flags \<Rightarrow> boost_ops \<Rightarrow> (int \<Rightarrow> bool) \<Rightarrow> pool_manager \<Rightarrow> pool_manager \<Rightarrow> bool"
  for b B calloc where
  rotate: "pm_posts pm = Suc n \<Longrightarrow> rotateConnect (pm\<lparr>pm_posts := n\<rparr>) = Inr pm' \<Longrightarrow> pool_step b B calloc pm pm'"
| connected: "pm_client pm = Some c \<Longrightarrow> on_connected b now random (pm\<lparr>pm_client := Some (c\<lparr>pc_isConnected := True, pc_endpoint := ep\<rparr>)\<rparr>) = Inr pm' \<Longrightarrow>
    pool_step b B calloc pm pm'"
| lost: "pm_client pm = Some c \<Longrightarrow> pool_step b B calloc pm (pm\<lparr>pm_client := Some (c\<lparr>pc_isConnected := False\<rparr>)\<rparr>)"
| disconnected: "pm_client pm = Some c \<Longrightarrow> on_disconnected (pm\<lparr>pm_client := Some (c\<lparr>pc_isConnected := False\<rparr>)\<rparr>) = Inr pm' \<Longrightarrow>
    pool_step b B calloc pm pm'"
| work: "on_work_received calloc tid random wp pm = Inr pm' \<Longrightarrow> pool_step b B calloc pm pm'"
| accepted: "i < length (te_miners (f_telemetry (pm_farm pm))) \<Longrightarrow>
    pool_step b B calloc pm (snd (on_solution_accepted now i pm))"
| rejected: "pool_step b B calloc pm (on_solution_rejected i pm)"
| endpoint: "pm_client pm = Some c \<Longrightarrow> pc_conn c = Some r \<Longrightarrow>
    pool_step b B calloc pm (pm\<lparr>pm_uris := (pm_uris pm)[r := u]\<rparr>)"
| found: "pool_step b B calloc pm (on_solution_found sol pm)"
| restart: "pool_step b B calloc pm (on_miner_restart b now pm)"
| farm: "farm_step b calloc (pm_farm pm) f \<Longrightarrow> pool_step b B calloc pm (pm\<lparr>pm_farm := f\<rparr>)"
| add: "addConnection B s pm = Inr pm' \<Longrightarrow> pool_step b B calloc pm pm'"
| remove: "removeConnection idx pm = Inr pm' \<Longrightarrow> pool_step b B calloc pm pm'"
| active: "setActiveConnection spurious idx pm = (e, pm') \<Longrightarrow> pool_step b B calloc pm pm'"
| active_str: "setActiveConnection_str iequals spurious s pm = (e, pm') \<Longrightarrow> pool_step b B calloc pm pm'"
| failover: "pm_failovertimer pm \<noteq> None \<Longrightarrow> failovertimer_elapsed ec (pm\<lparr>pm_failovertimer := None\<rparr>) = (e, pm') \<Longrightarrow>
    pool_step b B calloc pm pm'"
| submithr: "pm_submithrtimer pm \<noteq> None \<Longrightarrow>
    pool_step b B calloc pm (submithrtimer_elapsed ec rate (pm\<lparr>pm_submithrtimer := None\<rparr>))"
| stop: "pool_step b B calloc pm (snd (pool_stop pm))"
| stopped: "pm_stopping pm \<Longrightarrow> pool_stop_wait pm = Some pm' \<Longrightarrow> pool_step b B calloc pm pm'"

section \<open>Specification\<close>

text \<open>
  Every endpoint referred to exists. The invariant of a started manager: failed attempts are never counted, the
  farm satisfies its invariant, and while the manager runs there is a client whenever no operation is pending or
  the failover timer is armed.
\<close>

definition refs_ok :: "pool_manager \<Rightarrow> bool" where
  "refs_ok pm \<longleftrightarrow> (\<forall>r \<in> set (connections pm). r < length (pm_uris pm)) \<and>
     (\<forall>c r. pm_client pm = Some c \<longrightarrow> pc_conn c = Some r \<longrightarrow> r < length (pm_uris pm))"

definition pool_ok :: "pool_manager \<Rightarrow> bool" where
  "pool_ok pm \<longleftrightarrow> pm_connectionAttempt pm = 0 \<and> refs_ok pm \<and> farm_ok (pm_farm pm) \<and>
     (pm_running pm \<longrightarrow> \<not> pm_async_pending pm \<or> pm_failovertimer pm \<noteq> None \<longrightarrow> pm_client pm \<noteq> None)"

text \<open>
  A manager with two endpoints, just started; the same manager while it works on jobs of the first endpoint.
\<close>

definition example_settings :: PoolSettings where
  "example_settings = (PoolSettings_default ''0x01'')\<lparr>ps_connections := [0, 1]\<rparr>"

definition example_uris :: "URI list" where
  "example_uris = [(URI_init ''stratum://a'')\<lparr>u_host := ''a''\<rparr>, (URI_init ''stratum://b'')\<lparr>u_host := ''b''\<rparr>]"

definition example_farm :: farm where
  "example_farm = farm_new 0 5 None None
      \<lparr>fs_dagLoadMode = 0, fs_noEval = False, fs_hwMon = 0, fs_ergodicity = 0, fs_tempStart = 40, fs_tempStop = 0\<rparr> []"

definition example_pool :: pool_manager where
  "example_pool = pool_start (pool_new example_settings example_uris example_farm)"

definition working_pool :: pool_manager where
  "working_pool = example_pool\<lparr>pm_async_pending := False, pm_posts := 0,
     pm_client := Some \<lparr>pc_family = STRATUM, pc_conn = Some 0, pc_isConnected = True, pc_endpoint = []\<rparr>,
     pm_currentWp := WorkPackage_default\<lparr>wp_epoch := 7\<rparr>,
     pm_farm := two_miners\<lparr>f_currentWp := WorkPackage_default\<lparr>wp_epoch := 7\<rparr>\<rparr>\<rparr>"

definition example_job :: WorkPackage where
  "example_job = WorkPackage_default\<lparr>wp_header := 1 # replicate 31 0, wp_block := 90000\<rparr>"

section \<open>The invariant\<close>

lemma set_connections_simps [simp]:
  "connections (set_connections cs pm) = cs" "pm_uris (set_connections cs pm) = pm_uris pm"
  "pm_client (set_connections cs pm) = pm_client pm" "pm_farm (set_connections cs pm) = pm_farm pm"
  "pm_running (set_connections cs pm) = pm_running pm" "pm_async_pending (set_connections cs pm) = pm_async_pending pm"
  "pm_failovertimer (set_connections cs pm) = pm_failovertimer pm"
  "pm_connectionAttempt (set_connections cs pm) = pm_connectionAttempt pm"
  "pm_activeConnectionIdx (set_connections cs pm) = pm_activeConnectionIdx pm"
  "pm_stopping (set_connections cs pm) = pm_stopping pm" "pm_posts (set_connections cs pm) = pm_posts pm"
  "ps_connectionMaxRetries (pm_settings (set_connections cs pm)) = ps_connectionMaxRetries (pm_settings pm)"
  by (simp_all add: set_connections_def)

lemma call_client_simps [simp]:
  "connections (call_client c pm) = connections pm" "pm_uris (call_client c pm) = pm_uris pm"
  "pm_client (call_client c pm) = pm_client pm" "pm_farm (call_client c pm) = pm_farm pm"
  "pm_running (call_client c pm) = pm_running pm" "pm_async_pending (call_client c pm) = pm_async_pending pm"
  "pm_failovertimer (call_client c pm) = pm_failovertimer pm"
  "pm_connectionAttempt (call_client c pm) = pm_connectionAttempt pm"
  "pm_activeConnectionIdx (call_client c pm) = pm_activeConnectionIdx pm"
  "pm_stopping (call_client c pm) = pm_stopping pm" "pm_posts (call_client c pm) = pm_posts pm"
  by (simp_all add: call_client_def)

lemma set_remove_at: "set (remove_at i xs) \<subseteq> set xs"
  by (auto simp: remove_at_def dest: in_set_takeD in_set_dropD)

lemma farm_ok_stop: "farm_ok f \<Longrightarrow> farm_ok (fst (farm_stop f))"
  by (rule farm_step_ok [OF farm_step.stop])

lemma farm_ok_start: "farm_ok f \<Longrightarrow> farm_ok (farm_start b now f)"
  by (rule farm_step_ok [OF farm_step.start])

lemma farm_ok_pause: "farm_ok f \<Longrightarrow> farm_ok (farm_pause f)"
  by (rule farm_step_ok [OF farm_step.pause])

lemma farm_ok_resume: "farm_ok f \<Longrightarrow> farm_ok (farm_resume f)"
  by (rule farm_step_ok [OF farm_step.resume])

lemma farm_ok_shuffle: "farm_ok f \<Longrightarrow> farm_ok (farm_shuffle random f)"
  using farm_step_ok [OF farm_step.scrambler] by (simp add: farm_shuffle_def set_nonce_scrambler_def)

lemma farm_ok_connected: "farm_ok f \<Longrightarrow> farm_ok (connected_mining b now (connected_shuffle random f))"
  by (simp add: connected_mining_def connected_shuffle_def farm_ok_shuffle farm_ok_start farm_ok_resume)

lemmas farm_oks = farm_ok_stop farm_ok_start farm_ok_pause farm_ok_resume farm_ok_shuffle farm_setWork_ok

lemma on_connected_ok:
  "pool_ok pm \<Longrightarrow> on_connected b now random pm = Inr pm' \<Longrightarrow> pool_ok pm'"
  by (auto simp: on_connected_def pool_ok_def refs_ok_def Let_def connected_host_def connected_failover_def
      connected_report_def farm_ok_connected split: option.splits)

lemma on_disconnected_ok: "pool_ok pm \<Longrightarrow> on_disconnected pm = Inr pm' \<Longrightarrow> pool_ok pm'"
  by (auto simp: on_disconnected_def pool_ok_def refs_ok_def Let_def farm_oks split: option.splits if_splits)

lemma receive_work_simps [simp]:
  "pm_settings (receive_work m wp pm) = pm_settings pm" "pm_uris (receive_work m wp pm) = pm_uris pm"
  "pm_client (receive_work m wp pm) = pm_client pm" "pm_running (receive_work m wp pm) = pm_running pm"
  "pm_async_pending (receive_work m wp pm) = pm_async_pending pm" "pm_farm (receive_work m wp pm) = pm_farm pm"
  "pm_failovertimer (receive_work m wp pm) = pm_failovertimer pm"
  "pm_connectionAttempt (receive_work m wp pm) = pm_connectionAttempt pm"
  by (simp_all add: receive_work_def)

lemma on_work_received_cases:
  assumes "on_work_received calloc tid random wp pm = Inr pm'" and "WorkPackage_bool wp"
  obtains c f where "pm_client pm = Some c"
    and "farm_setWork calloc tid random (pm_currentWp pm') (pm_farm pm) = Inr f"
    and "pm' = receive_work (client_mode pm c) wp pm\<lparr>pm_farm := f\<rparr>"
proof (cases "pm_client pm")
  case None
  with assms show ?thesis by (simp add: on_work_received_def)
next
  case (Some c)
  with assms obtain f where "farm_setWork calloc tid random (pm_currentWp (receive_work (client_mode pm c) wp pm)) (pm_farm pm) = Inr f"
    "pm' = receive_work (client_mode pm c) wp pm\<lparr>pm_farm := f\<rparr>"
    by (auto simp: on_work_received_def Let_def split: if_splits sum.splits)
  with Some that show ?thesis by simp
qed

lemma on_work_received_ok:
  assumes "pool_ok pm" "on_work_received calloc tid random wp pm = Inr pm'"
  shows "pool_ok pm'"
proof (cases "WorkPackage_bool wp")
  case True
  from assms(2) True obtain c f where "pm_client pm = Some c"
    "farm_setWork calloc tid random (pm_currentWp pm') (pm_farm pm) = Inr f"
    "pm' = receive_work (client_mode pm c) wp pm\<lparr>pm_farm := f\<rparr>" by (rule on_work_received_cases)
  with assms(1) farm_setWork_ok [of "pm_farm pm"] show ?thesis by (simp add: pool_ok_def refs_ok_def)
next
  case False
  with assms show ?thesis by (simp add: on_work_received_def)
qed

lemma wrap_index_ok: "pool_ok pm \<Longrightarrow> pool_ok (wrap_index pm)"
  by (simp add: wrap_index_def pool_ok_def refs_ok_def)

lemma wrap_index_bound: "connections pm \<noteq> [] \<Longrightarrow> pm_activeConnectionIdx (wrap_index pm) < length (connections pm)"
  by (simp add: wrap_index_def)

lemma wrap_index_simps [simp]:
  "connections (wrap_index pm) = connections pm" "pm_uris (wrap_index pm) = pm_uris pm"
  "pm_settings (wrap_index pm) = pm_settings pm" "pm_connectionAttempt (wrap_index pm) = pm_connectionAttempt pm"
  by (simp_all add: wrap_index_def)

lemma count_switch_ok: "pool_ok (count_switch pm) = pool_ok pm"
  by (simp add: count_switch_def pool_ok_def refs_ok_def)

lemma count_switch_simps [simp]:
  "connections (count_switch pm) = connections pm" "pm_activeConnectionIdx (count_switch pm) = pm_activeConnectionIdx pm"
  by (simp_all add: count_switch_def)

lemma erase_active_ok: "pool_ok pm \<Longrightarrow> pool_ok (erase_active pm)"
  using set_remove_at [of "pm_activeConnectionIdx pm" "connections pm"]
  by (auto simp: erase_active_def pool_ok_def refs_ok_def)

lemma pool_ok_attempt: "pool_ok pm \<Longrightarrow> pool_ok (pm\<lparr>pm_connectionAttempt := 0\<rparr>)"
  "pool_ok pm \<Longrightarrow> pool_ok (pm\<lparr>pm_connectionAttempt := 0, pm_activeConnectionIdx := k\<rparr>)"
  by (simp_all add: pool_ok_def refs_ok_def)

lemma rotate_select_ok:
  assumes "pool_ok pm" "rotate_select pm = Inr pm'"
  shows "pool_ok pm' \<and> (connections pm' \<noteq> [] \<longrightarrow> pm_activeConnectionIdx pm' < length (connections pm'))"
proof -
  let ?p = "wrap_index pm"
  have p: "pool_ok ?p" by (rule wrap_index_ok [OF assms(1)])
  consider (a) "pm' = count_switch (wrap_index ((erase_active ?p)\<lparr>pm_connectionAttempt := 0\<rparr>))"
    | (b) "length (connections pm) = 1" "pm' = erase_active ?p"
    | (c) "pm' = count_switch (wrap_index (?p\<lparr>pm_connectionAttempt := 0, pm_activeConnectionIdx := pm_activeConnectionIdx ?p + 1\<rparr>))"
    | (d) "pm_activeConnectionIdx ?p < length (connections pm)" "pm' = ?p"
    using assms(2) by (auto simp: rotate_select_def Let_def not_le split: if_splits)
  then show ?thesis
  proof cases
    case a
    then show ?thesis using p wrap_index_bound [of "(erase_active ?p)\<lparr>pm_connectionAttempt := 0\<rparr>"]
      by (simp add: count_switch_ok wrap_index_ok pool_ok_attempt erase_active_ok)
  next
    case b
    then have "connections pm' = []" using wrap_index_bound [of pm] by (auto simp: erase_active_def remove_at_def)
    with b show ?thesis using p by (simp add: erase_active_ok)
  next
    case c
    then show ?thesis using p wrap_index_bound [of "?p\<lparr>pm_connectionAttempt := 0, pm_activeConnectionIdx := pm_activeConnectionIdx ?p + 1\<rparr>"]
      by (simp add: count_switch_ok wrap_index_ok pool_ok_attempt)
  next
    case d
    then show ?thesis using p by simp
  qed
qed

lemma new_client_ok:
  assumes "pool_ok pm" "r < length (pm_uris pm)"
  shows "pool_ok (new_client r pm)"
  using assms by (auto simp: new_client_def pool_ok_def refs_ok_def Let_def split: prod.split)

lemma pool_exit_ok: "pool_ok pm \<Longrightarrow> pool_ok (pool_exit pm)"
  by (auto simp: pool_exit_def pool_ok_def refs_ok_def farm_oks)

lemma rotateConnect_ok:
  assumes "pool_ok pm" "rotateConnect pm = Inr pm'"
  shows "pool_ok pm'"
proof (cases "client_connected pm")
  case False
  then obtain pm1 where s: "rotate_select pm = Inr pm1" using assms(2) by (auto simp: rotateConnect_def split: sum.splits)
  note ok = rotate_select_ok [OF assms(1) s]
  show ?thesis
    using assms(2) False s ok pool_exit_ok [of pm1] new_client_ok [of pm1]
    by (auto simp: rotateConnect_def pool_ok_def refs_ok_def split: if_splits)
qed (use assms in \<open>simp add: rotateConnect_def\<close>)

lemma setActiveConnectionCommon_ok:
  "pool_ok pm \<Longrightarrow> setActiveConnectionCommon spurious idx pm = (e, pm') \<Longrightarrow> pool_ok pm'"
  by (auto simp: setActiveConnectionCommon_def pool_ok_def refs_ok_def Let_def split: if_splits option.splits)

lemma setActiveConnection_str_cases:
  assumes "setActiveConnection_str iequals spurious s pm = (e, pm')"
  shows "e \<noteq> None \<and> (pm' = pm \<or> (\<exists>idx e'. setActiveConnectionCommon spurious idx pm = (e', pm')))"
  using assms by (auto simp: setActiveConnection_str_def Let_def split: list.splits prod.splits option.splits)

lemma pool_stop_ok: "pool_ok pm \<Longrightarrow> pool_ok (snd (pool_stop pm))"
  by (auto simp: pool_stop_def pool_ok_def refs_ok_def Let_def farm_oks)

lemma removeConnection_ok: "pool_ok pm \<Longrightarrow> removeConnection idx pm = Inr pm' \<Longrightarrow> pool_ok pm'"
  using set_remove_at [of idx "connections pm"]
  by (auto simp: removeConnection_def pool_ok_def refs_ok_def Let_def split: if_splits)

lemma addConnection_ok: "pool_ok pm \<Longrightarrow> addConnection B s pm = Inr pm' \<Longrightarrow> pool_ok pm'"
  by (auto simp: addConnection_def addConnection_uri_def pool_ok_def refs_ok_def less_Suc_eq split: sum.splits)

lemma accountSolution_farm_ok: "farm_ok f \<Longrightarrow> i < length (te_miners (f_telemetry f)) \<Longrightarrow> farm_ok (snd (accountSolution now i a f))"
  by (rule farm_step_ok [OF farm_step.account])

section \<open>Reachable states\<close>

lemma pool_step_ok: "pool_step b B calloc pm pm' \<Longrightarrow> pool_ok pm \<Longrightarrow> pool_ok pm'"
proof (induction rule: pool_step.induct)
  case (rotate pm n pm')
  have "pool_ok (pm\<lparr>pm_posts := n\<rparr>)" using rotate(3) by (simp add: pool_ok_def refs_ok_def)
  then show ?case using rotate(2) by (rule rotateConnect_ok)
next
  case (connected pm c now random ep pm')
  have "pool_ok (pm\<lparr>pm_client := Some (c\<lparr>pc_isConnected := True, pc_endpoint := ep\<rparr>)\<rparr>)"
    using connected(1,3) by (simp add: pool_ok_def refs_ok_def)
  then show ?case using connected(2) by (rule on_connected_ok)
next
  case (disconnected pm c pm')
  have "pool_ok (pm\<lparr>pm_client := Some (c\<lparr>pc_isConnected := False\<rparr>)\<rparr>)"
    using disconnected(1,3) by (simp add: pool_ok_def refs_ok_def)
  then show ?case using disconnected(2) by (rule on_disconnected_ok)
next
  case (work tid random wp pm pm')
  then show ?case by (blast intro: on_work_received_ok)
next
  case (accepted i pm now)
  then show ?case using accountSolution_farm_ok [of "pm_farm pm" i now Accepted]
    by (simp add: on_solution_accepted_def pool_ok_def refs_ok_def Let_def case_prod_unfold)
next
  case (restart pm now)
  then show ?case by (simp add: on_miner_restart_def pool_ok_def refs_ok_def Let_def farm_ok_start farm_ok_stop)
next
  case (farm pm f)
  then show ?case using farm_step_ok by (auto simp: pool_ok_def refs_ok_def)
next
  case (active spurious idx pm e pm')
  then show ?case by (auto simp: setActiveConnection_def intro: setActiveConnectionCommon_ok split: if_splits)
next
  case (active_str iequals spurious s pm e pm')
  then show ?case using setActiveConnection_str_cases [OF active_str(1)] by (blast intro: setActiveConnectionCommon_ok)
next
  case (failover pm ec e pm')
  then show ?case by (auto simp: failovertimer_elapsed_def pool_ok_def refs_ok_def Let_def split: if_splits option.splits)
next
  case (endpoint pm c r u)
  then show ?case by (simp add: pool_ok_def refs_ok_def)
next
  case (stopped pm pm')
  then show ?case by (auto simp: pool_stop_wait_def pool_ok_def refs_ok_def split: if_splits)
next
  case (submithr pm ec rate)
  then show ?case by (simp add: submithrtimer_elapsed_def pool_ok_def refs_ok_def Let_def call_client_def)
next
  case (found pm sol)
  then show ?case by (simp add: on_solution_found_def pool_ok_def refs_ok_def call_client_def)
next
  case (add s pm pm')
  then show ?case by (blast intro: addConnection_ok)
next
  case (remove idx pm pm')
  then show ?case by (blast intro: removeConnection_ok)
next
  case (stop pm)
  then show ?case by (rule pool_stop_ok)
next
  case (lost pm c)
  then show ?case by (simp add: pool_ok_def refs_ok_def)
qed (simp add: on_solution_rejected_def)

lemma pool_start_ok:
  assumes "\<forall>r \<in> set (ps_connections settings). r < length uris" "farm_ok f"
  shows "pool_ok (pool_start (pool_new settings uris f))"
  using assms by (simp add: pool_start_def pool_new_def pool_ok_def refs_ok_def)

lemma pool_reach_ok:
  assumes "(pool_step b B calloc)\<^sup>*\<^sup>* (pool_start (pool_new settings uris f)) pm"
    and "\<forall>r \<in> set (ps_connections settings). r < length uris" "farm_ok f"
  shows "pool_ok pm"
  using assms(1) by (induction rule: rtranclp_induct) (auto intro: pool_start_ok [OF assms(2,3)] pool_step_ok)


lemma rotate_same:
  assumes "pool_ok pm" "\<not> client_connected pm" "pm_activeConnectionIdx pm < length (connections pm)"
    and "r = connections pm ! pm_activeConnectionIdx pm" and "\<not> u_unrecoverable (pm_uris pm ! r)"
    and "u_host (pm_uris pm ! r) \<noteq> ''exit''" and "0 < ps_connectionMaxRetries (pm_settings pm)"
  shows "rotateConnect pm = Inr (new_client r pm)"
proof -
  have w: "wrap_index pm = pm" using assms(3) by (simp add: wrap_index_def)
  have "pm_connectionAttempt pm = 0" using assms(1) by (simp add: pool_ok_def)
  then have "rotate_select pm = Inr pm"
    using assms(3,4,5,7) by (simp add: rotate_select_def Let_def w)
  moreover have "connections pm \<noteq> []" using assms(3) by auto
  ultimately show ?thesis using assms(2,4,6) by (simp add: rotateConnect_def)
qed

lemma new_client_simps [simp]:
  "connections (new_client r pm) = connections pm" "pm_activeConnectionIdx (new_client r pm) = pm_activeConnectionIdx pm"
  "pm_connectionSwitches (new_client r pm) = pm_connectionSwitches pm" "pm_farm (new_client r pm) = pm_farm pm"
  "pm_stopping (new_client r pm) = pm_stopping pm" "pm_running (new_client r pm) = pm_running pm"
  by (simp_all add: new_client_def Let_def call_client_def split: prod.split)

lemma new_client_client:
  "\<exists>family. pm_client (new_client r pm) = Some \<lparr>pc_family = family, pc_conn = Some r, pc_isConnected = False, pc_endpoint = []\<rparr>"
  by (simp add: new_client_def Let_def call_client_def split: prod.split)


lemma filter_first:
  assumes "i < n" "P i" "\<And>j. j < i \<Longrightarrow> \<not> P j"
  shows "filter P [0..<n] = i # filter P [Suc i..<n]"
proof -
  have "[0..<n] = [0..<i] @ i # [Suc i..<n]"
    using upt_add_eq_append [of 0 i "n - i"] assms(1) by (simp add: upt_conv_Cons)
  moreover have "filter P [0..<i] = []" using assms(3) by (simp add: filter_empty_conv)
  ultimately show ?thesis using assms(2) by simp
qed

text \<open>
  Selecting an endpoint by its text switches to it and then reports that it was not found.
\<close>
theorem set_active_by_name_fails:
  assumes "i < length (connections pm)" and "iequals (u_uri (pm_uris pm ! (connections pm ! i))) s"
    and "\<And>j. j < i \<Longrightarrow> \<not> iequals (u_uri (pm_uris pm ! (connections pm ! j))) s"
    and "i \<noteq> pm_activeConnectionIdx pm" and "\<not> pm_async_pending pm" and "pm_client pm \<noteq> None"
  shows "\<exists>pm'. setActiveConnection_str iequals False s pm = (Some NotFound, pm') \<and>
      pm_activeConnectionIdx pm' = i \<and> pm_calls pm' = pm_calls pm @ [CallDisconnect]"
  using filter_first [of i "length (connections pm)" "\<lambda>idx. iequals (u_uri (pm_uris pm ! (connections pm ! idx))) s", OF assms(1-3)]
    assms(4-6)
  by (auto simp: setActiveConnection_str_def setActiveConnectionCommon_def Let_def call_client_def)



section \<open>Examples\<close>

abbreviation no_devices :: build_flags where
  "no_devices \<equiv> \<lparr>ETH_ETHASHCUDA = False, ETH_ETHASHCL = False, ETH_ETHASHCPU = False\<rparr>"

lemma example_parts:
  "\<forall>r \<in> set (ps_connections example_settings). r < length example_uris" "farm_ok example_farm"
  by (auto simp: example_settings_def example_uris_def PoolSettings_default_def example_farm_def farm_new_ok)

lemma example_pool_ok: "pool_ok example_pool"
  unfolding example_pool_def by (rule pool_start_ok [OF example_parts])

lemma example_reach:
  "(pool_step b B calloc)\<^sup>*\<^sup>* (pool_start (pool_new example_settings example_uris example_farm)) example_pool"
  by (simp add: example_pool_def)

lemma example_pool_simps:
  "connections example_pool = [0, 1]" "pm_client example_pool = None" "pm_activeConnectionIdx example_pool = 0"
  "pm_posts example_pool = Suc 0" "pm_running example_pool" "ps_connectionMaxRetries (pm_settings example_pool) = 10"
  "pm_uris example_pool = example_uris"
  by (simp_all add: example_pool_def pool_start_def pool_new_def example_settings_def PoolSettings_default_def)



theorem set_active_by_name_witness:
  "\<exists>pm'. setActiveConnection_str (=) False ''stratum://b'' working_pool = (Some NotFound, pm') \<and> pm_activeConnectionIdx pm' = 1"
proof -
  have c: "connections working_pool = [0, 1]" "pm_uris working_pool = pm_uris example_pool" "pm_activeConnectionIdx working_pool = 0"
    "\<not> pm_async_pending working_pool" "pm_client working_pool \<noteq> None"
    by (simp_all add: working_pool_def example_pool_simps)
  show ?thesis
    using set_active_by_name_fails [of 1 working_pool "(=)" "''stratum://b''"]
    by (auto simp: c example_pool_simps example_uris_def URI_init_def)
qed

lemma working_pool_simps:
  "pm_client working_pool = Some \<lparr>pc_family = STRATUM, pc_conn = Some 0, pc_isConnected = True, pc_endpoint = []\<rparr>"
  "pm_currentWp working_pool = WorkPackage_default\<lparr>wp_epoch := 7\<rparr>"
  "pm_farm working_pool = two_miners\<lparr>f_currentWp := WorkPackage_default\<lparr>wp_epoch := 7\<rparr>\<rparr>"
  by (simp_all add: working_pool_def)

lemma example_job_bool: "WorkPackage_bool example_job"
  by (simp add: WorkPackage_bool_def example_job_def h256_eq_iff h256_zero_def hash_empty_def numeral_eq_Suc)

lemma example_job_epoch: "\<not> work_newEpoch mode (WorkPackage_default\<lparr>wp_epoch := 7\<rparr>) example_job \<or> mode = 3"
  by (simp add: work_newEpoch_def example_job_def WorkPackage_default_def h256_eq_def)

lemma working_pool_mode: "client_mode working_pool \<lparr>pc_family = STRATUM, pc_conn = Some 0, pc_isConnected = True, pc_endpoint = []\<rparr> = 999"
  by (simp add: client_mode_def working_pool_def example_pool_simps example_uris_def URI_init_def)

lemma working_pool_job: "\<exists>pm'. on_work_received (\<lambda>_. True) 0 0 example_job working_pool = Inr pm'"
proof -
  have "\<exists>f. farm_setWork (\<lambda>_. True) 0 0 (example_job\<lparr>wp_epoch := 7\<rparr>) (two_miners\<lparr>f_currentWp := WorkPackage_default\<lparr>wp_epoch := 7\<rparr>\<rparr>) = Inr f"
    by (simp add: farm_setWork_def example_job_def WorkPackage_default_def farm_shuffle_def Let_def)
  then show ?thesis
    using example_job_bool example_job_epoch [of 999]
    by (auto simp: on_work_received_def receive_work_def working_pool_simps working_pool_mode Let_def)
qed



end
