(* ===== verification/Json.thy ===== *)
theory Json
  imports FixedHash PoolURI
begin

text \<open>
  What the pool clients and the programming interface use of the JSON library and of numeric conversions. Requests that
  the program builds are values of \<open>jvalue\<close>; the messages it receives are of a type the JSON library defines, known only
  through the operations of the record \<open>json_ops\<close>. An operation that can throw returns an option. The texts of numbers
  are read by \<open>std::stoul\<close>, \<open>std::stoi\<close> and \<open>strtoul\<close>, which are functions of the standard library.
\<close>

section \<open>Requests\<close>

datatype jvalue =
    JNull
  | JBool bool
  | JUInt nat
  | JInt int
  | JReal real
  | JStr string
  | JArr "jvalue list"
  | JObj "(string \<times> jvalue) list"

text \<open>Assignment to a member, which turns null into an object, and appending to a member that is an array.\<close>

fun jset :: "string \<Rightarrow> jvalue \<Rightarrow> jvalue \<Rightarrow> jvalue" where
  "jset k v (JObj m) = JObj (map_assign k v m)"
| "jset k v _ = JObj [(k, v)]"

fun jmember :: "string \<Rightarrow> jvalue \<Rightarrow> jvalue option" where
  "jmember k (JObj m) = map_of m k"
| "jmember k _ = None"

fun jpush :: "jvalue \<Rightarrow> jvalue \<Rightarrow> jvalue" where
  "jpush v (JArr vs) = JArr (vs @ [v])"
| "jpush v _ = JArr [v]"

definition jappend :: "string \<Rightarrow> jvalue \<Rightarrow> jvalue \<Rightarrow> jvalue" where
  "jappend k v j = jset k (jpush v (case jmember k j of Some x \<Rightarrow> x | None \<Rightarrow> JNull)) j"

section \<open>Messages\<close>

datatype jtype = StringValue | ArrayValue | ObjectValue | BooleanValue

text \<open>
  \<open>j_get\<close> and \<open>j_at\<close> look up a member and an element: None is an exception, Some None a missing entry. Members and
  elements in the order of iteration are \<open>j_members\<close> and \<open>j_elements\<close>. \<open>j_value\<close> is the message built from a value
  of the program, \<open>j_parse\<close> the reader and \<open>j_write\<close> the writer.
\<close>

record 'j json_ops =
  j_get :: "'j \<Rightarrow> string \<Rightarrow> 'j option option"
  j_at :: "'j \<Rightarrow> nat \<Rightarrow> 'j option option"
  j_isNull :: "'j \<Rightarrow> bool"
  j_isBool :: "'j \<Rightarrow> bool"
  j_isUInt :: "'j \<Rightarrow> bool"
  j_isString :: "'j \<Rightarrow> bool"
  j_isArray :: "'j \<Rightarrow> bool"
  j_isObject :: "'j \<Rightarrow> bool"
  j_isConvertibleTo :: "'j \<Rightarrow> jtype \<Rightarrow> bool"
  j_empty :: "'j \<Rightarrow> bool"
  j_size :: "'j \<Rightarrow> nat"
  j_asString :: "'j \<Rightarrow> string option"
  j_asUInt :: "'j \<Rightarrow> nat option"
  j_asUInt64 :: "'j \<Rightarrow> nat option"
  j_asBool :: "'j \<Rightarrow> bool option"
  j_asDouble :: "'j \<Rightarrow> real option"
  j_elements :: "'j \<Rightarrow> 'j list"
  j_members :: "'j \<Rightarrow> (string \<times> 'j) list"
  j_value :: "jvalue \<Rightarrow> 'j"
  j_parse :: "string \<Rightarrow> 'j option"
  j_write :: "jvalue \<Rightarrow> string"

definition isMember :: "'j json_ops \<Rightarrow> 'j \<Rightarrow> string \<Rightarrow> bool option" where
  "isMember J v k = map_option (\<lambda>x. x \<noteq> None) (j_get J v k)"

text \<open>\<open>get(key, null)\<close>, and \<open>operator[]\<close>, which reads a missing member as null.\<close>

definition get_value :: "'j json_ops \<Rightarrow> 'j \<Rightarrow> string \<Rightarrow> 'j option" where
  "get_value J v k = map_option (\<lambda>x. case x of Some y \<Rightarrow> y | None \<Rightarrow> j_value J JNull) (j_get J v k)"

definition get_string :: "'j json_ops \<Rightarrow> 'j \<Rightarrow> string \<Rightarrow> string \<Rightarrow> string option" where
  "get_string J v k dflt =
     Option.bind (j_get J v k) (\<lambda>x. case x of Some y \<Rightarrow> j_asString J y | None \<Rightarrow> Some dflt)"

definition get_uint :: "'j json_ops \<Rightarrow> 'j \<Rightarrow> string \<Rightarrow> nat \<Rightarrow> nat option" where
  "get_uint J v k dflt =
     Option.bind (j_get J v k) (\<lambda>x. case x of Some y \<Rightarrow> j_asUInt J y | None \<Rightarrow> Some dflt)"

definition at_string :: "'j json_ops \<Rightarrow> 'j \<Rightarrow> nat \<Rightarrow> string \<Rightarrow> string option" where
  "at_string J v i dflt =
     Option.bind (j_at J v i) (\<lambda>x. case x of Some y \<Rightarrow> j_asString J y | None \<Rightarrow> Some dflt)"

definition at_double :: "'j json_ops \<Rightarrow> 'j \<Rightarrow> nat \<Rightarrow> real \<Rightarrow> real option" where
  "at_double J v i dflt =
     Option.bind (j_at J v i) (\<lambda>x. case x of Some y \<Rightarrow> j_asDouble J y | None \<Rightarrow> Some dflt)"

text \<open>The concatenation of texts, each of which may throw.\<close>

fun concat_texts :: "string option list \<Rightarrow> string option" where
  "concat_texts [] = Some []"
| "concat_texts (x # xs) = Option.bind x (\<lambda>s. map_option ((@) s) (concat_texts xs))"

text \<open>The text of the error of a response, the same function in the two clients.\<close>

definition processError :: "'j json_ops \<Rightarrow> 'j \<Rightarrow> string option" where
  "processError J v =
     Option.bind (j_get J v ''error'') (\<lambda>x. case x of None \<Rightarrow> Some ''Unknown error'' | Some e \<Rightarrow>
       if j_isNull J e then Some ''Unknown error''
       else if j_isConvertibleTo J e StringValue then j_asString J e
       else if j_isConvertibleTo J e ArrayValue
         then concat_texts (map (\<lambda>i. map_option (\<lambda>s. s @ '' '') (j_asString J i)) (j_elements J e))
       else if j_isConvertibleTo J e ObjectValue
         then concat_texts (map (\<lambda>(k, x). map_option (\<lambda>s. k @ '':'' @ s @ '' '') (j_asString J x)) (j_members J e))
       else Some [])"

section \<open>Numbers\<close>

definition digit_val :: "char \<Rightarrow> nat option" where
  "digit_val c =
     (let n = of_char c
      in if 48 \<le> n \<and> n \<le> 57 then Some (n - 48)
         else if 97 \<le> n \<and> n \<le> 122 then Some (n - 87)
         else if 65 \<le> n \<and> n \<le> 90 then Some (n - 55)
         else None)"

definition is_base_digit :: "nat \<Rightarrow> char \<Rightarrow> bool" where
  "is_base_digit b c = (case digit_val c of Some d \<Rightarrow> d < b | None \<Rightarrow> False)"

definition digits_value :: "nat \<Rightarrow> string \<Rightarrow> nat" where
  "digits_value b s = fold (\<lambda>c v. b * v + (case digit_val c of Some d \<Rightarrow> d | None \<Rightarrow> 0)) s 0"

text \<open>
  The subject of a conversion: blanks, a sign, and for base 16 the prefix \<open>0x\<close>; base 0 chooses the base by the
  prefix. The result is the sign and the value, or None when there is no digit.
\<close>

definition hex_prefixed :: "string \<Rightarrow> bool" where
  "hex_prefixed s = (case s of z # x # d # _ \<Rightarrow> z = CHR ''0'' \<and> (x = CHR ''x'' \<or> x = CHR ''X'') \<and> is_base_digit 16 d | _ \<Rightarrow> False)"

definition parse_number :: "nat \<Rightarrow> string \<Rightarrow> (bool \<times> nat) option" where
  "parse_number base s =
     (let s = dropWhile is_space s;
          neg = (s \<noteq> [] \<and> hd s = CHR ''-'');
          s = (if s \<noteq> [] \<and> (hd s = CHR ''-'' \<or> hd s = CHR ''+'') then tl s else s);
          pre = ((base = 16 \<or> base = 0) \<and> hex_prefixed s);
          b = (if base \<noteq> 0 then base else if pre then 16 else if s \<noteq> [] \<and> hd s = CHR ''0'' then 8 else 10);
          ds = takeWhile (is_base_digit b) (if pre then drop 2 s else s)
      in if ds = [] then None else Some (neg, digits_value b ds))"

definition unsigned_long :: "bool \<Rightarrow> nat \<Rightarrow> nat" where
  "unsigned_long neg v = (if neg then (2 ^ 64 - v) mod 2 ^ 64 else v)"

definition stoul :: "string \<Rightarrow> nat \<Rightarrow> nat option" where
  "stoul s base =
     (case parse_number base s of None \<Rightarrow> None
      | Some (neg, v) \<Rightarrow> if 2 ^ 64 \<le> v then None else Some (unsigned_long neg v))"

definition strtoul :: "string \<Rightarrow> nat \<Rightarrow> nat" where
  "strtoul s base =
     (case parse_number base s of None \<Rightarrow> 0
      | Some (neg, v) \<Rightarrow> if 2 ^ 64 \<le> v then 2 ^ 64 - 1 else unsigned_long neg v)"

definition stoi :: "string \<Rightarrow> nat \<Rightarrow> int option" where
  "stoi s base =
     (case parse_number base s of None \<Rightarrow> None
      | Some (neg, v) \<Rightarrow> let x = (if neg then - int v else int v)
                       in if - (2 ^ 31) \<le> x \<and> x < 2 ^ 31 then Some x else None)"

text \<open>Conversion of an unsigned number to \<open>int\<close>.\<close>

definition to_int :: "nat \<Rightarrow> int" where
  "to_int n = sint (of_nat n :: u32)"

section \<open>Results\<close>

text \<open>What a function can end with: a result, an exception, or the use of a null pointer.\<close>

datatype 'a attempt = Ok 'a | Threw | Crashed

fun and_then :: "'a attempt \<Rightarrow> ('a \<Rightarrow> 'b attempt) \<Rightarrow> 'b attempt" where
  "and_then (Ok x) f = f x"
| "and_then Threw f = Threw"
| "and_then Crashed f = Crashed"

fun all_attempts :: "'a attempt list \<Rightarrow> 'a list attempt" where
  "all_attempts [] = Ok []"
| "all_attempts (x # xs) = and_then x (\<lambda>y. and_then (all_attempts xs) (\<lambda>ys. Ok (y # ys)))"

definition or_threw :: "'a option \<Rightarrow> 'a attempt" where
  "or_threw x = (case x of Some y \<Rightarrow> Ok y | None \<Rightarrow> Threw)"

definition or_crashed :: "'a option \<Rightarrow> 'a attempt" where
  "or_crashed x = (case x of Some y \<Rightarrow> Ok y | None \<Rightarrow> Crashed)"

text \<open>A hash read from a text.\<close>

definition h256 :: "string \<Rightarrow> u8 list option" where
  "h256 s = (case hash_from_string 32 s of Inl _ \<Rightarrow> None | Inr h \<Rightarrow> Some h)"

section \<open>Lines\<close>

text \<open>The first line of a text, without its newline, and the rest; None without a newline.\<close>

definition break_line :: "string \<Rightarrow> (string \<times> string) option" where
  "break_line s =
     (case dropWhile (\<lambda>c. c \<noteq> CHR 0x0A) s of [] \<Rightarrow> None | _ # rest \<Rightarrow> Some (takeWhile (\<lambda>c. c \<noteq> CHR 0x0A) s, rest))"

definition crlf :: string where "crlf = [CHR 0x0D, CHR 0x0A]"

text \<open>The first line of a text up to a carriage return and newline, and the rest.\<close>

fun break_crlf :: "string \<Rightarrow> (string \<times> string) option" where
  "break_crlf [] = None"
| "break_crlf (c # s) =
     (if take 2 (c # s) = crlf then Some ([], drop 1 s)
      else map_option (\<lambda>(l, rest). (c # l, rest)) (break_crlf s))"

section \<open>An implementation\<close>

text \<open>The values of the program as messages, with a given reader; used in examples.\<close>

fun jv_get :: "jvalue \<Rightarrow> string \<Rightarrow> jvalue option option" where
  "jv_get (JObj m) k = Some (map_of m k)"
| "jv_get JNull k = Some None"
| "jv_get _ k = None"

fun jv_at :: "jvalue \<Rightarrow> nat \<Rightarrow> jvalue option option" where
  "jv_at (JArr vs) i = Some (if i < length vs then Some (vs ! i) else None)"
| "jv_at JNull i = Some None"
| "jv_at _ i = None"

fun jv_text :: "jvalue \<Rightarrow> string option" where
  "jv_text (JStr s) = Some s"
| "jv_text JNull = Some []"
| "jv_text (JBool b) = Some (if b then ''true'' else ''false'')"
| "jv_text (JUInt n) = Some (to_string n)"
| "jv_text (JInt z) = Some ((if z < 0 then ''-'' else []) @ to_string (nat (abs z)))"
| "jv_text _ = None"

fun jv_number :: "jvalue \<Rightarrow> nat option" where
  "jv_number (JUInt n) = Some n"
| "jv_number JNull = Some 0"
| "jv_number _ = None"

fun jv_empty :: "jvalue \<Rightarrow> bool" where
  "jv_empty JNull = True"
| "jv_empty (JArr vs) = (vs = [])"
| "jv_empty (JObj m) = (m = [])"
| "jv_empty _ = False"

fun jv_size :: "jvalue \<Rightarrow> nat" where
  "jv_size (JArr vs) = length vs"
| "jv_size (JObj m) = length m"
| "jv_size _ = 0"

fun jv_bool :: "jvalue \<Rightarrow> bool option" where
  "jv_bool (JBool b) = Some b"
| "jv_bool JNull = Some False"
| "jv_bool _ = None"

fun jv_convertible :: "jvalue \<Rightarrow> jtype \<Rightarrow> bool" where
  "jv_convertible v StringValue = (jv_text v \<noteq> None)"
| "jv_convertible v ArrayValue = (case v of JArr _ \<Rightarrow> True | JNull \<Rightarrow> True | _ \<Rightarrow> False)"
| "jv_convertible v ObjectValue = (case v of JObj _ \<Rightarrow> True | JNull \<Rightarrow> True | _ \<Rightarrow> False)"
| "jv_convertible v BooleanValue = (jv_bool v \<noteq> None)"

definition example_json :: "(string \<Rightarrow> jvalue option) \<Rightarrow> jvalue json_ops" where
  "example_json parse =
     \<lparr>j_get = jv_get, j_at = jv_at, j_isNull = (\<lambda>v. v = JNull), j_isBool = (\<lambda>v. case v of JBool _ \<Rightarrow> True | _ \<Rightarrow> False),
      j_isUInt = (\<lambda>v. case v of JUInt _ \<Rightarrow> True | _ \<Rightarrow> False),
      j_isString = (\<lambda>v. case v of JStr _ \<Rightarrow> True | _ \<Rightarrow> False), j_isArray = (\<lambda>v. case v of JArr _ \<Rightarrow> True | _ \<Rightarrow> False),
      j_isObject = (\<lambda>v. case v of JObj _ \<Rightarrow> True | _ \<Rightarrow> False), j_isConvertibleTo = jv_convertible, j_empty = jv_empty,
      j_size = jv_size, j_asString = jv_text, j_asUInt = jv_number, j_asUInt64 = jv_number,
      j_asBool = jv_bool, j_asDouble = (\<lambda>v. map_option real (jv_number v)),
      j_elements = (\<lambda>v. case v of JArr vs \<Rightarrow> vs | _ \<Rightarrow> []), j_members = (\<lambda>v. case v of JObj m \<Rightarrow> m | _ \<Rightarrow> []),
      j_value = (\<lambda>v. v), j_parse = parse, j_write = (\<lambda>_. ''{}'')\<rparr>"

section \<open>Lemmas on results and hashes\<close>

lemma and_then_Ok [simp]: "and_then x f = Ok y \<longleftrightarrow> (\<exists>a. x = Ok a \<and> f a = Ok y)"
  by (cases x) auto

lemma or_threw_Ok [simp]: "or_threw x = Ok y \<longleftrightarrow> x = Some y"
  by (auto simp: or_threw_def split: option.splits)

lemma or_crashed_Ok [simp]: "or_crashed x = Ok y \<longleftrightarrow> x = Some y"
  by (auto simp: or_crashed_def split: option.splits)

lemma or_threw_simps [simp]: "or_threw (Some x) = Ok x" "or_threw None = Threw"
  by (simp_all add: or_threw_def)

lemma h256_hash_hex: "length h = 32 \<Longrightarrow> h256 (hash_hex h PrefixAdd) = Some h"
  by (simp add: h256_def hash_from_string_def hash_hex_def fromHex_toHex hash_from_bytes_def)

section \<open>Lemmas on lines\<close>

lemma break_line_shorter: "break_line s = Some (l, rest) \<Longrightarrow> length rest < length s"
  using length_dropWhile_le [of "\<lambda>c. c \<noteq> CHR 0x0A" s] by (auto simp: break_line_def split: list.splits)

lemma break_line_nl: "list_all (\<lambda>c. c \<noteq> CHR 0x0A) l \<Longrightarrow> break_line (l @ nl @ rest) = Some (l, rest)"
  by (auto simp: break_line_def nl_def dropWhile_append list_all_iff takeWhile_append2 takeWhile_eq_all_conv dropWhile_eq_Nil_conv)

lemma break_line_empty: "break_line [] = None"
  by (simp add: break_line_def)

lemma break_crlf_shorter: "break_crlf s = Some (l, rest) \<Longrightarrow> length rest < length s"
  by (induction s arbitrary: l) (auto split: if_splits)

lemma break_crlf_line: "list_all (\<lambda>c. c \<noteq> CHR 0x0D) l \<Longrightarrow> break_crlf (l @ crlf @ rest) = Some (l, rest)"
  by (induction l) (simp_all add: crlf_def)

lemma break_crlf_None: "list_all (\<lambda>c. c \<noteq> CHR 0x0D) s \<Longrightarrow> break_crlf s = None"
  by (induction s) (simp_all add: crlf_def)

end
