(* ===== verification/Stratum.thy ===== *)
theory Stratum
  imports PoolManager Json
begin

text \<open>
  The client of the stratum protocols, \<open>src/libpoolprotocols/stratum/EthStratumClient.h\<close> and
  \<open>EthStratumClient.cpp\<close>: connection set-up and detection of the protocol, the session, jobs, submissions, the
  transmission of messages, and the timeouts. Every handler runs in the client's strand and is a function on the
  state. What a handler starts or posts, and the events it reports to the pool manager, are appended to \<open>sc_effects\<close>
  in order. The results of the asynchronous operations, the clock, the JSON library and the texts of the build are
  arguments. The endpoint (\<open>m_conn\<close>) is part of the state; a client that has reported \<open>Disconnected\<close> has released it
  and is not used any more.
\<close>

section \<open>State\<close>

text \<open>The values of \<open>StratumProtocol\<close>.\<close>

definition mode_STRATUM :: nat where "mode_STRATUM = 0"

definition mode_ETHPROXY :: nat where "mode_ETHPROXY = 1"

definition mode_ETHEREUMSTRATUM :: nat where "mode_ETHEREUMSTRATUM = 2"

definition mode_ETHEREUMSTRATUM2 :: nat where "mode_ETHEREUMSTRATUM2 = 3"

lemmas stratum_modes = mode_STRATUM_def mode_ETHPROXY_def mode_ETHEREUMSTRATUM_def mode_ETHEREUMSTRATUM2_def

datatype stratum_effect =
    PostDisconnect
  | PostStartConnect
  | PostDisconnectFinalize
  | PostResponse jvalue
  | Report client_event
  | Resolve string u16
  | AsyncConnect string
  | AsyncRead
  | AsyncWrite string
  | AsyncShutdown
  | CancelSocket
  | CloseSocket
  | TimerWait
  | TimerSleep

record stratum =
  sc_conn :: URI
  sc_connected :: bool
  sc_connecting :: bool
  sc_disconnecting :: bool
  sc_authpending :: bool
  sc_worktimeout :: int
  sc_responsetimeout :: int
  sc_current :: WorkPackage
  sc_current_timestamp :: int
  sc_socket :: bool
  sc_open :: bool
  sc_message :: string
  sc_newjobprocessed :: bool
  sc_sendBuffer :: string
  sc_pleas_count :: int
  sc_plea_older :: int
  sc_plea_times :: "int list"
  sc_txPending :: bool
  sc_txQueue :: "string list"
  sc_endpoints :: "string list"
  sc_endpoint :: string
  sc_max_id :: nat
  sc_session :: "Session option"
  sc_effects :: "stratum_effect list"

text \<open>
  The surroundings: the JSON library, \<open>boost::trim\<close>, the name and version of the build, and the conversions of
  \<open>getTargetFromDiff\<close>.
\<close>

record 'j stratum_env =
  en_json :: "'j json_ops"
  en_trim :: "string \<Rightarrow> string"
  en_project :: string
  en_lexical_cast :: "real \<Rightarrow> string"
  en_BigInteger :: "string \<Rightarrow> nat option"

text \<open>
  How a handler ends: it returns, throws an exception derived from \<open>std::exception\<close>, throws a pointer to one, which no
  handler of the program catches, or uses a session that does not exist.
\<close>

datatype outcome = Returned | ThrewException | ThrewPointer | NullSession

type_synonym handler = "stratum \<Rightarrow> outcome \<times> stratum"

definition returning :: handler where
  "returning st = (Returned, st)"

definition reading :: "'a option \<Rightarrow> ('a \<Rightarrow> handler) \<Rightarrow> handler" where
  "reading x k st = (case x of None \<Rightarrow> (ThrewException, st) | Some v \<Rightarrow> k v st)"

definition with_session :: "(Session \<Rightarrow> handler) \<Rightarrow> handler" where
  "with_session k st = (case sc_session st of None \<Rightarrow> (NullSession, st) | Some s \<Rightarrow> k s st)"

definition emit :: "stratum_effect \<Rightarrow> stratum \<Rightarrow> stratum" where
  "emit e st = st\<lparr>sc_effects := sc_effects st @ [e]\<rparr>"

definition set_conn :: "(URI \<Rightarrow> URI) \<Rightarrow> stratum \<Rightarrow> stratum" where
  "set_conn f st = st\<lparr>sc_conn := f (sc_conn st)\<rparr>"

definition set_session :: "(Session \<Rightarrow> Session) \<Rightarrow> stratum \<Rightarrow> stratum" where
  "set_session f st = st\<lparr>sc_session := map_option f (sc_session st)\<rparr>"

abbreviation conn_mode :: "stratum \<Rightarrow> nat" where
  "conn_mode st \<equiv> u_stratumMode (sc_conn st)"

abbreviation conn_confirmed :: "stratum \<Rightarrow> bool" where
  "conn_confirmed st \<equiv> u_stratumModeConfirmed (sc_conn st)"

text \<open>The attributes of the scheme of a stratum endpoint, which the table always has.\<close>

definition conn_secure :: "stratum \<Rightarrow> bool" where
  "conn_secure st = (fst (URI_SecLevel s_schemes (sc_conn st)) \<noteq> SecNONE)"

definition conn_version :: "stratum \<Rightarrow> nat" where
  "conn_version st = fst (URI_Version s_schemes (sc_conn st))"

definition isPendingState :: "stratum \<Rightarrow> bool" where
  "isPendingState st = (sc_connecting st \<or> sc_disconnecting st)"

definition isConnected :: "stratum \<Rightarrow> bool" where
  "isConnected st = (sc_connected st \<and> \<not> isPendingState st)"

section \<open>Awaited responses\<close>

definition clear_response_pleas :: "int \<Rightarrow> stratum \<Rightarrow> stratum" where
  "clear_response_pleas now st = st\<lparr>sc_pleas_count := 0, sc_plea_times := [], sc_plea_older := now\<rparr>"

definition enqueue_response_plea :: "int \<Rightarrow> stratum \<Rightarrow> stratum" where
  "enqueue_response_plea now st =
     st\<lparr>sc_plea_older := (if sc_pleas_count st = 0 then now else sc_plea_older st),
        sc_pleas_count := sc_pleas_count st + 1, sc_plea_times := sc_plea_times st @ [now]\<rparr>"

definition dequeue_response_plea :: "int \<Rightarrow> stratum \<Rightarrow> int \<times> stratum" where
  "dequeue_response_plea now st =
     (let delay = cdiv (now - sc_plea_older st) 1000;
          st = (case sc_plea_times st of [] \<Rightarrow> st | t # ts \<Rightarrow> st\<lparr>sc_plea_older := t, sc_plea_times := ts\<rparr>)
      in if 0 < sc_pleas_count st then (delay, st\<lparr>sc_pleas_count := sc_pleas_count st - 1\<rparr>) else (0, st))"

section \<open>Sending\<close>

definition sendSocketData :: "stratum \<Rightarrow> stratum" where
  "sendSocketData st =
     (if \<not> isConnected st \<or> sc_txQueue st = [] then st\<lparr>sc_sendBuffer := [], sc_txQueue := [], sc_txPending := False\<rparr>
      else
        let st = st\<lparr>sc_sendBuffer := sc_sendBuffer st @ concat (map (\<lambda>l. l @ nl) (sc_txQueue st)), sc_txQueue := []\<rparr>
        in emit (AsyncWrite (sc_sendBuffer st)) st)"

definition send_line :: "string \<Rightarrow> stratum \<Rightarrow> stratum" where
  "send_line line st =
     (let st = st\<lparr>sc_txQueue := sc_txQueue st @ [line]\<rparr>
      in if \<not> sc_txPending st then sendSocketData (st\<lparr>sc_txPending := True\<rparr>) else st)"

definition send_request :: "'j stratum_env \<Rightarrow> jvalue \<Rightarrow> stratum \<Rightarrow> stratum" where
  "send_request E jReq st = send_line (j_write (en_json E) jReq) st"

text \<open>
  A completed write has taken the buffered text. \<open>ec\<close> is None for success, otherwise it says whether the stream
  was shut down by the TLS peer.
\<close>

definition onSendSocketDataCompleted :: "int \<Rightarrow> bool option \<Rightarrow> stratum \<Rightarrow> stratum" where
  "onSendSocketDataCompleted now ec st =
     (case ec of
        Some shutdown \<Rightarrow>
          let st = st\<lparr>sc_sendBuffer := [], sc_txQueue := [], sc_txPending := False\<rparr>;
              st = (if shutdown then emit PostDisconnect st else st)
          in if isConnected st then emit PostDisconnect st else st
      | None \<Rightarrow>
          let st = st\<lparr>sc_sendBuffer := []\<rparr>;
              st = (if conn_mode st = 3 then set_session (\<lambda>s. s\<lparr>ss_lastTxStamp := now\<rparr>) st else st)
          in if sc_txQueue st = [] then st\<lparr>sc_txPending := False\<rparr> else sendSocketData st)"

section \<open>Connecting and disconnecting\<close>

definition stratum_new :: "int \<Rightarrow> URI \<Rightarrow> int \<Rightarrow> int \<Rightarrow> stratum" where
  "stratum_new now conn worktimeout responsetimeout =
     clear_response_pleas now
       \<lparr>sc_conn = conn, sc_connected = False, sc_connecting = False, sc_disconnecting = False, sc_authpending = False,
        sc_worktimeout = worktimeout, sc_responsetimeout = responsetimeout, sc_current = WorkPackage_default,
        sc_current_timestamp = 0, sc_socket = False, sc_open = False, sc_message = [], sc_newjobprocessed = False,
        sc_sendBuffer = [], sc_pleas_count = 0, sc_plea_older = now, sc_plea_times = [], sc_txPending = False,
        sc_txQueue = [], sc_endpoints = [], sc_endpoint = [], sc_max_id = 0, sc_session = None,
        sc_effects = [TimerSleep]\<rparr>"

text \<open>A new socket is not open; its options and the TLS set-up are the library's.\<close>

definition init_socket :: "stratum \<Rightarrow> stratum" where
  "init_socket st = st\<lparr>sc_socket := True, sc_open := False\<rparr>"

text \<open>\<open>address\<close> is the endpoint of a host that is an IP address; other texts make \<open>from_string\<close> throw.\<close>

definition stratum_connect :: "string option \<Rightarrow> handler" where
  "stratum_connect address st =
     (if sc_connecting st then returning st
      else
        let st = emit TimerWait st;
            st = st\<lparr>sc_authpending := False\<rparr>;
            st = (if \<not> sc_socket st then init_socket st else st);
            st = st\<lparr>sc_endpoints := [], sc_endpoint := []\<rparr>
        in if u_hostType (sc_conn st) = HostDns \<or> u_hostType (sc_conn st) = HostBasic
           then returning (emit (Resolve (u_host (sc_conn st)) (u_port (sc_conn st))) st)
           else reading address (\<lambda>a st. returning (emit PostStartConnect (st\<lparr>sc_endpoints := [a]\<rparr>))) st)"

definition disconnect_finalize :: "int \<Rightarrow> stratum \<Rightarrow> stratum" where
  "disconnect_finalize now st =
     (let st = st\<lparr>sc_socket := False, sc_open := False\<rparr>;
          st = (case sc_session st of Some s \<Rightarrow> set_conn (URI_addDuration (Session_duration now s)) st | None \<Rightarrow> st);
          st = st\<lparr>sc_session := None, sc_authpending := False, sc_disconnecting := False, sc_txPending := False\<rparr>;
          retry = (\<not> u_unrecoverable (sc_conn st) \<and> \<not> conn_confirmed st \<and> u_responds (sc_conn st))
      in if retry \<and> 0 < conn_mode st
         then emit PostStartConnect (set_conn (URI_SetStratumMode1 (conn_mode st - 1)) st)
         else
           let st = (if retry then set_conn URI_MarkUnrecoverable st else st);
               st = clear_response_pleas now st;
               st = st\<lparr>sc_max_id := 0\<rparr>
           in emit (Report Disconnected) (emit TimerSleep st))"

text \<open>Cancelling the operations of a socket that is not open throws.\<close>

definition disconnect :: "int \<Rightarrow> handler" where
  "disconnect now st =
     (if sc_disconnecting st then returning st
      else
        let st = st\<lparr>sc_disconnecting := True, sc_connected := False\<rparr>
        in if \<not> sc_socket st then returning (disconnect_finalize now st)
           else if \<not> sc_open st then (ThrewException, st)
           else if conn_secure st then returning (enqueue_response_plea now (emit AsyncShutdown (emit CancelSocket st)))
           else returning (disconnect_finalize now (emit CloseSocket (emit CancelSocket (st\<lparr>sc_open := False\<rparr>)))))"

definition onSSLShutdownCompleted :: "int \<Rightarrow> stratum \<Rightarrow> stratum" where
  "onSSLShutdownCompleted now st = emit PostDisconnectFinalize (clear_response_pleas now st)"

text \<open>\<open>result\<close> is None when the name could not be resolved.\<close>

definition resolve_handler :: "int \<Rightarrow> string list option \<Rightarrow> stratum \<Rightarrow> stratum" where
  "resolve_handler now result st =
     (case result of
        Some eps \<Rightarrow> emit PostStartConnect (st\<lparr>sc_endpoints := sc_endpoints st @ eps\<rparr>)
      | None \<Rightarrow> disconnect_finalize now (st\<lparr>sc_connecting := False\<rparr>))"

definition start_connect :: "int \<Rightarrow> stratum \<Rightarrow> stratum" where
  "start_connect now st =
     (if sc_connecting st then st
      else
        let st = st\<lparr>sc_connecting := True\<rparr>
        in case sc_endpoints st of
             ep # _ \<Rightarrow>
               let st = st\<lparr>sc_endpoint := ep\<rparr>;
                   st = (if \<not> sc_socket st then init_socket st else st);
                   st = clear_response_pleas now st;
                   st = st\<lparr>sc_connecting := True\<rparr>;
                   st = enqueue_response_plea now st;
                   st = st\<lparr>sc_max_id := 0\<rparr>
               in emit (AsyncConnect ep) (st\<lparr>sc_open := True\<rparr>)
           | [] \<Rightarrow> disconnect_finalize now (st\<lparr>sc_connecting := False\<rparr>))"

text \<open>\<open>m_endpoints.pop()\<close>: popping an empty queue is undefined, here it has no effect.\<close>

definition pop_endpoint :: "stratum \<Rightarrow> stratum" where
  "pop_endpoint st = st\<lparr>sc_endpoints := tl (sc_endpoints st)\<rparr>"

text \<open>The endpoint's stratum mode once the socket is connected.\<close>

definition select_mode :: "stratum \<Rightarrow> stratum" where
  "select_mode st =
     (if conn_version st < 999 then set_conn (URI_SetStratumMode (conn_version st) True) st
      else if \<not> conn_confirmed st \<and> conn_mode st = 999 then set_conn (URI_SetStratumMode 3 False) st
      else st)"

definition login_request :: "'j stratum_env \<Rightarrow> stratum \<Rightarrow> jvalue" where
  "login_request E st =
     (let u = sc_conn st;
          jReq = jset ''params'' (JArr []) (jset ''method'' (JStr ''mining.subscribe'') (jset ''id'' (JUInt 1) JNull))
      in if conn_mode st = mode_STRATUM then jset ''jsonrpc'' (JStr ''2.0'') jReq
         else if conn_mode st = mode_ETHPROXY then
           let jReq = jset ''method'' (JStr ''eth_submitLogin'') jReq;
               jReq = (if u_worker u \<noteq> [] then jset ''worker'' (JStr (u_worker u)) jReq else jReq);
               jReq = jappend ''params'' (JStr (u_user u @ u_path u)) jReq
           in if u_password u \<noteq> [] then jappend ''params'' (JStr (u_password u)) jReq else jReq
         else if conn_mode st = mode_ETHEREUMSTRATUM then
           jappend ''params'' (JStr ''EthereumStratum/1.0.0'') (jappend ''params'' (JStr (en_project E)) jReq)
         else if conn_mode st = mode_ETHEREUMSTRATUM2 then
           jset ''params'' (jset ''proto'' (JStr ''EthereumStratum/2.0.0'')
               (jset ''port'' (JStr (toCompactHex_u32 (ucast (u_port u)) PrefixDontAdd))
                 (jset ''host'' (JStr (u_host u)) (jset ''agent'' (JStr (en_project E)) JNull))))
             (jset ''method'' (JStr ''mining.hello'') jReq)
         else jReq)"

text \<open>
  \<open>ec\<close> says whether connecting failed; \<open>open_now\<close> whether the socket is still open (the timer may have closed it);
  \<open>handshake\<close> whether the TLS handshake failed.
\<close>

definition connect_handler :: "'j stratum_env \<Rightarrow> int \<Rightarrow> bool \<Rightarrow> bool \<Rightarrow> stratum \<Rightarrow> stratum" where
  "connect_handler E now ec handshake st =
     (let st = st\<lparr>sc_connecting := False\<rparr>
      in if ec \<or> \<not> sc_open st then
           let st = (if sc_open st then emit CloseSocket (st\<lparr>sc_open := False\<rparr>) else st)
           in emit PostStartConnect (pop_endpoint st)
         else
           let st = set_conn (URI_Responds True) st;
               st = st\<lparr>sc_connected := True, sc_message := [], sc_txQueue := []\<rparr>
           in if conn_secure st \<and> handshake then emit PostDisconnect (set_conn URI_MarkUnrecoverable st)
              else
                let st = clear_response_pleas now (st\<lparr>sc_sendBuffer := []\<rparr>);
                    st = select_mode st;
                    jReq = login_request E st;
                    st = emit AsyncRead st
                in send_request E jReq (enqueue_response_plea now st))"

section \<open>Timeouts\<close>

definition fake_error :: jvalue where
  "fake_error = jset ''error'' (JBool True) (jset ''result'' JNull (jset ''id'' (JUInt 1) JNull))"

definition noop_request :: jvalue where
  "noop_request = jset ''method'' (JStr ''mining.noop'') (jset ''id'' (JUInt 7) JNull)"

definition keep_session_alive :: "'j stratum_env \<Rightarrow> int \<Rightarrow> stratum \<Rightarrow> stratum" where
  "keep_session_alive E now st =
     (case sc_session st of
        Some s \<Rightarrow> if conn_mode st = 3 \<and> sint (ss_timeout s) - 5 < cdiv (now - ss_lastTxStamp s) 1000000
                  then send_request E noop_request st else st
      | None \<Rightarrow> st)"

text \<open>While connecting or disconnecting: the result says whether the handler returns early.\<close>

definition check_pending :: "int \<Rightarrow> stratum \<Rightarrow> bool \<times> stratum" where
  "check_pending now st =
     (let delay = cdiv (now - sc_plea_older st) 1000
      in if isPendingState st \<and> delay \<le> sc_responsetimeout st * 1000 then
           if sc_connecting st then (True, emit CloseSocket (st\<lparr>sc_open := False\<rparr>))
           else if sc_disconnecting st \<and> conn_secure st \<and> sc_open st then (True, emit CloseSocket (st\<lparr>sc_open := False\<rparr>))
           else (False, st)
         else (False, st))"

definition check_connected :: "int \<Rightarrow> stratum \<Rightarrow> stratum" where
  "check_connected now st =
     (if isConnected st then
        let delay = cdiv (now - sc_plea_older st) 1000
        in if sc_responsetimeout st * 1000 \<le> delay then
             if \<not> conn_confirmed st \<and> \<not> u_unrecoverable (sc_conn st)
             then emit (PostResponse fake_error) (clear_response_pleas now st)
             else emit PostDisconnect (clear_response_pleas now (pop_endpoint st))
           else if sc_session st \<noteq> None \<and> sc_worktimeout st < cdiv (now - sc_current_timestamp st) 1000000
             then emit PostDisconnect (clear_response_pleas now (pop_endpoint st))
           else st
      else st)"

definition workloop_timer_elapsed :: "'j stratum_env \<Rightarrow> int \<Rightarrow> bool \<Rightarrow> stratum \<Rightarrow> stratum" where
  "workloop_timer_elapsed E now aborted st =
     (if aborted then st
      else
        let st = keep_session_alive E now st
        in if sc_pleas_count st \<noteq> 0 then
             case check_pending now st of
               (True, st) \<Rightarrow> st
             | (False, st) \<Rightarrow> emit TimerWait (check_connected now st)
           else emit TimerWait st)"

section \<open>Sessions\<close>

definition startSession :: "int \<Rightarrow> stratum \<Rightarrow> stratum" where
  "startSession now st = emit (Report Connected) (st\<lparr>sc_session := Some (Session_new now), sc_current_timestamp := now\<rparr>)"

definition processExtranonce :: "string \<Rightarrow> handler" where
  "processExtranonce enonce st =
     with_session (\<lambda>_ st.
       let st = set_session (\<lambda>s. s\<lparr>ss_extraNonceSizeBytes := length enonce\<rparr>) st;
           enonce = take 16 enonce @ replicate (16 - length enonce) (CHR ''0'')
       in reading (stoul enonce 16) (\<lambda>n st. returning (set_session (\<lambda>s. s\<lparr>ss_extraNonce := of_nat n\<rparr>) st)) st) st"

text \<open>The members of the JSON library's values that the handlers read.\<close>

fun has_members :: "'j json_ops \<Rightarrow> 'j \<Rightarrow> string list \<Rightarrow> bool option" where
  "has_members J v [] = Some True"
| "has_members J v (k # ks) = Option.bind (isMember J v k) (\<lambda>m. if m then has_members J v ks else Some False)"

definition at_value :: "'j json_ops \<Rightarrow> 'j \<Rightarrow> nat \<Rightarrow> 'j option" where
  "at_value J v i = map_option (\<lambda>x. case x of Some y \<Rightarrow> y | None \<Rightarrow> j_value J JNull) (j_at J v i)"

definition request :: "nat \<Rightarrow> string \<Rightarrow> jvalue" where
  "request i method = jset ''method'' (JStr method) (jset ''id'' (JUInt i) JNull)"

definition request_params :: "nat \<Rightarrow> string \<Rightarrow> jvalue" where
  "request_params i method = jset ''params'' (JArr []) (request i method)"

definition credentials :: "stratum \<Rightarrow> jvalue \<Rightarrow> jvalue" where
  "credentials st jReq =
     jappend ''params'' (JStr (u_password (sc_conn st)))
       (jappend ''params'' (JStr (URI_UserDotWorker (sc_conn st) @ u_path (sc_conn st))) jReq)"

definition hello_accepted :: "'j json_ops \<Rightarrow> 'j \<Rightarrow> bool option" where
  "hello_accepted J jResult =
     (if \<not> j_isConvertibleTo J jResult ObjectValue then Some False
      else Option.bind (isMember J jResult ''proto'') (\<lambda>m.
        if \<not> m then Some False
        else Option.bind (get_string J jResult ''proto'' []) (\<lambda>proto.
          if proto \<noteq> ''EthereumStratum/2.0.0'' then Some False
          else has_members J jResult [''encoding'', ''resume'', ''timeout'', ''maxerrors'', ''node''])))"

definition subscribe_accepted :: "'j json_ops \<Rightarrow> 'j \<Rightarrow> bool option" where
  "subscribe_accepted J jResult =
     (if \<not> j_isArray J jResult then Some False
      else Option.bind (at_value J jResult 0) (\<lambda>a.
        if j_isArray J a \<and> j_size J a = 3
        then map_option (\<lambda>s. s = ''EthereumStratum/1.0.0'') (at_string J a 2 []) else Some False))"

section \<open>Responses\<close>

definition negotiation_failed :: handler where
  "negotiation_failed st =
     returning (emit PostDisconnect (if conn_confirmed st then set_conn URI_MarkUnrecoverable st else st))"

definition confirm_mode :: "int \<Rightarrow> nat \<Rightarrow> stratum \<Rightarrow> stratum" where
  "confirm_mode now mode st = startSession now (set_conn (URI_SetStratumMode mode True) st)"

definition login_ethereumstratum2 :: "'j stratum_env \<Rightarrow> int \<Rightarrow> 'j \<Rightarrow> handler" where
  "login_ethereumstratum2 E now jResult st =
     reading (hello_accepted (en_json E) jResult) (\<lambda>ok st.
       if ok then returning (send_request E (request 2 ''mining.subscribe'')
                              (enqueue_response_plea now (confirm_mode now 3 st)))
       else negotiation_failed st) st"

definition login_ethereumstratum :: "'j stratum_env \<Rightarrow> int \<Rightarrow> 'j \<Rightarrow> handler" where
  "login_ethereumstratum E now jResult st =
     reading (subscribe_accepted (en_json E) jResult) (\<lambda>ok st.
       if ok then
         let st = confirm_mode now 2 st;
             st = set_session (\<lambda>s. s\<lparr>ss_subscribed := True\<rparr>) st;
             st = send_request E (request_params 2 ''mining.extranonce.subscribe'') st;
             st = st\<lparr>sc_authpending := True\<rparr>
         in returning (send_request E (credentials st (request_params 3 ''mining.authorize'')) (enqueue_response_plea now st))
       else negotiation_failed st) st"

definition login_ethproxy :: "'j stratum_env \<Rightarrow> int \<Rightarrow> bool \<Rightarrow> handler" where
  "login_ethproxy E now isSuccess st =
     (if isSuccess then
        let st = confirm_mode now 1 st;
            st = set_session (\<lambda>s. s\<lparr>ss_subscribed := True, ss_authorized := True\<rparr>) st
        in returning (send_request E (request_params 5 ''eth_getWork'') st)
      else negotiation_failed st)"

definition login_stratum :: "'j stratum_env \<Rightarrow> int \<Rightarrow> bool \<Rightarrow> handler" where
  "login_stratum E now isSuccess st =
     (if isSuccess then
        let st = confirm_mode now 0 st;
            st = set_session (\<lambda>s. s\<lparr>ss_subscribed := True\<rparr>) st;
            st = st\<lparr>sc_authpending := True\<rparr>;
            jReq = jset ''params'' (JArr []) (jset ''method'' (JStr ''mining.authorize'')
                     (jset ''jsonrpc'' (JStr ''2.0'') (jset ''id'' (JUInt 3) JNull)))
        in returning (send_request E (credentials st jReq) (enqueue_response_plea now st))
      else negotiation_failed st)"

text \<open>The response to the first message.\<close>

definition login_response :: "'j stratum_env \<Rightarrow> int \<Rightarrow> bool \<Rightarrow> 'j \<Rightarrow> handler" where
  "login_response E now isSuccess jResult st =
     (let st = snd (dequeue_response_plea now st)
      in if \<not> isSuccess \<and> \<not> conn_confirmed st then returning (emit PostDisconnect st)
         else if conn_mode st = mode_ETHEREUMSTRATUM2 then login_ethereumstratum2 E now jResult st
         else if conn_mode st = mode_ETHEREUMSTRATUM then login_ethereumstratum E now jResult st
         else if conn_mode st = mode_ETHPROXY then login_ethproxy E now isSuccess st
         else if conn_mode st = mode_STRATUM then login_stratum E now isSuccess st
         else returning (send_request E JNull st))"

text \<open>The response to \<open>mining.subscribe\<close>, which only the second version of EthereumStratum awaits.\<close>

definition subscribe_response :: "'j stratum_env \<Rightarrow> int \<Rightarrow> 'j \<Rightarrow> handler" where
  "subscribe_response E now jResult st =
     (if conn_mode st \<noteq> 3 then returning st
      else
        let st = snd (dequeue_response_plea now st)
        in if \<not> j_isString (en_json E) jResult then returning (emit PostDisconnect (set_conn URI_MarkUnrecoverable st))
           else reading (j_asString (en_json E) jResult) (\<lambda>sid st.
             if sid = [] then returning (emit PostDisconnect (set_conn URI_MarkUnrecoverable st))
             else with_session (\<lambda>_ st.
               let st = set_session (\<lambda>s. s\<lparr>ss_sessionId := sid, ss_subscribed := True\<rparr>) st;
                   st = st\<lparr>sc_authpending := True\<rparr>
               in returning (send_request E (credentials st (request_params 3 ''mining.authorize''))
                    (enqueue_response_plea now st))) st) st)"

text \<open>Success of a response whose result may be a Boolean.\<close>

definition result_success :: "'j json_ops \<Rightarrow> bool \<Rightarrow> 'j \<Rightarrow> bool option" where
  "result_success J isSuccess jResult = (if isSuccess \<and> j_isBool J jResult then j_asBool J jResult else Some isSuccess)"

definition authorize_response :: "'j stratum_env \<Rightarrow> int \<Rightarrow> bool \<Rightarrow> 'j \<Rightarrow> handler" where
  "authorize_response E now isSuccess jResult st =
     (let st = snd (dequeue_response_plea now st)
      in if conn_mode st \<noteq> mode_ETHEREUMSTRATUM2 then
           reading (result_success (en_json E) isSuccess jResult) (\<lambda>ok st.
             with_session (\<lambda>_ st.
               let st = set_session (\<lambda>s. s\<lparr>ss_authorized := ok\<rparr>) st
               in if \<not> isAuthorized (sc_session st) then returning (emit PostDisconnect (set_conn URI_MarkUnrecoverable st))
                  else returning st) (st\<lparr>sc_authpending := False\<rparr>)) st
         else if \<not> isSuccess \<or> \<not> j_isString (en_json E) jResult then returning (emit PostDisconnect (set_conn URI_MarkUnrecoverable st))
         else reading (j_asString (en_json E) jResult) (\<lambda>wid st.
           if wid = [] then returning (emit PostDisconnect (set_conn URI_MarkUnrecoverable st))
           else with_session (\<lambda>_ st.
             returning (set_session (\<lambda>s. s\<lparr>ss_authorized := True, ss_workerId := wid\<rparr>) st)) (st\<lparr>sc_authpending := False\<rparr>)) st)"

text \<open>
  The response to a submission: in the second version of EthereumStratum an error whose code starts with 2 means that
  the solution is accepted as stale.
\<close>

definition solution_verdict :: "'j json_ops \<Rightarrow> nat \<Rightarrow> bool \<Rightarrow> 'j \<Rightarrow> 'j \<Rightarrow> (bool \<times> bool) option" where
  "solution_verdict J mode isSuccess jResult msg =
     (if mode \<noteq> mode_ETHEREUMSTRATUM2 then map_option (\<lambda>ok. (ok, False)) (result_success J isSuccess jResult)
      else if isSuccess then Some (True, False)
      else map_option (\<lambda>code. (take 1 code = ''2'', take 1 code = ''2''))
             (Option.bind (get_value J msg ''error'') (\<lambda>e. get_string J e ''code'' [])))"

definition solution_response :: "'j stratum_env \<Rightarrow> int \<Rightarrow> nat \<Rightarrow> bool \<Rightarrow> 'j \<Rightarrow> 'j \<Rightarrow> handler" where
  "solution_response E now i isSuccess jResult msg st =
     (case dequeue_response_plea now st of (delay, st) \<Rightarrow>
        reading (solution_verdict (en_json E) (conn_mode st) isSuccess jResult msg) (\<lambda>(ok, stale) st.
          returning (emit (Report (if ok then SolutionAccepted delay (i - 40) stale else SolutionRejected delay (i - 40))) st)) st)"

definition response_999 :: "bool \<Rightarrow> handler" where
  "response_999 isSuccess st =
     (if \<not> isSuccess \<and>
        (\<not> conn_confirmed st \<or> \<not> isSubscribed (sc_session st) \<or> isSubscribed (sc_session st) \<and> \<not> isAuthorized (sc_session st))
      then returning (emit PostDisconnect st) else returning st)"

section \<open>Notifications\<close>

definition set_current :: "(WorkPackage \<Rightarrow> WorkPackage) \<Rightarrow> stratum \<Rightarrow> stratum" where
  "set_current f st = st\<lparr>sc_current := f (sc_current st)\<rparr>"

definition job_arrived :: "int \<Rightarrow> stratum \<Rightarrow> stratum" where
  "job_arrived now st = st\<lparr>sc_current_timestamp := now, sc_newjobprocessed := True\<rparr>"

definition notify_ethereumstratum :: "'j stratum_env \<Rightarrow> int \<Rightarrow> 'j \<Rightarrow> handler" where
  "notify_ethereumstratum E now jPrm st =
     (let J = en_json E
      in reading (at_string J jPrm 1 []) (\<lambda>sSeedHash. reading (at_string J jPrm 2 []) (\<lambda>sHeaderHash.
         reading (at_string J jPrm 3 []) (\<lambda>sBlockHeight st.
           if sHeaderHash = [] \<or> sSeedHash = [] then returning st
           else reading (h256 sSeedHash) (\<lambda>seed st.
             reading (h256 sHeaderHash) (\<lambda>header. with_session (\<lambda>s st.
               returning (job_arrived now (set_current (\<lambda>w. w\<lparr>wp_header := header,
                 wp_boundary := ss_nextWorkBoundary s, wp_startNonce := ss_extraNonce s,
                 wp_exSizeBytes := of_nat (ss_extraNonceSizeBytes s), wp_block := to_int (strtoul sBlockHeight 0)\<rparr>) st))))
               (set_current (\<lambda>w. w\<lparr>wp_seed := seed\<rparr>) st)) st))) st)"

text \<open>The block number of a job that is stored, and whether no pointer is thrown.\<close>

definition max_block :: int where "max_block = 0x9660180"

definition job_block :: "string \<Rightarrow> bool \<times> int" where
  "job_block s =
     (case stoul s 16 of None \<Rightarrow> (True, -1) | Some n \<Rightarrow> (to_int n \<le> max_block, to_int n))"

definition pad_target :: "string \<Rightarrow> string option" where
  "pad_target t =
     (if length t < 66 then if length t < 2 then None else Some (''0x'' @ replicate (66 - length t) (CHR ''0'') @ drop 2 t)
      else Some t)"

definition set_block :: "int \<Rightarrow> stratum \<Rightarrow> stratum" where
  "set_block n st = set_current (\<lambda>w. w\<lparr>wp_block := n\<rparr>) st"

definition notify_hashes :: "int \<Rightarrow> string \<Rightarrow> string \<Rightarrow> string \<Rightarrow> handler" where
  "notify_hashes now sHeaderHash sSeedHash sShareTarget st =
     reading (pad_target sShareTarget) (\<lambda>target. reading (h256 sSeedHash) (\<lambda>seed st.
       reading (h256 sHeaderHash) (\<lambda>header st.
         reading (h256 target) (\<lambda>boundary st.
           returning (job_arrived now (set_current (\<lambda>w. w\<lparr>wp_boundary := boundary\<rparr>) st)))
           (set_current (\<lambda>w. w\<lparr>wp_header := header\<rparr>) st))
         (set_current (\<lambda>w. w\<lparr>wp_seed := seed\<rparr>) st))) st"

definition notify_stratum :: "'j stratum_env \<Rightarrow> int \<Rightarrow> 'j \<Rightarrow> nat \<Rightarrow> handler" where
  "notify_stratum E now jPrm prmIdx st =
     (let J = en_json E
      in reading (at_string J jPrm prmIdx []) (\<lambda>sHeaderHash. reading (at_string J jPrm (prmIdx + 1) []) (\<lambda>sSeedHash.
         reading (at_string J jPrm (prmIdx + 2) []) (\<lambda>sShareTarget st.
           if prmIdx + 3 < j_size J jPrm then
             reading (at_string J jPrm (prmIdx + 3) []) (\<lambda>b st.
               if take 2 b = ''0x'' then
                 case job_block b of (ok, n) \<Rightarrow>
                   if ok then notify_hashes now sHeaderHash sSeedHash sShareTarget (set_block n st)
                   else (ThrewPointer, set_block n st)
               else notify_hashes now sHeaderHash sSeedHash sShareTarget st) (set_block (-1) st)
           else notify_hashes now sHeaderHash sSeedHash sShareTarget (set_block (-1) st)))) st)"

definition mining_notify :: "'j stratum_env \<Rightarrow> int \<Rightarrow> 'j \<Rightarrow> handler" where
  "mining_notify E now msg st =
     (let J = en_json E
      in if \<not> isSubscribed (sc_session st) \<or> sc_newjobprocessed st then returning st
         else reading (if conn_mode st = mode_ETHPROXY then isMember J msg ''result'' else Some False) (\<lambda>in_result.
           reading (get_value J msg (if in_result then ''result'' else ''params'')) (\<lambda>jPrm st.
             if j_isArray J jPrm \<and> \<not> j_empty J jPrm then
               reading (at_string J jPrm 0 []) (\<lambda>job st.
                 let st = set_current (\<lambda>w. w\<lparr>wp_job := job\<rparr>) st
                 in if conn_mode st = mode_ETHEREUMSTRATUM then notify_ethereumstratum E now jPrm st
                    else notify_stratum E now jPrm (if in_result then 0 else 1) st) st
             else returning st)) st)"

definition mining_notify2 :: "'j stratum_env \<Rightarrow> int \<Rightarrow> 'j \<Rightarrow> handler" where
  "mining_notify2 E now msg st =
     (let J = en_json E
      in case sc_session st of None \<Rightarrow> returning st | Some s \<Rightarrow>
           if \<not> ss_firstMiningSet s then returning st
           else reading (isMember J msg ''params'') (\<lambda>m. reading (get_value J msg ''params'') (\<lambda>jPrm st.
             if \<not> m \<or> \<not> j_isArray J jPrm \<or> j_empty J jPrm \<or> j_size J jPrm \<noteq> 4 then returning st
             else reading (at_string J jPrm 0 []) (\<lambda>job st.
               reading (Option.bind (at_string J jPrm 1 []) (\<lambda>b. stoul b 16)) (\<lambda>b st.
                 reading (Option.bind (at_string J jPrm 2 []) (\<lambda>h. h256 (''0x'' @ padLeft h 64 (CHR ''0'')))) (\<lambda>header st.
                   reading (h256 (hash_hex (ss_nextWorkBoundary s) PrefixAdd)) (\<lambda>boundary st.
                     returning (job_arrived now (set_current (\<lambda>w. w\<lparr>wp_boundary := boundary, wp_epoch := sint (ss_epoch s),
                       wp_algo := ss_algo s, wp_startNonce := ss_extraNonce s,
                       wp_exSizeBytes := of_nat (ss_extraNonceSizeBytes s)\<rparr>) st)))
                     (set_current (\<lambda>w. w\<lparr>wp_header := header\<rparr>) st))
                   (set_block (to_int b) st))
                 (set_current (\<lambda>w. w\<lparr>wp_job := job\<rparr>) st)) st)) st)"

definition mining_set_difficulty :: "'j stratum_env \<Rightarrow> 'j \<Rightarrow> handler" where
  "mining_set_difficulty E msg st =
     (let J = en_json E
      in reading (get_value J msg ''params'') (\<lambda>jPrm st.
           if \<not> j_isArray J jPrm then returning st
           else reading (at_double J jPrm 0 1) (\<lambda>d.
             reading (case getTargetFromDiff (en_lexical_cast E) (en_BigInteger E) (max d (1 / 10000)) PrefixAdd of
                        Inl _ \<Rightarrow> None | Inr t \<Rightarrow> h256 t)
               (\<lambda>boundary. with_session (\<lambda>_ st.
                  returning (set_session (\<lambda>s. s\<lparr>ss_nextWorkBoundary := boundary\<rparr>) st)))) st) st)"

definition mining_set_extranonce :: "'j stratum_env \<Rightarrow> 'j \<Rightarrow> handler" where
  "mining_set_extranonce E msg st =
     (let J = en_json E
      in reading (get_value J msg ''params'') (\<lambda>jPrm st.
           if \<not> j_isArray J jPrm then returning st
           else reading (at_string J jPrm 0 []) (\<lambda>enonce st. if enonce = [] then returning st else processExtranonce enonce st) st) st)"

text \<open>Texts that set a value only when they are not empty.\<close>

definition set_if :: "string \<Rightarrow> (string \<Rightarrow> 'a option) \<Rightarrow> ('a \<Rightarrow> Session \<Rightarrow> Session) \<Rightarrow> handler \<Rightarrow> handler" where
  "set_if s f upd k st = (if s = [] then k st else reading (f s) (\<lambda>x st. k (set_session (upd x) st)) st)"

definition mining_set_values :: "'j stratum_env \<Rightarrow> 'j \<Rightarrow> handler" where
  "mining_set_values E jPrm st =
     (let J = en_json E
      in reading (get_string J jPrm ''timeout'' []) (\<lambda>timeout. reading (get_string J jPrm ''epoch'' []) (\<lambda>epoch.
         reading (get_string J jPrm ''target'' []) (\<lambda>target.
           set_if timeout (\<lambda>t. stoi t 16) (\<lambda>n s. s\<lparr>ss_timeout := of_int n\<rparr>)
           (set_if epoch (\<lambda>t. stoul t 16) (\<lambda>n s. s\<lparr>ss_epoch := of_nat n\<rparr>)
           (set_if target (\<lambda>t. h256 (''0x'' @ padLeft t 64 (CHR ''0''))) (\<lambda>h s. s\<lparr>ss_nextWorkBoundary := h\<rparr>)
           (reading (get_string J jPrm ''algo'' ''ethash'') (\<lambda>algo st.
             let st = set_session (\<lambda>s. s\<lparr>ss_algo := algo\<rparr>) st
             in reading (get_string J jPrm ''extranonce'' []) (\<lambda>enonce st.
                  if enonce = [] then returning st else processExtranonce enonce st) st))))))) st)"

definition mining_set :: "'j stratum_env \<Rightarrow> 'j \<Rightarrow> handler" where
  "mining_set E msg st =
     (let J = en_json E
      in reading (isMember J msg ''params'') (\<lambda>m. reading (get_value J msg ''params'') (\<lambda>jPrm st.
           if \<not> m \<or> \<not> j_isObject J jPrm \<or> j_empty J jPrm then returning st
           else with_session (\<lambda>_ st.
             mining_set_values E jPrm (set_session (\<lambda>s. s\<lparr>ss_firstMiningSet := True\<rparr>) st)) st)) st)"

definition version_reply :: "'j stratum_env \<Rightarrow> bool \<Rightarrow> nat \<Rightarrow> jvalue" where
  "version_reply E rpc2 i =
     (let jReq = jset ''result'' (JStr (en_project E)) (jset ''id'' (JUInt i) JNull)
      in if rpc2 then jset ''jsonrpc'' (JStr ''2.0'') jReq else jset ''error'' JNull jReq)"

definition unknown_reply :: "bool \<Rightarrow> nat \<Rightarrow> jvalue" where
  "unknown_reply rpc2 i =
     jset ''error'' (JStr ''Method not found'') (jset ''id'' (JUInt i) (if rpc2 then jset ''jsonrpc'' (JStr ''2.0'') JNull else JNull))"

definition notification :: "'j stratum_env \<Rightarrow> int \<Rightarrow> bool \<Rightarrow> nat \<Rightarrow> string \<Rightarrow> 'j \<Rightarrow> handler" where
  "notification E now rpc2 i method msg st =
     (if \<not> conn_confirmed st then returning st
      else if method = ''mining.notify'' \<and> conn_mode st \<noteq> mode_ETHEREUMSTRATUM2 then mining_notify E now msg st
      else if method = ''mining.notify'' then mining_notify2 E now msg st
      else if method = ''mining.set_difficulty'' \<and> conn_mode st = mode_ETHEREUMSTRATUM then mining_set_difficulty E msg st
      else if method = ''mining.set_extranonce'' \<and> conn_mode st = mode_ETHEREUMSTRATUM then mining_set_extranonce E msg st
      else if method = ''mining.set'' \<and> conn_mode st = mode_ETHEREUMSTRATUM2 then mining_set E msg st
      else if method = ''mining.bye'' \<and> conn_mode st = mode_ETHEREUMSTRATUM2 then returning (emit PostDisconnect st)
      else if method = ''client.get_version'' then returning (send_request E (version_reply E rpc2 i) st)
      else returning (send_request E (unknown_reply rpc2 i) st))"

section \<open>Messages\<close>

definition response :: "'j stratum_env \<Rightarrow> int \<Rightarrow> bool \<Rightarrow> nat \<Rightarrow> bool \<Rightarrow> 'j \<Rightarrow> handler" where
  "response E now rpc2 i isSuccess msg st =
     reading (get_value (en_json E) msg ''result'') (\<lambda>jResult st.
       if i = 1 then login_response E now isSuccess jResult st
       else if i = 2 then subscribe_response E now jResult st
       else if i = 3 then authorize_response E now isSuccess jResult st
       else if 40 \<le> i \<and> i \<le> sc_max_id st then solution_response E now i isSuccess jResult msg st
       else if i = 5 then
         if conn_mode st = mode_ETHPROXY \<and> j_isArray (en_json E) jResult
         then notification E now rpc2 i ''mining.notify'' msg st else returning st
       else if i = 999 then response_999 isSuccess st
       else returning st) st"

text \<open>
  The checks of a message. \<open>operator[]\<close> adds a missing member as null to the message, which no later test
  distinguishes from a missing member.
\<close>

definition valid_version :: "'j json_ops \<Rightarrow> bool \<Rightarrow> 'j \<Rightarrow> bool option" where
  "valid_version J rpc2 msg =
     (if \<not> rpc2 then Some True
      else Option.bind (get_value J msg ''jsonrpc'') (\<lambda>v.
        if j_isString J v then map_option (\<lambda>s. s = ''2.0'') (j_asString J v) else Some False))"

definition has_content :: "'j json_ops \<Rightarrow> bool \<Rightarrow> 'j \<Rightarrow> bool option" where
  "has_content J isNotification msg =
     (if \<not> isNotification then Some True
      else Option.bind (get_value J msg ''params'') (\<lambda>p.
        if \<not> j_empty J p then Some True else map_option (\<lambda>r. \<not> j_empty J r) (get_value J msg ''result'')))"

definition valid_message :: "'j json_ops \<Rightarrow> bool \<Rightarrow> bool \<Rightarrow> 'j \<Rightarrow> bool option" where
  "valid_message J rpc2 isNotification msg =
     Option.bind (valid_version J rpc2 msg) (\<lambda>v. if v then has_content J isNotification msg else Some False)"

definition pushed_job :: "'j json_ops \<Rightarrow> bool \<Rightarrow> nat \<Rightarrow> 'j \<Rightarrow> bool option" where
  "pushed_job J unnamed mode msg =
     (if unnamed \<and> mode = mode_ETHPROXY then map_option (j_isArray J) (get_value J msg ''result'') else Some False)"

definition processResponse :: "'j stratum_env \<Rightarrow> int \<Rightarrow> 'j \<Rightarrow> handler" where
  "processResponse E now msg st =
     (let J = en_json E
      in reading (isMember J msg ''jsonrpc'') (\<lambda>rpc2. reading (get_uint J msg ''id'' 0) (\<lambda>i.
         reading (map_option (j_empty J) (get_value J msg ''error'')) (\<lambda>isSuccess.
         reading (if isSuccess then Some [] else processError J msg) (\<lambda>_.
         reading (get_string J msg ''method'' []) (\<lambda>method st.
           let isNotification = (method \<noteq> [] \<or> i = 0)
           in reading (pushed_job J (isNotification \<and> method = []) (conn_mode st) msg) (\<lambda>job.
              reading (valid_message J rpc2 isNotification msg) (\<lambda>valid st.
                if \<not> valid then returning (emit PostDisconnect st)
                else if isNotification then notification E now rpc2 i (if job then ''mining.notify'' else method) msg st
                else response E now rpc2 i isSuccess msg st)) st))))) st)"

section \<open>Receiving\<close>

definition process_line :: "'j stratum_env \<Rightarrow> int \<Rightarrow> string \<Rightarrow> handler" where
  "process_line E now line st =
     (let line = (if line = [] then [] else en_trim E line)
      in if line = [] then returning st
         else case j_parse (en_json E) line of
                Some msg \<Rightarrow> processResponse E now msg st
              | None \<Rightarrow> returning st)"

text \<open>
  The complete lines of the buffer are processed one by one. An exception is reported and the loop goes on; a thrown
  pointer, or the use of a missing session, leaves the loop.
\<close>

definition caught :: "outcome \<Rightarrow> bool" where
  "caught r = (r = Returned \<or> r = ThrewException)"

function process_lines :: "'j stratum_env \<Rightarrow> int \<Rightarrow> handler" where
  "process_lines E now st =
     (case break_line (sc_message st) of
        None \<Rightarrow> returning st
      | Some (line, rest) \<Rightarrow>
          (case process_line E now line st of (r, st') \<Rightarrow>
             if caught r then process_lines E now (st'\<lparr>sc_message := rest\<rparr>) else (r, st')))"
  by pat_completeness auto
termination
  by (relation "measure (\<lambda>(E, now, st). length (sc_message st))") (auto dest: break_line_shorter)

declare process_lines.simps [simp del]

text \<open>\<open>rx\<close> is the text received, None for an error.\<close>

definition onRecvSocketDataCompleted :: "'j stratum_env \<Rightarrow> int \<Rightarrow> string option \<Rightarrow> handler" where
  "onRecvSocketDataCompleted E now rx st =
     (case rx of
        Some rx_message \<Rightarrow>
          (case process_lines E now (st\<lparr>sc_message := sc_message st @ rx_message, sc_newjobprocessed := False\<rparr>) of
             (r, st) \<Rightarrow>
               if \<not> caught r then (r, st)
               else
                 let st = (if sc_newjobprocessed st then emit (Report (WorkReceived (sc_current st))) st else st)
                 in returning (if isConnected st then emit AsyncRead st else st))
      | None \<Rightarrow>
          returning
            (if isConnected st
             then emit PostDisconnect (if sc_authpending st then set_conn URI_MarkUnrecoverable st else st)
             else st))"

section \<open>Submitting\<close>

definition submitHashrate :: "'j stratum_env \<Rightarrow> u64 \<Rightarrow> string \<Rightarrow> handler" where
  "submitHashrate E rate hid st =
     (if \<not> isConnected st then returning st
      else
        let jReq = jset ''params'' (JArr []) (jset ''id'' (JUInt 9) JNull)
        in if conn_mode st \<noteq> 3 then
             let jReq = jset ''jsonrpc'' (JStr ''2.0'') jReq;
                 jReq = (if u_worker (sc_conn st) \<noteq> [] then jset ''worker'' (JStr (u_worker (sc_conn st))) jReq else jReq);
                 jReq = jset ''method'' (JStr ''eth_submitHashrate'') jReq;
                 jReq = jappend ''params'' (JStr (toHex_u64 rate PrefixAdd 32)) jReq
             in returning (send_request E (jappend ''params'' (JStr hid) jReq) st)
           else
             let jReq = jset ''method'' (JStr ''mining.hashrate'') jReq;
                 jReq = jappend ''params'' (JStr (toCompactHex_u64 rate PrefixDontAdd)) jReq
             in with_session (\<lambda>s st. returning (send_request E (jappend ''params'' (JStr (ss_workerId s)) jReq) st)) st)"

text \<open>\<open>std::string::substr\<close> throws when the position is beyond the end.\<close>

definition substr_from :: "string \<Rightarrow> nat \<Rightarrow> string option" where
  "substr_from s pos = (if pos \<le> length s then Some (drop pos s) else None)"

definition with_worker :: "stratum \<Rightarrow> jvalue \<Rightarrow> jvalue" where
  "with_worker st jReq =
     (if u_worker (sc_conn st) \<noteq> [] then jset ''worker'' (JStr (u_worker (sc_conn st))) jReq else jReq)"

definition append_texts :: "string list \<Rightarrow> jvalue \<Rightarrow> jvalue" where
  "append_texts ts jReq = fold (\<lambda>t. jappend ''params'' (JStr t)) ts jReq"

text \<open>The request that submits a solution; None when the nonce is shorter than the part fixed by the pool.\<close>

definition submit_request :: "stratum \<Rightarrow> Session \<Rightarrow> Solution \<Rightarrow> jvalue option" where
  "submit_request st s sol =
     (let jReq = request_params (40 + sol_midx sol) ''mining.submit'';
          nonce = toHex_u64 (sol_nonce sol) PrefixAdd 16;
          header = hash_hex (wp_header (sol_work sol)) PrefixAdd;
          mix = hash_hex (sol_mixHash sol) PrefixAdd;
          short = substr_from (toHex_u64 (sol_nonce sol) PrefixDontAdd 16) (unat (wp_exSizeBytes (sol_work sol)));
          job = wp_job (sol_work sol)
      in if conn_mode st = mode_STRATUM then
           Some (with_worker st (append_texts [u_user (sc_conn st), job, nonce, header, mix]
             (jset ''jsonrpc'' (JStr ''2.0'') jReq)))
         else if conn_mode st = mode_ETHPROXY then
           Some (with_worker st (append_texts [nonce, header, mix] (jset ''method'' (JStr ''eth_submitWork'') jReq)))
         else if conn_mode st = mode_ETHEREUMSTRATUM then
           map_option (\<lambda>n. append_texts [URI_UserDotWorker (sc_conn st), job, n] jReq) short
         else if conn_mode st = mode_ETHEREUMSTRATUM2 then
           map_option (\<lambda>n. append_texts [job, n, ss_workerId s] jReq) short
         else Some jReq)"

definition submitSolution :: "'j stratum_env \<Rightarrow> int \<Rightarrow> Solution \<Rightarrow> handler" where
  "submitSolution E now sol st =
     (case sc_session st of
        None \<Rightarrow> returning st
      | Some s \<Rightarrow>
          if \<not> ss_authorized s then returning st
          else reading (submit_request st s sol) (\<lambda>jReq st. returning (send_request E jReq (enqueue_response_plea now st)))
                 (st\<lparr>sc_max_id := max (sc_max_id st) (40 + sol_midx sol)\<rparr>))"

end
