(* ===== verification/StratumInvariant.thy ===== *)
theory StratumInvariant
  imports Stratum
begin

text \<open>
  What holds in every state of a stratum client, whatever the pool sends and in whatever order the handlers run: the
  steps of a client, its invariant, and the bound on the attempts of the detection of the protocol. The proof that a
  handler keeps a predicate follows the structure of the handler; the locale \<open>handler_invariant\<close> does it once for every
  predicate that the elementary operations keep.
\<close>

section \<open>Specification\<close>

text \<open>
  The stratum mode of an endpoint is one of the four modes, or 999 before the first connection. The number of attempts
  the detection has left is the potential of its termination proof.
\<close>

definition conn_ok :: "URI \<Rightarrow> bool" where
  "conn_ok u \<longleftrightarrow> (u_stratumMode u \<le> 3 \<or> u_stratumMode u = 999) \<and>
     (u_stratumModeConfirmed u \<or> u_responds u \<and> \<not> u_unrecoverable u \<longrightarrow> u_stratumMode u \<le> 3)"

definition detection_left :: "URI \<Rightarrow> nat" where
  "detection_left u =
     (if u_stratumModeConfirmed u \<or> u_unrecoverable u then 0 else if u_stratumMode u = 999 then 4 else Suc (u_stratumMode u))"

definition selected :: "nat \<Rightarrow> URI \<Rightarrow> URI" where
  "selected v u =
     (if v < 999 then URI_SetStratumMode v True u
      else if \<not> u_stratumModeConfirmed u \<and> u_stratumMode u = 999 then URI_SetStratumMode 3 False u else u)"

text \<open>
  The invariant of a client: a session exists only once the mode is confirmed, the counter of awaited responses is
  the number of their times, and no message waits without a transmission under way.
\<close>

definition stratum_inv :: "nat \<Rightarrow> stratum \<Rightarrow> bool" where
  "stratum_inv k st \<longleftrightarrow> conn_ok (sc_conn st) \<and> detection_left (sc_conn st) \<le> k \<and>
     (sc_session st \<noteq> None \<longrightarrow> conn_confirmed st) \<and>
     sc_pleas_count st = int (length (sc_plea_times st)) \<and>
     (sc_connected st \<and> \<not> sc_txPending st \<longrightarrow> sc_txQueue st = [])"

text \<open>
  One handler runs to its end. Connecting, and what follows a disconnection, runs only while the socket is not
  connected; an error may close the socket at any time. A thrown pointer, and the use of a missing session, end the
  program and have no step.
\<close>

inductive stratum_step :: "'j stratum_env \<Rightarrow> stratum \<Rightarrow> stratum \<Rightarrow> bool" for E where
  connect: "\<not> sc_connected st \<Longrightarrow> stratum_connect address st = (Returned, st') \<Longrightarrow> stratum_step E st st'"
| disconnect: "disconnect now st = (Returned, st') \<Longrightarrow> stratum_step E st st'"
| finalize: "\<not> sc_connected st \<Longrightarrow> stratum_step E st (disconnect_finalize now st)"
| shutdown: "stratum_step E st (onSSLShutdownCompleted now st)"
| resolved: "\<not> sc_connected st \<Longrightarrow> stratum_step E st (resolve_handler now result st)"
| start_connect: "\<not> sc_connected st \<Longrightarrow> stratum_step E st (start_connect now st)"
| connected: "stratum_step E st (connect_handler E now ec handshake st)"
| closed: "stratum_step E st (st\<lparr>sc_open := False\<rparr>)"
| timer: "stratum_step E st (workloop_timer_elapsed E now aborted st)"
| fake: "processResponse E now msg st = (Returned, st') \<Longrightarrow> stratum_step E st st'"
| received: "onRecvSocketDataCompleted E now rx st = (Returned, st') \<Longrightarrow> stratum_step E st st'"
| sent: "stratum_step E st (onSendSocketDataCompleted now ec st)"
| hashrate: "submitHashrate E rate hid st = (Returned, st') \<Longrightarrow> stratum_step E st st'"
| solution: "submitSolution E now sol st = (Returned, st') \<Longrightarrow> stratum_step E st st'"

text \<open>
  An endpoint handed to a client, and a step that lowers the mode to try the next one.
\<close>

definition fresh_conn :: "URI \<Rightarrow> bool" where
  "fresh_conn u \<longleftrightarrow> (u_stratumMode u \<le> 3 \<or> u_stratumMode u = 999 \<and> \<not> u_stratumModeConfirmed u) \<and> \<not> u_responds u"

definition lowers :: "'j stratum_env \<Rightarrow> stratum \<Rightarrow> stratum \<Rightarrow> bool" where
  "lowers E st st' \<longleftrightarrow> stratum_step E st st' \<and> \<not> conn_confirmed st' \<and> \<not> u_unrecoverable (sc_conn st') \<and> conn_mode st = Suc (conn_mode st')"

text \<open>
  A client for an endpoint without a fixed protocol, while it detects the protocol.
\<close>

definition example_env :: "jvalue stratum_env" where
  "example_env =
     \<lparr>en_json = example_json (\<lambda>s. None), en_trim = (\<lambda>s. s), en_project = ''miner'', en_lexical_cast = (\<lambda>_. ''1''),
      en_BigInteger = (\<lambda>_. Some 1)\<rparr>"

definition example_conn :: "string \<Rightarrow> URI" where
  "example_conn sch = (URI_init ''uri'')\<lparr>u_scheme := sch, u_hostType := HostIPV4\<rparr>"

definition new_client_of :: "string \<Rightarrow> stratum" where
  "new_client_of sch = stratum_new 0 (example_conn sch) 180 2"

definition resolved_client :: stratum where
  "resolved_client = start_connect 0 (snd (stratum_connect (Some ''1.2.3.4'') (new_client_of ''stratum'')))"

definition detecting_client :: stratum where
  "detecting_client = connect_handler example_env 0 False False resolved_client"

section \<open>Invariants of the handlers\<close>

locale handler_invariant =
  fixes P :: "stratum \<Rightarrow> bool"
  assumes emit: "P st \<Longrightarrow> P (emit e st)"
    and send_line: "P st \<Longrightarrow> P (send_line l st)"
    and enqueue: "P st \<Longrightarrow> P (enqueue_response_plea now st)"
    and dequeue: "P st \<Longrightarrow> P (snd (dequeue_response_plea now st))"
    and session: "P st \<Longrightarrow> P (set_session f st)"
    and current: "P st \<Longrightarrow> P (set_current g st)"
    and job: "P st \<Longrightarrow> P (job_arrived now st)"
    and authpending: "P st \<Longrightarrow> P (st\<lparr>sc_authpending := b\<rparr>)"
    and unrecoverable: "P st \<Longrightarrow> P (set_conn URI_MarkUnrecoverable st)"
    and confirm: "P st \<Longrightarrow> m \<le> 3 \<Longrightarrow> P (confirm_mode now m st)"
begin

definition keeps :: "handler \<Rightarrow> bool" where
  "keeps h \<longleftrightarrow> (\<forall>st. P st \<longrightarrow> P (snd (h st)))"

lemma keepsI [intro]: "(\<And>st. P st \<Longrightarrow> P (snd (h st))) \<Longrightarrow> keeps h"
  by (simp add: keeps_def)

lemma keepsD: "keeps h \<Longrightarrow> P st \<Longrightarrow> P (snd (h st))"
  by (simp add: keeps_def)

lemma returning_keeps: "P st \<Longrightarrow> P (snd (returning st))"
  by (simp add: returning_def)

lemma reading_keeps: "P st \<Longrightarrow> (\<And>v. keeps (k v)) \<Longrightarrow> P (snd (reading x k st))"
  by (auto simp: reading_def keeps_def split: option.split)

lemma with_session_keeps: "P st \<Longrightarrow> (\<And>v. keeps (k v)) \<Longrightarrow> P (snd (with_session k st))"
  by (auto simp: with_session_def keeps_def split: option.split)

lemma send: "P st \<Longrightarrow> P (send_request E jReq st)"
  unfolding send_request_def by (rule send_line)

lemma block: "P st \<Longrightarrow> P (set_block n st)"
  unfolding set_block_def by (rule current)

lemmas basic = emit send enqueue dequeue session current job authpending unrecoverable confirm block
  returning_keeps

lemma if_keeps: "(b \<Longrightarrow> P (snd x)) \<Longrightarrow> (\<not> b \<Longrightarrow> P (snd y)) \<Longrightarrow> P (snd (if b then x else y))"
  by simp

lemmas compound = if_keeps reading_keeps with_session_keeps keepsI

lemma negotiation_failed_keeps: "P st \<Longrightarrow> P (snd (negotiation_failed st))"
  by (simp add: negotiation_failed_def basic)

lemma login_keeps: "P st \<Longrightarrow> P (snd (login_response E now ok r st))"
  unfolding login_response_def login_ethereumstratum2_def login_ethereumstratum_def login_ethproxy_def
    login_stratum_def Let_def
  by (intro compound) (simp_all add: basic negotiation_failed_keeps)

lemma subscribe_keeps: "P st \<Longrightarrow> P (snd (subscribe_response E now r st))"
  unfolding subscribe_response_def Let_def by (intro compound) (simp_all add: basic)

lemma authorize_keeps: "P st \<Longrightarrow> P (snd (authorize_response E now ok r st))"
  unfolding authorize_response_def Let_def by (intro compound) (simp_all add: basic)

lemma solution_keeps: "P st \<Longrightarrow> P (snd (solution_response E now i ok r msg st))"
  unfolding solution_response_def using dequeue [of st now]
  by (cases "dequeue_response_plea now st") (auto intro!: compound simp: basic split: prod.split)

lemma extranonce_keeps: "P st \<Longrightarrow> P (snd (processExtranonce e st))"
  unfolding processExtranonce_def Let_def by (intro compound) (simp_all add: basic)

lemma notify_ethereumstratum_keeps: "P st \<Longrightarrow> P (snd (notify_ethereumstratum E now p st))"
  unfolding notify_ethereumstratum_def Let_def by (intro compound) (simp_all add: basic)

lemma notify_hashes_keeps: "P st \<Longrightarrow> P (snd (notify_hashes now h s t st))"
  unfolding notify_hashes_def by (intro compound) (simp_all add: basic)

lemma notify_stratum_keeps: "P st \<Longrightarrow> P (snd (notify_stratum E now p i st))"
  unfolding notify_stratum_def Let_def
  by (intro compound) (auto simp: basic notify_hashes_keeps split: prod.split)

lemma mining_notify_keeps: "P st \<Longrightarrow> P (snd (mining_notify E now msg st))"
  unfolding mining_notify_def Let_def
  by (intro compound) (simp_all add: basic notify_ethereumstratum_keeps notify_stratum_keeps)

lemma mining_notify2_keeps:
  assumes "P st"
  shows "P (snd (mining_notify2 E now msg st))"
proof (cases "sc_session st")
  case None
  then show ?thesis using assms by (simp add: mining_notify2_def basic)
next
  case (Some s)
  show ?thesis unfolding mining_notify2_def Let_def Some option.case
    by (intro compound) (simp_all add: basic assms)
qed

lemma set_difficulty_keeps: "P st \<Longrightarrow> P (snd (mining_set_difficulty E msg st))"
  unfolding mining_set_difficulty_def Let_def by (intro compound) (simp_all add: basic)

lemma set_extranonce_keeps: "P st \<Longrightarrow> P (snd (mining_set_extranonce E msg st))"
  unfolding mining_set_extranonce_def Let_def by (intro compound) (simp_all add: basic extranonce_keeps)

lemma set_if_keeps: "keeps k \<Longrightarrow> keeps (set_if s f upd k)"
  unfolding set_if_def keeps_def by (auto simp: reading_def session split: option.split)

lemma reading_handler_keeps: "(\<And>v. keeps (k v)) \<Longrightarrow> keeps (reading x k)"
  by (auto intro: reading_keeps)

lemma mining_set_values_keeps: "P st \<Longrightarrow> P (snd (mining_set_values E p st))"
  unfolding mining_set_values_def Let_def
  by (intro reading_handler_keeps set_if_keeps compound) (simp_all add: basic extranonce_keeps)

lemma mining_set_keeps: "P st \<Longrightarrow> P (snd (mining_set E msg st))"
  unfolding mining_set_def Let_def by (intro compound) (simp_all add: basic mining_set_values_keeps)

lemma notification_keeps: "P st \<Longrightarrow> P (snd (notification E now rpc2 i method msg st))"
  unfolding notification_def
  by (intro compound) (simp_all add: basic mining_notify_keeps mining_notify2_keeps set_difficulty_keeps
      set_extranonce_keeps mining_set_keeps)

lemma response_keeps: "P st \<Longrightarrow> P (snd (response E now rpc2 i ok msg st))"
  unfolding response_def response_999_def
  by (intro compound) (simp_all add: basic notification_keeps login_keeps subscribe_keeps authorize_keeps solution_keeps)

lemma processResponse_keeps: "P st \<Longrightarrow> P (snd (processResponse E now msg st))"
  unfolding processResponse_def Let_def
  by (intro compound) (simp_all add: basic notification_keeps response_keeps)

lemma process_line_keeps: "P st \<Longrightarrow> P (snd (process_line E now line st))"
  unfolding process_line_def Let_def
  by (intro compound) (simp_all add: basic processResponse_keeps split: option.split)

end

section \<open>Steps keep the invariant\<close>

lemma emit_fields [simp]:
  "sc_conn (emit e st) = sc_conn st" "sc_session (emit e st) = sc_session st" "sc_pleas_count (emit e st) = sc_pleas_count st"
  "sc_plea_times (emit e st) = sc_plea_times st" "sc_connected (emit e st) = sc_connected st"
  "sc_txPending (emit e st) = sc_txPending st" "sc_txQueue (emit e st) = sc_txQueue st" "sc_open (emit e st) = sc_open st"
  "sc_socket (emit e st) = sc_socket st" "sc_connecting (emit e st) = sc_connecting st"
  "sc_disconnecting (emit e st) = sc_disconnecting st" "sc_message (emit e st) = sc_message st"
  "sc_effects (emit e st) = sc_effects st @ [e]" "sc_newjobprocessed (emit e st) = sc_newjobprocessed st"
  "sc_current (emit e st) = sc_current st" "sc_max_id (emit e st) = sc_max_id st"
  "isConnected (emit e st) = isConnected st" "conn_secure (emit e st) = conn_secure st"
  "sc_endpoints (emit e st) = sc_endpoints st"
  by (simp_all add: emit_def isConnected_def isPendingState_def conn_secure_def)

lemma stratum_inv_cong:
  assumes "sc_conn a = sc_conn b" "sc_session a = None \<longleftrightarrow> sc_session b = None" "sc_pleas_count a = sc_pleas_count b"
    "sc_plea_times a = sc_plea_times b" "sc_connected a = sc_connected b" "sc_txPending a = sc_txPending b"
    "sc_txQueue a = sc_txQueue b"
  shows "stratum_inv k a = stratum_inv k b"
  using assms by (simp add: stratum_inv_def)

lemma stratum_inv_frame [simp]:
  "stratum_inv k (emit e st) = stratum_inv k st"
  "stratum_inv k (set_session f st) = stratum_inv k st"
  "stratum_inv k (set_current g st) = stratum_inv k st"
  "stratum_inv k (job_arrived now st) = stratum_inv k st"
  "stratum_inv k (st\<lparr>sc_authpending := b\<rparr>) = stratum_inv k st"
  "stratum_inv k (st\<lparr>sc_open := b\<rparr>) = stratum_inv k st"
  "stratum_inv k (st\<lparr>sc_sendBuffer := t\<rparr>) = stratum_inv k st"
  "stratum_inv k (st\<lparr>sc_message := t\<rparr>) = stratum_inv k st"
  "stratum_inv k (st\<lparr>sc_newjobprocessed := b\<rparr>) = stratum_inv k st"
  "stratum_inv k (st\<lparr>sc_connecting := b\<rparr>) = stratum_inv k st"
  "stratum_inv k (st\<lparr>sc_disconnecting := b\<rparr>) = stratum_inv k st"
  "stratum_inv k (st\<lparr>sc_endpoints := es\<rparr>) = stratum_inv k st"
  "stratum_inv k (st\<lparr>sc_endpoint := ep\<rparr>) = stratum_inv k st"
  "stratum_inv k (st\<lparr>sc_max_id := n\<rparr>) = stratum_inv k st"
  "stratum_inv k (st\<lparr>sc_socket := b\<rparr>) = stratum_inv k st"
  "stratum_inv k (init_socket st) = stratum_inv k st"
  "stratum_inv k (pop_endpoint st) = stratum_inv k st"
  by (simp_all add: stratum_inv_def set_session_def set_current_def job_arrived_def init_socket_def pop_endpoint_def)

lemma stratum_inv_sendSocketData: "stratum_inv k (st\<lparr>sc_txQueue := q, sc_txPending := True\<rparr>) \<Longrightarrow>
    stratum_inv k (sendSocketData (st\<lparr>sc_txQueue := q, sc_txPending := True\<rparr>))"
  by (auto simp: sendSocketData_def stratum_inv_def emit_def Let_def)

lemma stratum_inv_send_line: "stratum_inv k st \<Longrightarrow> stratum_inv k (send_line l st)"
  unfolding send_line_def Let_def
  by (auto simp: stratum_inv_def intro: stratum_inv_sendSocketData)
     (auto simp: sendSocketData_def emit_def isConnected_def isPendingState_def)

lemma stratum_inv_pleas:
  "stratum_inv k st \<Longrightarrow> stratum_inv k (enqueue_response_plea now st)"
  "stratum_inv k st \<Longrightarrow> stratum_inv k (snd (dequeue_response_plea now st))"
  "stratum_inv k st \<Longrightarrow> stratum_inv k (clear_response_pleas now st)"
  by (auto simp: stratum_inv_def enqueue_response_plea_def dequeue_response_plea_def clear_response_pleas_def Let_def
      split: list.split)

lemma stratum_inv_unrecoverable: "stratum_inv k st \<Longrightarrow> stratum_inv k (set_conn URI_MarkUnrecoverable st)"
  by (auto simp: stratum_inv_def set_conn_def URI_MarkUnrecoverable_def conn_ok_def detection_left_def)

lemma stratum_inv_confirm: "stratum_inv k st \<Longrightarrow> m \<le> 3 \<Longrightarrow> stratum_inv k (confirm_mode now m st)"
  by (simp add: confirm_mode_def startSession_def stratum_inv_def set_conn_def URI_SetStratumMode_def conn_ok_def detection_left_def)

interpretation client_inv: handler_invariant "stratum_inv k" for k
  by unfold_locales
     (simp_all add: stratum_inv_send_line stratum_inv_pleas stratum_inv_unrecoverable stratum_inv_confirm)

lemma process_lines_inv: "stratum_inv k st \<Longrightarrow> stratum_inv k (snd (process_lines E now st))"
proof (induction E now st rule: process_lines.induct)
  case (1 E now st)
  show ?case
  proof (cases "break_line (sc_message st)")
    case None
    then show ?thesis using "1.prems" by (simp add: process_lines.simps [of E now st] returning_def)
  next
    case (Some lr)
    obtain line rest r st' where *: "lr = (line, rest)" "process_line E now line st = (r, st')"
      by (metis surj_pair)
    have "stratum_inv k st'" using client_inv.process_line_keeps [OF "1.prems", of E now line] * by simp
    then show ?thesis
      using "1.IH" [OF Some *(1) [symmetric] *(2) [symmetric]] Some * by (simp add: process_lines.simps [of E now st])
  qed
qed

lemma onRecv_inv:
  assumes "stratum_inv k st"
  shows "stratum_inv k (snd (onRecvSocketDataCompleted E now rx st))"
proof (cases rx)
  case None
  then show ?thesis using assms by (simp add: onRecvSocketDataCompleted_def returning_def stratum_inv_unrecoverable)
next
  case (Some a)
  have "stratum_inv k (snd (process_lines E now (st\<lparr>sc_message := sc_message st @ a, sc_newjobprocessed := False\<rparr>)))"
    using assms by (intro process_lines_inv) simp
  then show ?thesis using Some
    by (auto simp: onRecvSocketDataCompleted_def returning_def Let_def split: prod.split)
qed

lemma stratum_inv_finalize: "stratum_inv k st \<Longrightarrow> \<not> sc_connected st \<Longrightarrow> stratum_inv k (disconnect_finalize now st)"
  by (auto simp: disconnect_finalize_def stratum_inv_def set_conn_def URI_addDuration_def URI_SetStratumMode1_def
      URI_MarkUnrecoverable_def conn_ok_def detection_left_def clear_response_pleas_def Let_def split: option.split)

lemma stratum_inv_disconnect: "stratum_inv k st \<Longrightarrow> stratum_inv k (snd (disconnect now st))"
proof -
  assume "stratum_inv k st"
  then have "stratum_inv k (st\<lparr>sc_disconnecting := True, sc_connected := False\<rparr>)" by (simp add: stratum_inv_def)
  then show ?thesis
    by (auto simp: disconnect_def returning_def Let_def \<open>stratum_inv k st\<close> stratum_inv_pleas intro!: stratum_inv_finalize)
qed

lemma versions_ok: "conn_version st \<le> 3 \<or> conn_version st = 999"
proof (cases "map_of s_schemes (u_scheme (sc_conn st))")
  case None
  then show ?thesis by (simp add: conn_version_def URI_Version_def map_index_def scheme_default_def scheme_def)
next
  case (Some a)
  then have "(u_scheme (sc_conn st), a) \<in> set scheme_list"
    using map_of_SomeD by (fastforce simp: map_of_s_schemes)
  then have "sch_version a \<le> 3 \<or> sch_version a = 999" unfolding scheme_list_def scheme_def by auto
  then show ?thesis using Some by (simp add: conn_version_def URI_Version_def map_index_def)
qed

lemma select_mode_conn: "select_mode st = set_conn (selected (conn_version st)) st"
  by (simp add: select_mode_def selected_def set_conn_def)

lemma stratum_inv_set_conn:
  assumes "stratum_inv k st" "conn_ok (f (sc_conn st))" "detection_left (f (sc_conn st)) \<le> k"
    and "conn_confirmed st \<Longrightarrow> u_stratumModeConfirmed (f (sc_conn st))"
  shows "stratum_inv k (set_conn f st)"
  using assms by (auto simp: stratum_inv_def set_conn_def)

lemma selected_ok:
  assumes "conn_ok u" "detection_left u \<le> k" "v \<le> 3 \<or> v = 999"
  shows "conn_ok (selected v (URI_Responds True u))" "detection_left (selected v (URI_Responds True u)) \<le> k"
    "u_stratumModeConfirmed u \<Longrightarrow> u_stratumModeConfirmed (selected v (URI_Responds True u))"
proof -
  show "conn_ok (selected v (URI_Responds True u))"
    using assms(1,3) by (auto simp: conn_ok_def selected_def URI_SetStratumMode_def URI_Responds_def)
  show "detection_left (selected v (URI_Responds True u)) \<le> k"
    using assms(2) by (auto simp: detection_left_def selected_def URI_SetStratumMode_def URI_Responds_def split: if_splits)
  show "u_stratumModeConfirmed u \<Longrightarrow> u_stratumModeConfirmed (selected v (URI_Responds True u))"
    by (simp add: selected_def URI_SetStratumMode_def URI_Responds_def)
qed

lemma lost_ok: "conn_ok u \<Longrightarrow> conn_ok (URI_MarkUnrecoverable (URI_Responds True u)) \<and>
    detection_left (URI_MarkUnrecoverable (URI_Responds True u)) \<le> k \<and>
    (u_stratumModeConfirmed u \<longrightarrow> u_stratumModeConfirmed (URI_MarkUnrecoverable (URI_Responds True u)))"
  by (simp add: conn_ok_def detection_left_def URI_MarkUnrecoverable_def URI_Responds_def)

lemma stratum_inv_connected:
  assumes inv: "stratum_inv k st"
  shows "stratum_inv k (connect_handler E now ec handshake st)"
proof -
  let ?c = "st\<lparr>sc_connecting := False, sc_connected := True, sc_message := [], sc_txQueue := []\<rparr>"
  have c: "stratum_inv k ?c" using inv by (simp add: stratum_inv_def)
  have u: "conn_ok (sc_conn st)" "detection_left (sc_conn st) \<le> k" using inv by (simp_all add: stratum_inv_def)
  have lost: "stratum_inv k (set_conn (\<lambda>u. URI_MarkUnrecoverable (URI_Responds True u)) ?c)"
    by (rule stratum_inv_set_conn [OF c]) (use lost_ok [OF u(1)] in simp_all)
  let ?t = "(set_conn (URI_Responds True) (st\<lparr>sc_connecting := False\<rparr>))\<lparr>sc_connected := True, sc_message := [], sc_txQueue := []\<rparr>"
  define v where "v = conn_version (clear_response_pleas now (?t\<lparr>sc_sendBuffer := []\<rparr>))"
  have "stratum_inv k (set_conn (\<lambda>u. selected v (URI_Responds True u)) ?c)"
    by (rule stratum_inv_set_conn [OF c]) (use selected_ok [OF u, of v] versions_ok v_def in simp_all)
  then have "stratum_inv k (select_mode (clear_response_pleas now (?t\<lparr>sc_sendBuffer := []\<rparr>)))"
    unfolding select_mode_conn v_def [symmetric]
    by (simp add: stratum_inv_def set_conn_def clear_response_pleas_def)
  moreover have "stratum_inv k (set_conn URI_MarkUnrecoverable ?t)" using lost by (simp add: stratum_inv_def set_conn_def)
  ultimately show ?thesis using inv
    by (simp add: connect_handler_def Let_def send_request_def stratum_inv_send_line stratum_inv_pleas)
qed

lemma stratum_inv_timer: "stratum_inv k st \<Longrightarrow> stratum_inv k (workloop_timer_elapsed E now aborted st)"
  by (auto simp: workloop_timer_elapsed_def keep_session_alive_def check_pending_def check_connected_def Let_def
      send_request_def stratum_inv_send_line stratum_inv_pleas split: option.split)

lemma stratum_inv_start: "stratum_inv k st \<Longrightarrow> \<not> sc_connected st \<Longrightarrow> stratum_inv k (start_connect now st)"
  by (auto simp: start_connect_def init_socket_def stratum_inv_pleas Let_def intro!: stratum_inv_finalize stratum_inv_pleas split: list.split)

lemma stratum_inv_sent: "stratum_inv k st \<Longrightarrow> stratum_inv k (onSendSocketDataCompleted now ec st)"
  by (cases ec) (auto simp: onSendSocketDataCompleted_def sendSocketData_def stratum_inv_def set_session_def Let_def)

lemma stratum_inv_submit:
  "stratum_inv k st \<Longrightarrow> stratum_inv k (snd (submitHashrate E rate hid st))"
  "stratum_inv k st \<Longrightarrow> stratum_inv k (snd (submitSolution E now sol st))"
  by (auto simp: submitHashrate_def submitSolution_def returning_def reading_def with_session_def Let_def send_request_def
      stratum_inv_send_line stratum_inv_pleas split: option.split)

lemma stratum_inv_step: "stratum_step E st st' \<Longrightarrow> stratum_inv k st \<Longrightarrow> stratum_inv k st'"
proof (induction rule: stratum_step.induct)
  case (connect st address st')
  then show ?case by (auto simp: stratum_connect_def returning_def reading_def Let_def init_socket_def split: if_splits option.splits)
next
  case (disconnect now st st')
  then show ?case using stratum_inv_disconnect [of k st now] by simp
next
  case (shutdown st now)
  then show ?case by (simp add: onSSLShutdownCompleted_def stratum_inv_pleas)
next
  case (resolved st now result)
  then show ?case by (auto simp: resolve_handler_def split: option.split intro: stratum_inv_finalize)
next
  case (fake now msg st st')
  then show ?case using client_inv.processResponse_keeps [of k st E now msg] by simp
next
  case (received now rx st st')
  then show ?case using onRecv_inv [of k st E now rx] by simp
next
  case (hashrate rate hid st st')
  then show ?case using stratum_inv_submit(1) [of k st E rate hid] by simp
next
  case (solution now sol st st')
  then show ?case using stratum_inv_submit(2) [of k st E now sol] by simp
qed (simp_all add: stratum_inv_finalize stratum_inv_start stratum_inv_connected stratum_inv_timer stratum_inv_sent)

section \<open>Reachable states and the detection of the protocol\<close>

lemma stratum_inv_new: "fresh_conn u \<Longrightarrow> stratum_inv 4 (stratum_new now u wt rt)"
  by (auto simp: stratum_new_def stratum_inv_def clear_response_pleas_def fresh_conn_def conn_ok_def detection_left_def)

lemma stratum_inv_reach: "(stratum_step E)\<^sup>*\<^sup>* st st' \<Longrightarrow> stratum_inv k st \<Longrightarrow> stratum_inv k st'"
  by (induction rule: rtranclp_induct) (auto intro: stratum_inv_step)

lemma stratum_inv_conn: "stratum_inv k st \<Longrightarrow> conn_ok (sc_conn st) \<and> detection_left (sc_conn st) \<le> k"
  by (simp add: stratum_inv_def)

lemma stratum_inv_potential: "stratum_inv m st \<Longrightarrow> detection_left (sc_conn st) \<le> k \<Longrightarrow> stratum_inv k st"
  by (simp add: stratum_inv_def)

lemma detection_left_0: "detection_left u \<le> 0 \<longleftrightarrow> u_stratumModeConfirmed u \<or> u_unrecoverable u"
  by (simp add: detection_left_def)

lemma detection_left_open:
  "\<not> u_stratumModeConfirmed u \<Longrightarrow> \<not> u_unrecoverable u \<Longrightarrow> u_stratumMode u \<noteq> 999 \<Longrightarrow> detection_left u = Suc (u_stratumMode u)"
  by (simp add: detection_left_def)

lemma lowers_potential:
  assumes "stratum_inv (Suc k) st" "lowers E st st'"
  shows "stratum_inv k st' \<and> 0 < k"
proof -
  have step: "stratum_step E st st'" and c': "\<not> conn_confirmed st'" "\<not> u_unrecoverable (sc_conn st')"
    and mode: "conn_mode st = Suc (conn_mode st')" using assms(2) by (simp_all add: lowers_def)
  have inv: "stratum_inv (Suc k) st'" using stratum_inv_step [OF step assms(1)] .
  have c: "\<not> conn_confirmed st \<and> \<not> u_unrecoverable (sc_conn st)"
  proof (rule ccontr)
    assume "\<not> ?thesis"
    then have "stratum_inv 0 st" using stratum_inv_potential [OF assms(1)] detection_left_0 by blast
    then have "detection_left (sc_conn st') \<le> 0" using stratum_inv_step [OF step] stratum_inv_conn by blast
    then show False using c' detection_left_0 by blast
  qed
  have "conn_mode st' \<noteq> 998" "conn_mode st \<le> 3 \<or> conn_mode st = 999"
    using stratum_inv_conn [OF inv] stratum_inv_conn [OF assms(1)] by (auto simp: conn_ok_def)
  then have m: "conn_mode st \<noteq> 999" "conn_mode st' \<noteq> 999" using mode by auto
  have "Suc (conn_mode st) \<le> Suc k" using stratum_inv_conn [OF assms(1)] detection_left_open c m(1) by metis
  then have "detection_left (sc_conn st') \<le> k" "0 < k" using detection_left_open [OF c' m(2)] mode by simp_all
  then show ?thesis using stratum_inv_potential [OF inv] by simp
qed

lemma rounds_potential:
  "(((stratum_step E)\<^sup>*\<^sup>* OO lowers E) ^^ n) st st' \<Longrightarrow> stratum_inv 4 st \<Longrightarrow> n \<le> 3 \<and> stratum_inv (4 - n) st'"
proof (induction n arbitrary: st')
  case (Suc n)
  then obtain s1 s2 where *: "(((stratum_step E)\<^sup>*\<^sup>* OO lowers E) ^^ n) st s1" "(stratum_step E)\<^sup>*\<^sup>* s1 s2" "lowers E s2 st'"
    by auto
  then have "n \<le> 3" "stratum_inv (4 - n) s2" using Suc stratum_inv_reach by blast+
  moreover obtain k where "4 - n = Suc k" using \<open>n \<le> 3\<close> by (cases "4 - n") auto
  moreover have "4 - Suc n = k" using \<open>4 - n = Suc k\<close> by simp
  ultimately show ?case using lowers_potential [OF _ *(3), of k] by auto
qed simp

lemma finalize_reports:
  assumes "\<not> conn_confirmed st" "u_responds (sc_conn st)" "\<not> u_unrecoverable (sc_conn st)"
  shows "if conn_mode st = 0 then u_unrecoverable (sc_conn (disconnect_finalize now st)) \<and>
             last (sc_effects (disconnect_finalize now st)) = Report Disconnected
         else conn_mode (disconnect_finalize now st) = conn_mode st - 1 \<and>
             last (sc_effects (disconnect_finalize now st)) = PostStartConnect"
  using assms by (auto simp: disconnect_finalize_def set_conn_def URI_addDuration_def URI_SetStratumMode1_def
      URI_MarkUnrecoverable_def clear_response_pleas_def Let_def split: option.split)

text \<open>
  C16: the detection of the protocol terminates: in every run of a client the mode is lowered at most three times, and
  a disconnection of an endpoint that is still undetected either starts the next attempt or, after the last mode, marks
  the endpoint unrecoverable and reports the disconnection.
\<close>
theorem detection_terminates:
  assumes "fresh_conn u" and "(((stratum_step E)\<^sup>*\<^sup>* OO lowers E) ^^ n) (stratum_new now0 u wt rt) st"
  shows "n \<le> 3 \<and>
    (\<not> conn_confirmed st \<and> u_responds (sc_conn st) \<and> \<not> u_unrecoverable (sc_conn st) \<longrightarrow>
      (if conn_mode st = 0 then u_unrecoverable (sc_conn (disconnect_finalize now st)) \<and>
          last (sc_effects (disconnect_finalize now st)) = Report Disconnected
       else conn_mode (disconnect_finalize now st) = conn_mode st - 1 \<and>
          last (sc_effects (disconnect_finalize now st)) = PostStartConnect))"
  using rounds_potential [OF assms(2) stratum_inv_new [OF assms(1)]] finalize_reports [of st now] by blast


section \<open>Examples\<close>

lemma fresh_example: "fresh_conn (example_conn sch)"
  by (simp add: fresh_conn_def example_conn_def URI_init_def)

lemma scheme_lookup:
  "map_of s_schemes ''stratum'' = Some (scheme STRATUM SecNONE 999)"
  "map_of s_schemes ''stratum3+tcp'' = Some (scheme STRATUM SecNONE 3)"
  by (simp_all add: map_of_s_schemes scheme_list_def)

lemma example_version:
  "conn_version st = 999" "\<not> conn_secure st" if "u_scheme (sc_conn st) = ''stratum''"
  using that scheme_lookup by (simp_all add: conn_version_def conn_secure_def URI_Version_def URI_SecLevel_def map_index_def scheme_def)

lemma sendSocketData_fields [simp]:
  "sc_conn (sendSocketData st) = sc_conn st" "sc_session (sendSocketData st) = sc_session st"
  "sc_newjobprocessed (sendSocketData st) = sc_newjobprocessed st" "sc_current (sendSocketData st) = sc_current st"
  "sc_max_id (sendSocketData st) = sc_max_id st" "sc_open (sendSocketData st) = sc_open st"
  "sc_socket (sendSocketData st) = sc_socket st" "sc_disconnecting (sendSocketData st) = sc_disconnecting st"
  by (simp_all add: sendSocketData_def Let_def)

lemma send_fields [simp]:
  "sc_conn (send_request E j st) = sc_conn st" "sc_session (send_request E j st) = sc_session st"
  "sc_newjobprocessed (send_request E j st) = sc_newjobprocessed st" "sc_current (send_request E j st) = sc_current st"
  "sc_max_id (send_request E j st) = sc_max_id st" "sc_open (send_request E j st) = sc_open st"
  "sc_socket (send_request E j st) = sc_socket st" "sc_disconnecting (send_request E j st) = sc_disconnecting st"
  by (simp_all add: send_request_def send_line_def Let_def)

lemma plea_fields [simp]:
  "sc_conn (enqueue_response_plea now st) = sc_conn st" "sc_session (enqueue_response_plea now st) = sc_session st"
  "sc_max_id (enqueue_response_plea now st) = sc_max_id st" "sc_open (enqueue_response_plea now st) = sc_open st"
  "sc_socket (enqueue_response_plea now st) = sc_socket st" "sc_disconnecting (enqueue_response_plea now st) = sc_disconnecting st"
  "sc_conn (clear_response_pleas now st) = sc_conn st" "sc_session (clear_response_pleas now st) = sc_session st"
  "sc_open (clear_response_pleas now st) = sc_open st" "sc_socket (clear_response_pleas now st) = sc_socket st"
  "sc_disconnecting (clear_response_pleas now st) = sc_disconnecting st"
  "sc_conn (snd (dequeue_response_plea now st)) = sc_conn st" "sc_session (snd (dequeue_response_plea now st)) = sc_session st"
  by (auto simp: enqueue_response_plea_def clear_response_pleas_def dequeue_response_plea_def Let_def split: list.split)

lemma resolved_reach: "(stratum_step example_env)\<^sup>*\<^sup>* (new_client_of ''stratum'') resolved_client"
proof -
  let ?s = "snd (stratum_connect (Some ''1.2.3.4'') (new_client_of ''stratum''))"
  have c: "\<not> sc_connected (new_client_of ''stratum'')"
    "stratum_connect (Some ''1.2.3.4'') (new_client_of ''stratum'') = (Returned, ?s)" "\<not> sc_connected ?s"
    by (simp_all add: stratum_connect_def new_client_of_def stratum_new_def clear_response_pleas_def example_conn_def
        init_socket_def returning_def reading_def Let_def)
  from stratum_step.connect [OF c(1,2), of example_env] stratum_step.start_connect [OF c(3), of example_env 0]
  show ?thesis unfolding resolved_client_def by (rule converse_rtranclp_into_rtranclp [OF _ r_into_rtranclp])
qed

lemma resolved_fields:
  "sc_conn resolved_client = example_conn ''stratum''" "sc_open resolved_client" "sc_socket resolved_client"
  "\<not> sc_disconnecting resolved_client" "sc_session resolved_client = None"
  by (simp_all add: resolved_client_def stratum_connect_def start_connect_def new_client_of_def stratum_new_def
      example_conn_def init_socket_def returning_def reading_def clear_response_pleas_def enqueue_response_plea_def Let_def)

lemma detecting_fields:
  "sc_conn detecting_client = URI_SetStratumMode 3 False (URI_Responds True (example_conn ''stratum''))"
  "sc_open detecting_client" "sc_socket detecting_client" "\<not> sc_disconnecting detecting_client"
  using resolved_fields example_version [of "clear_response_pleas 0 (resolved_client\<lparr>sc_connecting := False,
      sc_conn := URI_Responds True (example_conn ''stratum''), sc_connected := True, sc_message := [], sc_txQueue := [], sc_sendBuffer := []\<rparr>)"]
  by (simp_all add: detecting_client_def connect_handler_def select_mode_def set_conn_def example_conn_def URI_Responds_def
      URI_init_def example_version Let_def)

lemma detecting_lowers: "lowers example_env detecting_client (snd (disconnect 0 detecting_client))"
proof -
  let ?c = "emit CloseSocket (emit CancelSocket (detecting_client\<lparr>sc_disconnecting := True, sc_connected := False, sc_open := False\<rparr>))"
  have "u_scheme (sc_conn detecting_client) = ''stratum''"
    by (simp add: detecting_fields URI_SetStratumMode_def URI_Responds_def example_conn_def)
  then have "\<not> conn_secure (detecting_client\<lparr>sc_disconnecting := True, sc_connected := False\<rparr>)"
    by (intro example_version(2)) simp
  then have d: "disconnect 0 detecting_client = (Returned, disconnect_finalize 0 ?c)"
    by (simp add: disconnect_def detecting_fields returning_def Let_def)
  moreover have "conn_mode (disconnect_finalize 0 ?c) = 2 \<and> \<not> conn_confirmed (disconnect_finalize 0 ?c) \<and>
      \<not> u_unrecoverable (sc_conn (disconnect_finalize 0 ?c))"
    by (simp add: disconnect_finalize_def set_conn_def detecting_fields URI_SetStratumMode_def URI_Responds_def
        URI_SetStratumMode1_def URI_addDuration_def example_conn_def URI_init_def Let_def split: option.split)
  ultimately show ?thesis using stratum_step.disconnect [OF d]
    by (auto simp: lowers_def detecting_fields URI_SetStratumMode_def)
qed

lemma detecting_reach: "(stratum_step example_env)\<^sup>*\<^sup>* (new_client_of ''stratum'') detecting_client"
  using resolved_reach stratum_step.connected [of example_env resolved_client 0 False False]
  by (simp add: detecting_client_def)

theorem detection_witness:
  "(1::nat) \<le> 3 \<and> (((stratum_step example_env)\<^sup>*\<^sup>* OO lowers example_env) ^^ 1) (new_client_of ''stratum'') (snd (disconnect 0 detecting_client))"
proof
  show *: "(((stratum_step example_env)\<^sup>*\<^sup>* OO lowers example_env) ^^ 1) (new_client_of ''stratum'') (snd (disconnect 0 detecting_client))"
    using detecting_reach detecting_lowers by (simp add: relcompp.simps) blast
  show "(1::nat) \<le> 3"
    using detection_terminates [OF fresh_example * [unfolded new_client_of_def]] by blast
qed


end
