(* ===== verification/StratumMessages.thy ===== *)
theory StratumMessages
  imports StratumInvariant
begin

text \<open>
  The behaviour of a stratum client on messages: responses to submissions, jobs in a transmission, messages that end
  the program, and the timeout of a connection attempt. Messages are described by what the JSON library reads from
  them; \<open>example_json\<close> is an implementation of the library's operations for the examples.
\<close>

section \<open>Specification\<close>

text \<open>
  A response with a given id, whether it reports success, and a notification with its parameters.
\<close>

definition reply :: "'j json_ops \<Rightarrow> nat \<Rightarrow> 'j \<Rightarrow> bool" where
  "reply J i msg \<longleftrightarrow>
     (\<exists>rpc2. isMember J msg ''jsonrpc'' = Some rpc2 \<and> valid_version J rpc2 msg = Some True) \<and>
     get_uint J msg ''id'' 0 = Some i \<and> i \<noteq> 0 \<and> get_string J msg ''method'' [] = Some [] \<and>
     (\<exists>e. get_value J msg ''error'' = Some e \<and> (\<not> j_empty J e \<longrightarrow> processError J msg \<noteq> None))"

definition reply_ok :: "'j json_ops \<Rightarrow> 'j \<Rightarrow> bool" where
  "reply_ok J msg = (case get_value J msg ''error'' of Some e \<Rightarrow> j_empty J e | None \<Rightarrow> False)"

definition notice :: "'j json_ops \<Rightarrow> string \<Rightarrow> 'j \<Rightarrow> 'j \<Rightarrow> bool" where
  "notice J method p msg \<longleftrightarrow>
     isMember J msg ''jsonrpc'' = Some False \<and> get_uint J msg ''id'' 0 \<noteq> None \<and>
     (\<exists>e. get_value J msg ''error'' = Some e \<and> j_empty J e) \<and> get_string J msg ''method'' [] = Some method \<and> method \<noteq> [] \<and>
     get_value J msg ''params'' = Some p \<and> \<not> j_empty J p \<and> isMember J msg ''params'' = Some True \<and> isMember J msg ''result'' = Some False"

text \<open>
  The parameters of a job, from position \<open>i\<close> on, and the work package of the job. A client that is ready for jobs of
  the plain protocol, and lines of a transmission that carry a message or a job.
\<close>

definition job_params ::
  "'j json_ops \<Rightarrow> nat \<Rightarrow> 'j \<Rightarrow> string \<Rightarrow> u8 list \<Rightarrow> u8 list \<Rightarrow> u8 list \<Rightarrow> nat \<Rightarrow> bool" where
  "job_params J i p job header seed boundary block \<longleftrightarrow>
     j_isArray J p \<and> \<not> j_empty J p \<and> i + 3 < j_size J p \<and> at_string J p 0 [] = Some job \<and>
     (\<exists>h s t b. at_string J p i [] = Some h \<and> h256 h = Some header \<and>
        at_string J p (i + 1) [] = Some s \<and> h256 s = Some seed \<and>
        at_string J p (i + 2) [] = Some t \<and> Option.bind (pad_target t) h256 = Some boundary \<and>
        at_string J p (i + 3) [] = Some b \<and> take 2 b = ''0x'' \<and> stoul b 16 = Some block)"

definition work_of :: "WorkPackage \<Rightarrow> string \<Rightarrow> u8 list \<Rightarrow> u8 list \<Rightarrow> u8 list \<Rightarrow> nat \<Rightarrow> WorkPackage" where
  "work_of w job header seed boundary block =
     w\<lparr>wp_job := job, wp_header := header, wp_seed := seed, wp_boundary := boundary, wp_block := to_int block\<rparr>"

definition listening :: "stratum \<Rightarrow> bool" where
  "listening st \<longleftrightarrow> conn_mode st = mode_STRATUM \<and> conn_confirmed st \<and> isSubscribed (sc_session st)"

definition carries :: "'j stratum_env \<Rightarrow> string \<Rightarrow> 'j \<Rightarrow> bool" where
  "carries E l msg \<longleftrightarrow> list_all (\<lambda>c. c \<noteq> CHR 0x0A) l \<and> l \<noteq> [] \<and> en_trim E l \<noteq> [] \<and> j_parse (en_json E) (en_trim E l) = Some msg"

definition carries_job ::
  "'j stratum_env \<Rightarrow> string \<Rightarrow> string \<Rightarrow> u8 list \<Rightarrow> u8 list \<Rightarrow> u8 list \<Rightarrow> nat \<Rightarrow> bool" where
  "carries_job E l job header seed boundary block \<longleftrightarrow>
     (\<exists>msg p. carries E l msg \<and> notice (en_json E) ''mining.notify'' p msg \<and>
        job_params (en_json E) 1 p job header seed boundary block)"

text \<open>
  A client of the plain protocol that listens, and lines with jobs; messages that come before the login.
\<close>

definition example_hash :: "u8 \<Rightarrow> u8 list" where
  "example_hash b = replicate 32 b"

definition example_job_msg :: "string \<Rightarrow> u8 \<Rightarrow> string \<Rightarrow> jvalue" where
  "example_job_msg job b block =
     JObj [(''method'', JStr ''mining.notify''),
       (''params'', JArr [JStr job, JStr (hash_hex (example_hash b) PrefixAdd), JStr (hash_hex (example_hash 2) PrefixAdd),
          JStr (hash_hex (example_hash 3) PrefixAdd), JStr block])]"

definition job_env :: "jvalue stratum_env" where
  "job_env = example_env\<lparr>en_json := example_json (\<lambda>s.
     if s = ''a'' then Some (example_job_msg ''first'' 7 ''0x10'') else if s = ''b'' then Some (example_job_msg ''second'' 8 ''0x11'')
     else if s = ''c'' then Some (example_job_msg ''late'' 9 ''0x9660181'') else None)\<rparr>"

definition listening_client :: stratum where
  "listening_client =
     (stratum_new 0 (example_conn ''stratum+tcp'') 180 2)\<lparr>sc_conn := (example_conn ''stratum+tcp'')\<lparr>u_stratumMode := 0, u_stratumModeConfirmed := True\<rparr>,
        sc_connected := True, sc_session := Some ((Session_new 0)\<lparr>ss_subscribed := True\<rparr>)\<rparr>"

definition early_reply :: jvalue where
  "early_reply = JObj [(''id'', JUInt 3), (''result'', JBool True)]"

definition early_set :: jvalue where
  "early_set = JObj [(''method'', JStr ''mining.set''), (''params'', JObj [(''epoch'', JStr ''dc'')])]"

section \<open>Responses and notifications\<close>

lemma reading_Some [simp]: "reading (Some v) k = k v"
  by (rule ext) (simp add: reading_def)

lemma reading_None [simp]: "reading None k = Pair ThrewException"
  by (rule ext) (simp add: reading_def)

lemma processResponse_reply:
  assumes "reply (en_json E) i msg"
  obtains rpc2 where "processResponse E now msg st = response E now rpc2 i (reply_ok (en_json E) msg) msg st"
proof -
  from assms obtain rpc2 e where
    "isMember (en_json E) msg ''jsonrpc'' = Some rpc2" "valid_version (en_json E) rpc2 msg = Some True"
    "get_uint (en_json E) msg ''id'' 0 = Some i" "i \<noteq> 0" "get_string (en_json E) msg ''method'' [] = Some []"
    "get_value (en_json E) msg ''error'' = Some e" "j_empty (en_json E) e \<or> processError (en_json E) msg \<noteq> None"
    by (auto simp: reply_def)
  then have "processResponse E now msg st = response E now rpc2 i (reply_ok (en_json E) msg) msg st"
    by (auto simp: processResponse_def pushed_job_def valid_message_def has_content_def reply_ok_def Let_def)
  then show ?thesis by (rule that)
qed

lemma processResponse_notice:
  assumes "notice (en_json E) method p msg"
  obtains i where "processResponse E now msg st = notification E now False i method msg st"
proof -
  from assms obtain i where i: "get_uint (en_json E) msg ''id'' 0 = Some i" by (auto simp: notice_def)
  then have "processResponse E now msg st = notification E now False i method msg st"
    using assms by (auto simp: notice_def processResponse_def pushed_job_def valid_message_def valid_version_def has_content_def)
  then show ?thesis by (rule that)
qed

lemma solution_reply:
  assumes "reply (en_json E) (40 + m) msg" "40 + m \<le> sc_max_id st"
    and "get_value (en_json E) msg ''result'' = Some r"
    and "solution_verdict (en_json E) (conn_mode st) (reply_ok (en_json E) msg) r msg = Some (ok, stale)"
  shows "\<exists>delay. processResponse E now msg st =
    (Returned, emit (Report (if ok then SolutionAccepted delay m stale else SolutionRejected delay m)) (snd (dequeue_response_plea now st)))"
proof -
  obtain rpc2 where *: "processResponse E now msg st = response E now rpc2 (40 + m) (reply_ok (en_json E) msg) msg st"
    using processResponse_reply [OF assms(1)] .
  obtain delay st' where d: "dequeue_response_plea now st = (delay, st')" by fastforce
  then have "conn_mode st' = conn_mode st"
    by (auto simp: dequeue_response_plea_def Let_def split: list.splits if_splits)
  then show ?thesis using assms d unfolding * by (auto simp: response_def solution_response_def returning_def)
qed

text \<open>
  C36: while a connection attempt is pending, the timer closes the socket as long as the timeout has not passed, and then
  is not armed again; once the timeout has passed it does nothing but wait.
\<close>
theorem connect_timeout_inverted:
  assumes "sc_connecting st" "sc_pleas_count st \<noteq> 0" "sc_session st = None"
  shows "workloop_timer_elapsed E now False st =
    (if cdiv (now - sc_plea_older st) 1000 \<le> sc_responsetimeout st * 1000
     then emit CloseSocket (st\<lparr>sc_open := False\<rparr>) else emit TimerWait st)"
  using assms by (simp add: workloop_timer_elapsed_def keep_session_alive_def check_pending_def check_connected_def
      isPendingState_def isConnected_def Let_def)

lemma connected_fixed_mode:
  assumes "sc_open st" "sc_session st = None" "conn_version st \<le> 3"
  shows "sc_session (connect_handler E now False False st) = None"
    "conn_mode (connect_handler E now False False st) = conn_version st"
    "conn_confirmed (connect_handler E now False False st)"
  using assms by (simp_all add: connect_handler_def select_mode_def set_conn_def URI_SetStratumMode_def URI_Responds_def
      conn_version_def URI_Version_def clear_response_pleas_def Let_def)

lemma authorize_without_session:
  assumes "sc_session st = None" "reply (en_json E) 3 msg" "get_value (en_json E) msg ''result'' = Some r"
    and "conn_mode st \<noteq> 3" "j_isBool (en_json E) r \<longrightarrow> j_asBool (en_json E) r \<noteq> None"
  shows "fst (processResponse E now msg st) = NullSession"
proof -
  obtain rpc2 where *: "processResponse E now msg st = response E now rpc2 3 (reply_ok (en_json E) msg) msg st"
    using processResponse_reply [OF assms(2)] .
  show ?thesis using assms unfolding *
    by (auto simp: response_def authorize_response_def stratum_modes result_success_def with_session_def Let_def)
qed

lemma set_without_session:
  assumes "sc_session st = None" "notice (en_json E) ''mining.set'' p msg" "j_isObject (en_json E) p"
    and "conn_confirmed st" "conn_mode st = 3"
  shows "fst (processResponse E now msg st) = NullSession"
proof -
  obtain i where *: "processResponse E now msg st = notification E now False i ''mining.set'' msg st"
    using processResponse_notice [OF assms(2)] .
  show ?thesis using assms unfolding *
    by (simp add: notification_def stratum_modes mining_set_def notice_def with_session_def)
qed

text \<open>
  C32: right after connecting to an endpoint whose scheme fixes the protocol, one message of the pool makes the client use
  a session that does not exist: a response to an authorisation, or, in the second version of EthereumStratum, a
  setting of mining parameters.
\<close>
theorem missing_session_used:
  assumes "sc_open st" "sc_session st = None" "conn_version st \<le> 3"
    and "reply (en_json E) 3 msg" "get_value (en_json E) msg ''result'' = Some r" "j_isBool (en_json E) r \<longrightarrow> j_asBool (en_json E) r \<noteq> None"
    and "notice (en_json E) ''mining.set'' p msg2" "j_isObject (en_json E) p"
  shows "fst (processResponse E now' (if conn_version st = 3 then msg2 else msg) (connect_handler E now False False st)) = NullSession"
  using connected_fixed_mode [OF assms(1-3), of E now] assms(4-8)
  by (simp add: authorize_without_session set_without_session)

lemma notify_job:
  assumes "notice (en_json E) ''mining.notify'' p msg" "job_params (en_json E) 1 p job header seed boundary block"
    and "listening st"
  shows "processResponse E now msg st =
    (if sc_newjobprocessed st then (Returned, st)
     else if max_block < to_int block then (ThrewPointer, set_block (to_int block) (set_block (-1) (set_current (\<lambda>w. w\<lparr>wp_job := job\<rparr>) st)))
     else (Returned, job_arrived now (st\<lparr>sc_current := work_of (sc_current st) job header seed boundary block\<rparr>)))"
proof -
  obtain i where *: "processResponse E now msg st = notification E now False i ''mining.notify'' msg st"
    using processResponse_notice [OF assms(1)] .
  obtain h s t b target where p: "at_string (en_json E) p 1 [] = Some h" "h256 h = Some header"
    "at_string (en_json E) p 2 [] = Some s" "h256 s = Some seed" "at_string (en_json E) p 3 [] = Some t"
    "pad_target t = Some target" "h256 target = Some boundary"
    "at_string (en_json E) p 4 [] = Some b" "take 2 b = ''0x''" "stoul b 16 = Some block"
    "j_isArray (en_json E) p" "\<not> j_empty (en_json E) p" "4 < j_size (en_json E) p" "at_string (en_json E) p 0 [] = Some job"
    using assms(2) by (auto simp: job_params_def numeral_eq_Suc bind_eq_Some_conv)
  have n: "processResponse E now msg st = (if sc_newjobprocessed st then (Returned, st) else
      notify_stratum E now p 1 (set_current (\<lambda>w. w\<lparr>wp_job := job\<rparr>) st))"
    using assms(1,3) p unfolding *
    by (auto simp: notification_def mining_notify_def stratum_modes listening_def notice_def returning_def set_current_def Let_def)
  have q: "at_string (en_json E) p (1 + 1) [] = Some s" "at_string (en_json E) p (1 + 2) [] = Some t"
    "at_string (en_json E) p (1 + 3) [] = Some b" "1 + 3 < j_size (en_json E) p"
    using p by (simp_all add: numeral_eq_Suc)
  show ?thesis unfolding n using p(1,2,4,6,7,9,10) q
    by (auto simp: notify_stratum_def notify_hashes_def job_block_def returning_def set_block_def set_current_def
        job_arrived_def work_of_def)
qed

section \<open>Transmissions\<close>

lemma process_lines_line:
  assumes "list_all (\<lambda>c. c \<noteq> CHR 0x0A) l" "sc_message st = l @ nl @ rest" "process_line E now l st = (r, st')"
  shows "process_lines E now st = (if caught r then process_lines E now (st'\<lparr>sc_message := rest\<rparr>) else (r, st'))"
  using assms by (simp add: process_lines.simps [of E now st] break_line_nl)

lemma process_lines_end: "sc_message st = [] \<Longrightarrow> process_lines E now st = (Returned, st)"
  by (simp add: process_lines.simps [of E now st] break_line_empty returning_def)

lemma process_line_job:
  assumes "carries_job E l job header seed boundary block" "listening st"
  shows "process_line E now l st =
    (if sc_newjobprocessed st then (Returned, st)
     else if max_block < to_int block then (ThrewPointer, set_block (to_int block) (set_block (-1) (set_current (\<lambda>w. w\<lparr>wp_job := job\<rparr>) st)))
     else (Returned, job_arrived now (st\<lparr>sc_current := work_of (sc_current st) job header seed boundary block\<rparr>)))"
proof -
  obtain msg p where *: "carries E l msg" "notice (en_json E) ''mining.notify'' p msg"
    "job_params (en_json E) 1 p job header seed boundary block" using assms(1) by (auto simp: carries_job_def)
  then have "process_line E now l st = processResponse E now msg st" by (simp add: process_line_def carries_def Let_def)
  then show ?thesis using notify_job [OF *(2,3) assms(2)] by simp
qed

lemma listening_cong: "sc_conn a = sc_conn b \<Longrightarrow> sc_session a = sc_session b \<Longrightarrow> listening a = listening b"
  by (simp add: listening_def)


text \<open>
  C37: a job whose block number is above the limit throws a pointer, which no handler catches.
\<close>
theorem late_block_uncaught:
  assumes "listening st" and "carries_job E l job header seed boundary block" "max_block < to_int block"
  shows "fst (onRecvSocketDataCompleted E now (Some (l @ nl)) (st\<lparr>sc_message := []\<rparr>)) = ThrewPointer"
proof -
  let ?s = "st\<lparr>sc_message := l @ nl @ [], sc_newjobprocessed := False\<rparr>"
  have n: "list_all (\<lambda>c. c \<noteq> CHR 0x0A) l" using assms by (auto simp: carries_job_def carries_def)
  have "listening ?s" using assms(1) by (simp add: listening_def)
  then have p: "process_line E now l ?s = (ThrewPointer, set_block (to_int block) (set_block (-1) (set_current (\<lambda>w. w\<lparr>wp_job := job\<rparr>) ?s)))"
    using process_line_job [OF assms(2), of ?s now] assms(3) by simp
  then show ?thesis using process_lines_line [OF n _ p, of "[]"]
    by (simp add: onRecvSocketDataCompleted_def caught_def)
qed

section \<open>Examples\<close>

lemma length_hex_of_bytes: "length (hex_of_bytes bs) = 2 * length bs"
  by (induction bs) (simp_all add: hex_of_bytes_def)

lemma length_hash_hex: "length h = 32 \<Longrightarrow> length (hash_hex h PrefixAdd) = 66"
  by (simp add: hash_hex_def toHex_eq add_prefix_def length_hex_of_bytes)

lemma blocks: "stoul ''0x10'' 16 = Some 16" "stoul ''0x11'' 16 = Some 17" "stoul ''0x9660181'' 16 = Some 0x9660181"
  by (simp_all add: stoul_def parse_number_def hex_prefixed_def is_base_digit_def digit_val_def digits_value_def is_space_def
      unsigned_long_def Let_def)

lemma carries_examples:
  "carries_job job_env ''a'' ''first'' (example_hash 7) (example_hash 2) (example_hash 3) 16"
  "carries_job job_env ''b'' ''second'' (example_hash 8) (example_hash 2) (example_hash 3) 17"
  "carries_job job_env ''c'' ''late'' (example_hash 9) (example_hash 2) (example_hash 3) 0x9660181"
  using length_hash_hex [of "example_hash 3"]
  by (auto simp: carries_job_def carries_def notice_def job_params_def job_env_def example_env_def example_json_def
      example_job_msg_def isMember_def get_uint_def get_value_def get_string_def at_string_def h256_hash_hex example_hash_def
      pad_target_def blocks)

lemma listening_example: "listening listening_client" "isConnected listening_client" "sc_message listening_client = []"
  by (simp_all add: listening_client_def listening_def stratum_new_def clear_response_pleas_def stratum_modes isSubscribed_def
      isConnected_def isPendingState_def)


theorem late_block_witness:
  "fst (onRecvSocketDataCompleted job_env 5 (Some (''c'' @ nl)) (listening_client\<lparr>sc_message := []\<rparr>)) = ThrewPointer"
  by (rule late_block_uncaught [OF listening_example(1) carries_examples(3)]) (simp add: to_int_def max_block_def)

lemma early_messages:
  "reply (en_json example_env) 3 early_reply" "get_value (en_json example_env) early_reply ''result'' = Some (JBool True)"
  "notice (en_json example_env) ''mining.set'' (JObj [(''epoch'', JStr ''dc'')]) early_set"
  by (auto simp: reply_def notice_def early_reply_def early_set_def example_env_def example_json_def isMember_def get_uint_def
      get_value_def get_string_def valid_version_def)

theorem missing_session_witness:
  "fst (processResponse example_env 1 early_set
     (connect_handler example_env 0 False False ((new_client_of ''stratum3+tcp'')\<lparr>sc_open := True\<rparr>))) = NullSession"
proof -
  let ?st = "(new_client_of ''stratum3+tcp'')\<lparr>sc_open := True\<rparr>"
  have v: "conn_version ?st = 3"
    using scheme_lookup(2) by (simp add: conn_version_def new_client_of_def stratum_new_def example_conn_def
        clear_response_pleas_def URI_Version_def map_index_def scheme_def)
  have "sc_session ?st = None" by (simp add: new_client_of_def stratum_new_def)
  from missing_session_used [OF _ this _ early_messages(1,2) _ early_messages(3), of 1 0] v
  show ?thesis by (simp add: example_env_def example_json_def)
qed

theorem connect_timeout_witness:
  "workloop_timer_elapsed example_env 1000000 False ((new_client_of ''stratum'')\<lparr>sc_connecting := True, sc_pleas_count := 1\<rparr>) =
     emit CloseSocket ((new_client_of ''stratum'')\<lparr>sc_connecting := True, sc_pleas_count := 1, sc_open := False\<rparr>)"
  using connect_timeout_inverted [of "(new_client_of ''stratum'')\<lparr>sc_connecting := True, sc_pleas_count := 1\<rparr>" example_env 1000000]
  by (simp add: new_client_of_def stratum_new_def clear_response_pleas_def cdiv_def)

end
