(* ===== verification/Api.thy ===== *)
theory Api
  imports PoolManager Json
begin

text \<open>
  The programming interface, \<open>src/libapicore/ApiServer.h\<close> and \<open>ApiServer.cpp\<close>: the server and its connections, the
  requests of the JSON protocol with authentication and write access, the figures they report, and the page served
  for HTTP requests. A connection works on the pool manager and, through it, on the farm. The JSON library, the build
  and the host are parameters. What a function can end with is a value of \<open>attempt\<close>.
\<close>

section \<open>Responses\<close>

text \<open>Assignment to a member of a member.\<close>

definition jset2 :: "string \<Rightarrow> string \<Rightarrow> jvalue \<Rightarrow> jvalue \<Rightarrow> jvalue" where
  "jset2 k1 k2 v j = jset k1 (jset k2 v (case jmember k1 j of Some x \<Rightarrow> x | None \<Rightarrow> JNull)) j"

definition api_error :: "int \<Rightarrow> string \<Rightarrow> jvalue \<Rightarrow> jvalue" where
  "api_error code message jResponse =
     jset2 ''error'' ''message'' (JStr message) (jset2 ''error'' ''code'' (JInt code) jResponse)"

definition quote :: "string \<Rightarrow> string" where
  "quote s = [CHR 0x27] @ s @ [CHR 0x27]"

text \<open>
  \<open>getRequestValue\<close>, for the types with a test \<open>ok\<close>: whether it succeeds, the value when it was there, and the
  response.
\<close>

definition getRequestValue ::
  "'j json_ops \<Rightarrow> ('j \<Rightarrow> bool) \<Rightarrow> ('j \<Rightarrow> 'a option) \<Rightarrow> string \<Rightarrow> 'j \<Rightarrow> bool \<Rightarrow> jvalue \<Rightarrow> (bool \<times> 'a option \<times> jvalue) attempt" where
  "getRequestValue J ok read membername jRequest optional jResponse =
     and_then (or_threw (isMember J jRequest membername)) (\<lambda>m.
       if \<not> m then
         Ok (optional, None, if optional then jResponse else api_error (-32602) (''Missing '' @ quote membername) jResponse)
       else and_then (or_threw (get_value J jRequest membername)) (\<lambda>v.
         if \<not> ok v then Ok (False, None, api_error (-32602) (''Invalid type of value '' @ quote membername) jResponse)
         else if j_empty J v then Ok (False, None, api_error (-32602) (''Empty '' @ quote membername) jResponse)
         else and_then (or_threw (read v)) (\<lambda>x. Ok (True, Some x, jResponse))))"

text \<open>The overload for 64-bit numbers, which sets the error code in the request instead of the response.\<close>

definition getRequestValue_u64 ::
  "'j json_ops \<Rightarrow> string \<Rightarrow> 'j \<Rightarrow> bool \<Rightarrow> jvalue \<Rightarrow> (bool \<times> nat option \<times> jvalue) attempt" where
  "getRequestValue_u64 J membername jRequest optional jResponse =
     and_then (or_threw (isMember J jRequest membername)) (\<lambda>m.
       if \<not> m then
         Ok (optional, None, if optional then jResponse else api_error (-32602) (''Missing '' @ quote membername) jResponse)
       else and_then (or_threw (get_value J jRequest membername)) (\<lambda>v.
         if j_empty J v then Ok (False, None, api_error (-32602) (''Empty '' @ quote membername) jResponse)
         else case j_asUInt64 J v of
                Some x \<Rightarrow> Ok (True, Some x, jResponse)
              | None \<Rightarrow> Ok (False, None, jset2 ''error'' ''message'' (JStr (''Bad value in '' @ quote membername)) jResponse)))"

definition checkApiWriteAccess :: "bool \<Rightarrow> jvalue \<Rightarrow> bool \<times> jvalue" where
  "checkApiWriteAccess is_read_only jResponse =
     (\<not> is_read_only, if is_read_only then api_error (-32601) ''Method not available'' jResponse else jResponse)"

definition parseRequestId :: "'j json_ops \<Rightarrow> 'j \<Rightarrow> jvalue \<Rightarrow> (bool \<times> jvalue) attempt" where
  "parseRequestId J jRequest jResponse =
     and_then (or_threw (isMember J jRequest ''id'')) (\<lambda>m.
     and_then (or_threw (get_value J jRequest ''id'')) (\<lambda>v.
       if \<not> m \<or> j_empty J v
       then Ok (False, api_error (-32600) ''Invalid Request (missing or empty id)'' (jset ''id'' JNull jResponse))
       else if j_isUInt J v then and_then (or_threw (j_asUInt J v)) (\<lambda>n. Ok (True, jset ''id'' (JUInt n) jResponse))
       else if j_isString J v then and_then (or_threw (j_asString J v)) (\<lambda>s. Ok (True, jset ''id'' (JStr s) jResponse))
       else Ok (False, api_error (-32600) ''Invalid Request (id has invalid type)'' (jset ''id'' JNull jResponse))))"

section \<open>State\<close>

record 'j api_env =
  ap_json :: "'j json_ops"
  ap_trim :: "string \<Rightarrow> string"
  ap_what :: string
  ap_real :: "real \<Rightarrow> string"
  ap_project :: string
  ap_hostname :: "string option"
  ap_boost :: boost_ops
  ap_iequals :: "string \<Rightarrow> string \<Rightarrow> bool"
  ap_reboot :: bool
  ap_dev_build :: bool

text \<open>
  A connection, with the pool manager, the verbosity, and the number of restarts and reboots it has asked for.
  \<open>as_sent\<close> has the texts sent and whether the connection is closed after them, \<open>as_reads\<close> counts the reads started.
\<close>

record api_state =
  as_readonly :: bool
  as_password :: string
  as_authenticated :: bool
  as_message :: string
  as_open :: bool
  as_sent :: "(string \<times> bool) list"
  as_reads :: nat
  as_pool :: pool_manager
  as_verbosity :: nat
  as_restarts :: nat
  as_reboots :: nat

definition ApiConnection_new :: "bool \<Rightarrow> string \<Rightarrow> pool_manager \<Rightarrow> nat \<Rightarrow> api_state" where
  "ApiConnection_new readonly password pm verbosity =
     \<lparr>as_readonly = readonly, as_password = password, as_authenticated = (password = []), as_message = [], as_open = True,
      as_sent = [], as_reads = 0, as_pool = pm, as_verbosity = verbosity, as_restarts = 0, as_reboots = 0\<rparr>"

definition recvSocketData :: "api_state \<Rightarrow> api_state" where
  "recvSocketData st = st\<lparr>as_reads := as_reads st + 1\<rparr>"

text \<open>
  Cancelling the operations of a socket that is closed throws, and nothing catches the exception: the first component is
  whether the program goes on. Removing the connection from the server is \<open>session_disconnected\<close> below.
\<close>

definition api_disconnect :: "api_state \<Rightarrow> bool \<times> api_state" where
  "api_disconnect st = (as_open st, st\<lparr>as_open := False\<rparr>)"

definition api_farm :: "api_state \<Rightarrow> farm" where
  "api_farm st = pm_farm (as_pool st)"

definition set_farm :: "(farm \<Rightarrow> farm) \<Rightarrow> api_state \<Rightarrow> api_state" where
  "set_farm f st = st\<lparr>as_pool := (as_pool st)\<lparr>pm_farm := f (pm_farm (as_pool st))\<rparr>\<rparr>"

definition set_pool :: "pool_manager \<Rightarrow> api_state \<Rightarrow> api_state" where
  "set_pool pm st = st\<lparr>as_pool := pm\<rparr>"

section \<open>Figures\<close>

definition int_text :: "int \<Rightarrow> string" where
  "int_text z = (if z < 0 then ''-'' else []) @ to_string (nat (abs z))"

definition getHashesToTarget :: "nat \<Rightarrow> real option" where
  "getHashesToTarget target =
     (if target = 0 then None
      else Some (real (0xffff000000000000000000000000000000000000000000000000000000000000 div target)))"

definition getCurrentDifficulty :: "pool_manager \<Rightarrow> real option" where
  "getCurrentDifficulty pm =
     (if \<not> WorkPackage_bool (pm_currentWp pm) then Some 0 else getHashesToTarget (hash_arith (wp_boundary (pm_currentWp pm))))"

definition active_uri :: "pool_manager \<Rightarrow> URI attempt" where
  "active_uri pm = (case getActiveConnection pm of Some r \<Rightarrow> Ok (pm_uris pm ! r) | None \<Rightarrow> Crashed)"

text \<open>Entries separated by semicolons.\<close>

definition separated :: "string list \<Rightarrow> string" where
  "separated xs = concat (map (\<lambda>(i, x). x @ (if i + 1 < length xs then '';'' else [])) (enumerate 0 xs))"

definition getMinerStat1 :: "'j api_env \<Rightarrow> int \<Rightarrow> pool_manager \<Rightarrow> jvalue attempt" where
  "getMinerStat1 E now pm =
     (let t = f_telemetry (pm_farm pm);
          runningTime = cdiv (now - te_start t) 60000000;
          sol = ta_solutions (te_farm t)
      in and_then (active_uri pm) (\<lambda>connection. Ok (JArr (map JStr
           [ap_project E, int_text runningTime,
            format_fixed 0 (ta_hashrate (te_farm t) / 1000) @ '';'' @ to_string (unat (sa_accepted sol)) @ '';'' @
              to_string (unat (sa_rejected sol)),
            separated (map (\<lambda>a. format_fixed 0 (ta_hashrate a / 1000)) (te_miners t)),
            ''0;0;0'',
            separated (map (\<lambda>a. ''off'') (te_miners t)),
            separated (map (\<lambda>a. int_text (hs_tempC (ta_sensors a)) @ '';'' @ int_text (hs_fanP (ta_sensors a))) (te_miners t)),
            u_host connection @ '':'' @ to_string (unat (u_port connection)),
            to_string (unat (sa_failed sol)) @ '';0'' @ '';0;0'']))))"

definition seconds_since :: "int \<Rightarrow> int \<Rightarrow> nat" where
  "seconds_since now tstamp = unat (of_int (cdiv (now - tstamp) 1000000) :: u64)"

text \<open>The conversion to 32 bits is that of a rate below \<open>2^32\<close>.\<close>

definition hashrate_hex :: "real \<Rightarrow> string" where
  "hashrate_hex r = toHex_u32 (of_int \<lfloor>r\<rfloor>) PrefixAdd 8"

definition nonce_segment :: "farm \<Rightarrow> nat \<Rightarrow> jvalue" where
  "nonce_segment f i =
     (let w = f_nonce_segment_with f;
          start = f_nonce_scrambler f + push_bit w (of_nat i)
      in JArr [JStr (toHex_u64 start PrefixAdd 16), JStr (toHex_u64 (start + push_bit w 1) PrefixAdd 16)])"

definition jobject :: "(string \<times> jvalue) list \<Rightarrow> jvalue" where
  "jobject kvs = fold (\<lambda>(k, v). jset k v) kvs JNull"

definition getMinerStatDetailPerMiner :: "'j api_env \<Rightarrow> int \<Rightarrow> farm \<Rightarrow> miner \<Rightarrow> jvalue attempt" where
  "getMinerStatDetailPerMiner E now f m =
     (let d = mi_descriptor m; i = mi_index m
      in and_then (or_crashed (getFormattedMemory (real (dd_totalMemory d)) SuffixAdd 2)) (\<lambda>mem.
         if length (te_miners (f_telemetry f)) \<le> i then Threw
         else
           let a = te_miners (f_telemetry f) ! i;
               s = ta_sensors a;
               hwinfo = jobject
                 [(''pci'', JStr (dd_uniqueId d)),
                  (''type'', JStr (if dd_type d = DeviceGpu then ''GPU'' else if dd_type d = DeviceAccelerator then ''ACCELERATOR'' else ''CPU'')),
                  (''name'', JStr ((if dd_clDetected d then dd_clName d else dd_cuName d) @ '' '' @ mem)),
                  (''sensors'', JArr [JInt (hs_tempC s), JInt (hs_fanP s), JReal (hs_powerW s)])];
               mininginfo = jobject
                 [(''shares'', JArr [JUInt (unat (sa_accepted (ta_solutions a))), JUInt (unat (sa_rejected (ta_solutions a))),
                    JUInt (unat (sa_failed (ta_solutions a))), JUInt (seconds_since now (sa_tstamp (ta_solutions a)))]),
                  (''paused'', JBool (miner_paused m)),
                  (''pause_reason'', if miner_paused m then JStr (miner_pausedString m) else JNull),
                  (''segment'', nonce_segment f i),
                  (''hashrate'', JStr (hashrate_hex (ta_hashrate a)))]
           in Ok (jobject
                [(''_index'', JUInt i),
                 (''_mode'', JStr (if dd_subscriptionType d = SubscriptionCuda then ''CUDA'' else ''OpenCL'')),
                 (''hardware'', hwinfo), (''mining'', mininginfo)])))"

definition getMinerStatDetail :: "'j api_env \<Rightarrow> int \<Rightarrow> pool_manager \<Rightarrow> jvalue attempt" where
  "getMinerStatDetail E now pm =
     (let f = pm_farm pm; t = f_telemetry f; sol = ta_solutions (te_farm t);
          hostinfo = jobject
            [(''version'', JStr (ap_project E)), (''runtime'', JUInt (seconds_since now (te_start t))),
             (''name'', case ap_hostname E of Some n \<Rightarrow> JStr n | None \<Rightarrow> JNull)];
          monitorinfo = (if fs_tempStop (f_settings f) \<noteq> 0
            then jobject [(''temperatures'', JArr [JUInt (fs_tempStart (f_settings f)), JUInt (fs_tempStop (f_settings f))])] else JNull)
      in and_then (active_uri pm) (\<lambda>connection.
         and_then (case pm_client pm of None \<Rightarrow> Crashed | Some c \<Rightarrow> Ok (pc_isConnected c)) (\<lambda>isConn.
         and_then (or_threw (getCurrentDifficulty pm)) (\<lambda>difficulty.
         and_then (all_attempts (map (getMinerStatDetailPerMiner E now f) (f_miners f))) (\<lambda>devices.
           Ok (jobject
             [(''devices'', JArr devices), (''monitors'', monitorinfo),
              (''connection'', jobject [(''uri'', JStr (u_uri connection)), (''connected'', JBool isConn),
                 (''switches'', JUInt (unat (pm_connectionSwitches pm)))]),
              (''host'', hostinfo),
              (''mining'', jobject
                 [(''hashrate'', JStr (hashrate_hex (ta_hashrate (te_farm t)))), (''epoch'', JInt (getCurrentEpoch pm)),
                  (''epoch_changes'', JUInt (unat (pm_epochChanges pm))), (''difficulty'', JReal difficulty),
                  (''shares'', JArr [JUInt (unat (sa_accepted sol)), JUInt (unat (sa_rejected sol)), JUInt (unat (sa_failed sol)),
                     JUInt (seconds_since now (sa_tstamp sol))])])]))))))"

section \<open>The page\<close>

text \<open>Members and elements of a value the program has built, and the text \<open>asString\<close> gives for it.\<close>

definition jat :: "string \<Rightarrow> jvalue \<Rightarrow> jvalue" where
  "jat k j = (case jmember k j of Some v \<Rightarrow> v | None \<Rightarrow> JNull)"

fun jnth :: "nat \<Rightarrow> jvalue \<Rightarrow> jvalue" where
  "jnth i (JArr vs) = (if i < length vs then vs ! i else JNull)"
| "jnth i _ = JNull"

fun jlist :: "jvalue \<Rightarrow> jvalue list" where
  "jlist (JArr vs) = vs"
| "jlist _ = []"

fun jtext :: "'j api_env \<Rightarrow> jvalue \<Rightarrow> string" where
  "jtext E (JStr s) = s"
| "jtext E (JUInt n) = to_string n"
| "jtext E (JInt z) = int_text z"
| "jtext E (JReal r) = ap_real E r"
| "jtext E (JBool b) = (if b then ''true'' else ''false'')"
| "jtext E _ = []"

fun jnat :: "jvalue \<Rightarrow> nat" where
  "jnat (JUInt n) = n"
| "jnat _ = 0"

fun jreal :: "jvalue \<Rightarrow> real" where
  "jreal (JReal r) = r"
| "jreal _ = 0"

definition jtrue :: "jvalue \<Rightarrow> bool" where
  "jtrue j \<longleftrightarrow> j = JBool True"

definition page_style :: string where
  "page_style =
     ''<style>'' @
     ''body{font-family:-apple-system,BlinkMacSystemFont,\"Segoe UI\",Roboto,'' @
     ''\"Helvetica Neue\",Helvetica,Arial,sans-serif;font-size:16px;line-height:1.5;'' @
     ''text-align:center;}'' @
     ''table,td,th{border:1px inset #000;}'' @
     ''table{border-spacing:0;}'' @
     ''td,th{padding:3px;}'' @
     ''tbody tr:nth-child(even){background-color:'' @ ''#f8f8f8'' @ '';}'' @
     ''tbody tr:nth-child(odd){background-color:'' @ ''#ffffff'' @ '';}'' @
     ''.mx-auto{margin-left:auto;margin-right:auto;}'' @
     ''.bg-header1{background-color:'' @ ''#f0f0f0'' @ '';}'' @
     ''.bg-header0{background-color:'' @ ''#e8e8e8'' @ '';}'' @
     ''.bg-red{color:'' @ ''#f46542'' @ '';}'' @
     ''.right{text-align: right;}'' @
     ''</style>''"

definition page_columns :: string where
  "page_columns =
     ''<tr class=bg-header0>'' @ ''<th>PCI</th>'' @ ''<th>Device</th>'' @ ''<th>Mode</th>'' @ ''<th>Paused</th>'' @
     ''<th class=right>Hash Rate</th>'' @ ''<th class=right>Solutions</th>'' @ ''<th class=right>Temp.</th>'' @
     ''<th class=right>Fan %</th>'' @ ''<th class=right>Power</th>'' @ ''</tr>''"

text \<open>Hours and minutes of a run time; the width set for the hours is at most the number of their digits.\<close>

definition page_time :: "nat \<Rightarrow> string" where
  "page_time durationSeconds =
     (let hours = durationSeconds div 3600; minutes = (durationSeconds - hours * 3600) div 60
      in to_string hours @ '':'' @ setw_fill 2 (to_string minutes))"

definition page_header :: "'j api_env \<Rightarrow> jvalue \<Rightarrow> string" where
  "page_header E jStat =
     ''<!doctype html>'' @ ''<html lang=en>'' @ ''<head>'' @ ''<meta charset=utf-8>'' @
     ''<meta http-equiv=\"refresh\" content=\"30\">'' @
     ''<title>'' @ jtext E (jat ''name'' (jat ''host'' jStat)) @ ''</title>'' @
     page_style @ ''<meta http-equiv=refresh content=30>'' @ ''</head>'' @ ''<body>'' @ ''<table class=mx-auto>'' @
     ''<thead>'' @ ''<tr class=bg-header1>'' @
     ''<th colspan=9>'' @ jtext E (jat ''version'' (jat ''host'' jStat)) @ '' - '' @
     page_time (jnat (jat ''runtime'' (jat ''host'' jStat))) @
     ''<br>Pool: '' @ jtext E (jat ''uri'' (jat ''connection'' jStat)) @ ''</th>'' @ ''</tr>'' @
     page_columns @ ''</thead><tbody>''"

definition device_hashrate :: "'j api_env \<Rightarrow> jvalue \<Rightarrow> nat option" where
  "device_hashrate E device = stoul (jtext E (jat ''hashrate'' (jat ''mining'' device))) 16"

definition page_row :: "'j api_env \<Rightarrow> jvalue \<Rightarrow> string attempt" where
  "page_row E device =
     (let mining = jat ''mining'' device; hardware = jat ''hardware'' device; sensors = jat ''sensors'' hardware;
          cell = (\<lambda>s. ''<td class=right>'' @ s @ ''</td>'')
      in and_then (or_threw (device_hashrate E device)) (\<lambda>hashrate.
         and_then (or_crashed (getFormattedHashes (real hashrate) SuffixAdd 2)) (\<lambda>hashes.
           Ok (''<tr'' @ (if jtrue (jat ''paused'' mining) then '' class=\"bg-red\"'' else []) @ ''>'' @
             ''<td>'' @ jtext E (jat ''pci'' hardware) @ ''</td>'' @
             ''<td>'' @ jtext E (jat ''name'' hardware) @ ''</td>'' @
             ''<td>'' @ jtext E (jat ''_mode'' device) @ ''</td>'' @
             ''<td>'' @ (if jtrue (jat ''paused'' mining) then jtext E (jat ''pause_reason'' mining) else ''No'') @ ''</td>'' @
             cell hashes @ cell (jtext E (jnth 0 (jat ''shares'' mining))) @
             cell (jtext E (jnth 0 sensors)) @ cell (jtext E (jnth 1 sensors)) @ cell (jtext E (jnth 2 sensors)) @ ''</tr>''))))"

definition page_total :: "'j api_env \<Rightarrow> jvalue list \<Rightarrow> string attempt" where
  "page_total E devices =
     (let total_hashrate = sum_list (map (\<lambda>d. case device_hashrate E d of Some h \<Rightarrow> real h | None \<Rightarrow> 0) devices);
          total_power = sum_list (map (\<lambda>d. jreal (jnth 2 (jat ''sensors'' (jat ''hardware'' d)))) devices);
          total_solutions = sum_list (map (\<lambda>d. of_nat (jnat (jnth 0 (jat ''shares'' (jat ''mining'' d))))) devices) :: u32
      in and_then (or_crashed (getFormattedHashes total_hashrate SuffixAdd 2)) (\<lambda>hashes.
           Ok (''<tfoot><tr class=bg-header0><td colspan=4 class=right>Total</td><td class=right>'' @ hashes @
             ''</td><td class=right>'' @ to_string (unat total_solutions) @ ''</td><td colspan=3 class=right>'' @
             format_fixed 2 total_power @ ''</td></tfoot>'')))"

definition getHttpMinerStatDetail :: "'j api_env \<Rightarrow> int \<Rightarrow> pool_manager \<Rightarrow> string attempt" where
  "getHttpMinerStatDetail E now pm =
     and_then (getMinerStatDetail E now pm) (\<lambda>jStat.
     and_then (all_attempts (map (page_row E) (jlist (jat ''devices'' jStat)))) (\<lambda>rows.
     and_then (page_total E (jlist (jat ''devices'' jStat))) (\<lambda>total.
       Ok (page_header E jStat @ concat rows @ ''</tbody>'' @ total @ ''</table></body></html>''))))"

section \<open>Requests\<close>

type_synonym api_handler = "api_state \<Rightarrow> jvalue attempt \<times> api_state"

definition asking :: "(bool \<times> 'a option \<times> jvalue) attempt \<Rightarrow> ('a \<Rightarrow> api_handler) \<Rightarrow> api_handler" where
  "asking r k st =
     (case r of
        Ok (True, Some x, _) \<Rightarrow> k x st
      | Ok (_, _, jResponse) \<Rightarrow> (Ok jResponse, st)
      | Threw \<Rightarrow> (Threw, st)
      | Crashed \<Rightarrow> (Crashed, st))"

definition writing :: "jvalue \<Rightarrow> api_handler \<Rightarrow> api_handler" where
  "writing jResponse k st =
     (case checkApiWriteAccess (as_readonly st) jResponse of (ok, jResponse) \<Rightarrow> if ok then k st else (Ok jResponse, st))"

definition get_object where
  "get_object J = getRequestValue J (j_isObject J) Some"

definition get_text where
  "get_text J = getRequestValue J (j_isString J) (j_asString J)"

definition get_unsigned where
  "get_unsigned J = getRequestValue J (j_isUInt J) (j_asUInt J)"

definition get_boolean where
  "get_boolean J = getRequestValue J (j_isBool J) (j_asBool J)"

text \<open>\<open>jResponse["result"] = \<dots>\<close>.\<close>

definition result :: "jvalue \<Rightarrow> jvalue \<Rightarrow> jvalue" where
  "result v jResponse = jset ''result'' v jResponse"

text \<open>The comparison of passwords: the first 500 characters, padded with zeros.\<close>

definition copy_chars :: "string \<Rightarrow> string" where
  "copy_chars s = take 500 s @ replicate (500 - length s) (CHR 0x00)"

definition char_int :: "char \<Rightarrow> 32 word" where
  "char_int c = scast (of_nat (of_char c) :: u8)"

definition compare_passwords :: "string \<Rightarrow> string \<Rightarrow> 32 word" where
  "compare_passwords psw password =
     fold (\<lambda>(a, b) r. or r (xor (char_int a) (char_int b))) (zip (copy_chars psw) (copy_chars password)) 0"

definition api_authorize :: "'j api_env \<Rightarrow> 'j \<Rightarrow> jvalue \<Rightarrow> api_handler" where
  "api_authorize E jRequest jResponse st =
     (let J = ap_json E
      in asking (get_object J ''params'' jRequest False jResponse) (\<lambda>jRequestParams.
           asking (get_text J ''psw'' jRequestParams False jResponse) (\<lambda>psw st.
             if compare_passwords psw (as_password st) = 0 then (Ok jResponse, st\<lparr>as_authenticated := True\<rparr>)
             else (Ok (api_error (-401) ''Invalid password'' jResponse), st))) (st\<lparr>as_authenticated := False\<rparr>))"

definition pool_what :: "pool_error \<Rightarrow> string attempt" where
  "pool_what e =
     (case e of
        OutstandingOperations \<Rightarrow> Ok ''Outstanding operations. Retry ...''
      | IndexOutOfBounds \<Rightarrow> Ok ''Index out-of bounds.''
      | RemoveActive \<Rightarrow> Ok (''Can'' @ [CHR 0x27] @ ''t remove active connection'')
      | NotFound \<Rightarrow> Ok ''Not found.''
      | _ \<Rightarrow> Crashed)"

definition pool_failure :: "pool_error \<Rightarrow> jvalue \<Rightarrow> jvalue attempt" where
  "pool_failure e jResponse = and_then (pool_what e) (\<lambda>what. Ok (api_error (-422) what jResponse))"

definition miner_addconnection :: "'j api_env \<Rightarrow> 'j \<Rightarrow> jvalue \<Rightarrow> api_handler" where
  "miner_addconnection E jRequest jResponse =
     (let J = ap_json E
      in asking (get_object J ''params'' jRequest False jResponse) (\<lambda>jRequestParams.
           asking (get_text J ''uri'' jRequestParams False jResponse) (\<lambda>sUri st.
             case addConnection (ap_boost E) sUri (as_pool st) of
               Inr pm \<Rightarrow> (Ok (result (JBool True) jResponse), set_pool pm st)
             | Inl _ \<Rightarrow> (Ok (api_error (-422) (''Bad URI : '' @ sUri) jResponse), st))))"

text \<open>Switching the endpoint; \<open>spurious\<close> is a spurious failure of the exchange.\<close>

definition switched :: "jvalue \<Rightarrow> pool_error option \<times> pool_manager \<Rightarrow> api_handler" where
  "switched jResponse r st =
     (case r of (e, pm) \<Rightarrow>
        ((case e of None \<Rightarrow> Ok (result (JBool True) jResponse) | Some err \<Rightarrow> pool_failure err jResponse), set_pool pm st))"

definition or_invalid :: "jvalue \<Rightarrow> (bool \<times> 'a option \<times> jvalue) attempt \<Rightarrow> (bool \<times> 'a option \<times> jvalue) attempt" where
  "or_invalid jResponse r =
     and_then r (\<lambda>(ok, v, jResponse). Ok (ok, v, if ok then jResponse else api_error (-422) ''Invalid index'' jResponse))"

definition miner_setactiveconnection :: "'j api_env \<Rightarrow> bool \<Rightarrow> 'j \<Rightarrow> jvalue \<Rightarrow> api_handler" where
  "miner_setactiveconnection E spurious jRequest jResponse =
     (let J = ap_json E
      in asking (get_object J ''params'' jRequest False jResponse) (\<lambda>jRequestParams st.
           case isMember J jRequestParams ''index'' of
             None \<Rightarrow> (Threw, st)
           | Some True \<Rightarrow> asking (or_invalid jResponse (get_unsigned J ''index'' jRequestParams False jResponse))
               (\<lambda>index st. switched jResponse (setActiveConnection spurious index (as_pool st)) st) st
           | Some False \<Rightarrow> asking (or_invalid jResponse (get_text J ''URI'' jRequestParams False jResponse))
               (\<lambda>uri st. switched jResponse (setActiveConnection_str (ap_iequals E) spurious uri (as_pool st)) st) st))"

definition miner_removeconnection :: "'j api_env \<Rightarrow> 'j \<Rightarrow> jvalue \<Rightarrow> api_handler" where
  "miner_removeconnection E jRequest jResponse =
     (let J = ap_json E
      in asking (get_object J ''params'' jRequest False jResponse) (\<lambda>jRequestParams.
           asking (get_unsigned J ''index'' jRequestParams False jResponse) (\<lambda>index st.
             case removeConnection index (as_pool st) of
               Inr pm \<Rightarrow> (Ok (result (JBool True) jResponse), set_pool pm st)
             | Inl e \<Rightarrow> (pool_failure e jResponse, st))))"

definition scrambler_nonce :: "'j api_env \<Rightarrow> 'j \<Rightarrow> jvalue \<Rightarrow> (bool \<times> nat option \<times> jvalue) attempt" where
  "scrambler_nonce E jRequestParams jResponse =
     (let J = ap_json E
      in and_then (or_threw (get_string J jRequestParams ''noncescrambler'' [])) (\<lambda>nonceHex.
           if take 2 nonceHex = ''0x'' then
             case stoul nonceHex 16 of
               Some n \<Rightarrow> Ok (True, Some n, jResponse)
             | None \<Rightarrow> Ok (False, None, api_error (-422) ''Invalid nonce'' jResponse)
           else getRequestValue_u64 J ''noncescrambler'' jRequestParams False jResponse))"

definition clamp_width :: "nat \<Rightarrow> nat" where
  "clamp_width w = (let w = (if w < 10 then 10 else w) in if w > 50 then 40 else w)"

definition set_scrambler :: "jvalue \<Rightarrow> u64 \<Rightarrow> nat \<Rightarrow> api_handler" where
  "set_scrambler jResponse nonce w st =
     (Ok (result (JBool True) jResponse),
      set_farm (\<lambda>f. set_nonce_segment_width (clamp_width w) (set_nonce_scrambler nonce f)) st)"

definition scrambler_width :: "'j api_env \<Rightarrow> 'j \<Rightarrow> jvalue \<Rightarrow> bool \<Rightarrow> u64 \<Rightarrow> api_handler" where
  "scrambler_width E jRequestParams jResponse provided nonce st =
     (let J = ap_json E
      in case isMember J jRequestParams ''segmentwidth'' of
           None \<Rightarrow> (Threw, st)
         | Some True \<Rightarrow> asking (get_unsigned J ''segmentwidth'' jRequestParams False jResponse) (set_scrambler jResponse nonce) st
         | Some False \<Rightarrow>
             if provided then set_scrambler jResponse nonce (f_nonce_segment_with (api_farm st)) st
             else (Ok (api_error (-32602) ''Missing parameters'' jResponse), st))"

definition miner_setscramblerinfo :: "'j api_env \<Rightarrow> 'j \<Rightarrow> jvalue \<Rightarrow> api_handler" where
  "miner_setscramblerinfo E jRequest jResponse =
     (let J = ap_json E
      in asking (get_object J ''params'' jRequest False jResponse) (\<lambda>jRequestParams st.
           case isMember J jRequestParams ''noncescrambler'' of
             None \<Rightarrow> (Threw, st)
           | Some True \<Rightarrow> asking (scrambler_nonce E jRequestParams jResponse)
               (\<lambda>n. scrambler_width E jRequestParams jResponse True (of_nat n)) st
           | Some False \<Rightarrow> scrambler_width E jRequestParams jResponse False (f_nonce_scrambler (api_farm st)) st))"

definition pause_miner :: "jvalue \<Rightarrow> nat \<Rightarrow> bool \<Rightarrow> api_handler" where
  "pause_miner jResponse index pause st =
     (if index < length (f_miners (api_farm st)) then
        (Ok (result (JBool True) jResponse),
         set_farm (\<lambda>f. f\<lparr>f_miners := (f_miners f)[index :=
           (if pause then miner_pause else miner_resume) PauseDueToAPIRequest (f_miners f ! index)]\<rparr>) st)
      else (Ok (api_error (-422) ''Index out of bounds'' jResponse), st))"

definition miner_pausegpu :: "'j api_env \<Rightarrow> 'j \<Rightarrow> jvalue \<Rightarrow> api_handler" where
  "miner_pausegpu E jRequest jResponse =
     (let J = ap_json E
      in asking (get_object J ''params'' jRequest False jResponse) (\<lambda>jRequestParams.
           asking (get_unsigned J ''index'' jRequestParams False jResponse) (\<lambda>index.
             asking (get_boolean J ''pause'' jRequestParams False jResponse) (pause_miner jResponse index))))"

definition LOG_NEXT :: "bool \<Rightarrow> nat" where
  "LOG_NEXT dev_build = (if dev_build then 512 else 4)"

definition miner_setverbosity :: "'j api_env \<Rightarrow> 'j \<Rightarrow> jvalue \<Rightarrow> api_handler" where
  "miner_setverbosity E jRequest jResponse =
     (let J = ap_json E
      in asking (get_object J ''params'' jRequest False jResponse) (\<lambda>jRequestParams.
           asking (get_unsigned J ''verbosity'' jRequestParams False jResponse) (\<lambda>verbosity st.
             if LOG_NEXT (ap_dev_build E) \<le> verbosity
             then (Ok (api_error (-422) (''Verbosity out of bounds (0-'' @ to_string (LOG_NEXT (ap_dev_build E) - 1) @ '')'') jResponse), st)
             else (Ok (result (JBool True) jResponse), st\<lparr>as_verbosity := verbosity\<rparr>))))"

definition reporting :: "jvalue \<Rightarrow> jvalue attempt \<Rightarrow> api_handler" where
  "reporting jResponse v st = (and_then v (\<lambda>v. Ok (result v jResponse)), st)"

definition connections_json :: "pool_manager \<Rightarrow> jvalue" where
  "connections_json pm =
     JArr (map (\<lambda>(i, active, uri). jobject [(''index'', JUInt i), (''active'', JBool active), (''uri'', JStr uri)])
       (getConnectionsJson pm))"

definition scrambler_json :: "farm \<Rightarrow> jvalue" where
  "scrambler_json f =
     (case get_nonce_scrambler_json f of (start, w, n) \<Rightarrow>
        jobject [(''start_nonce'', JStr start), (''device_width'', JUInt w), (''device_count'', JUInt n)])"

text \<open>The methods of an authenticated connection. \<open>random\<close> is the next random number of the farm.\<close>

definition call_method :: "'j api_env \<Rightarrow> int \<Rightarrow> u64 \<Rightarrow> bool \<Rightarrow> string \<Rightarrow> 'j \<Rightarrow> jvalue \<Rightarrow> api_handler" where
  "call_method E now random spurious method jRequest jResponse st =
     (if method = ''miner_getstat1'' then reporting jResponse (getMinerStat1 E now (as_pool st)) st
      else if method = ''miner_getstatdetail'' then reporting jResponse (getMinerStatDetail E now (as_pool st)) st
      else if method = ''miner_shuffle'' then
        writing jResponse (\<lambda>st. (Ok (result (JBool True) jResponse), set_farm (farm_shuffle random) st)) st
      else if method = ''miner_ping'' then (Ok (result (JStr ''pong'') jResponse), st)
      else if method = ''miner_restart'' then
        writing jResponse (\<lambda>st. (Ok (result (JBool True) jResponse), st\<lparr>as_restarts := as_restarts st + 1\<rparr>)) st
      else if method = ''miner_reboot'' then
        writing jResponse (\<lambda>st. (Ok (result (JBool (ap_reboot E)) jResponse), st\<lparr>as_reboots := as_reboots st + 1\<rparr>)) st
      else if method = ''miner_getconnections'' then (Ok (result (connections_json (as_pool st)) jResponse), st)
      else if method = ''miner_addconnection'' then writing jResponse (miner_addconnection E jRequest jResponse) st
      else if method = ''miner_setactiveconnection'' then
        writing jResponse (miner_setactiveconnection E spurious jRequest jResponse) st
      else if method = ''miner_removeconnection'' then writing jResponse (miner_removeconnection E jRequest jResponse) st
      else if method = ''miner_getscramblerinfo'' then (Ok (result (scrambler_json (api_farm st)) jResponse), st)
      else if method = ''miner_setscramblerinfo'' then writing jResponse (miner_setscramblerinfo E jRequest jResponse) st
      else if method = ''miner_pausegpu'' then writing jResponse (miner_pausegpu E jRequest jResponse) st
      else if method = ''miner_setverbosity'' then writing jResponse (miner_setverbosity E jRequest jResponse) st
      else (Ok (api_error (-32601) ''Method not found'' jResponse), st))"

definition invalid_request :: "jvalue \<Rightarrow> jvalue" where
  "invalid_request jResponse = api_error (-32600) ''Invalid Request'' jResponse"

text \<open>The method of a request: a failure is reported as an invalid request.\<close>

definition request_method :: "'j json_ops \<Rightarrow> 'j \<Rightarrow> jvalue \<Rightarrow> (bool \<times> string option \<times> jvalue) attempt" where
  "request_method J jRequest jResponse =
     and_then (get_text J ''jsonrpc'' jRequest False jResponse) (\<lambda>(ok, jsonrpc, jResponse).
       if \<not> ok \<or> jsonrpc \<noteq> Some ''2.0'' then Ok (False, None, invalid_request jResponse)
       else and_then (get_text J ''method'' jRequest False jResponse) (\<lambda>(ok, method, jResponse).
         if \<not> ok then Ok (False, None, invalid_request jResponse) else Ok (True, method, jResponse)))"

definition api_processRequest :: "'j api_env \<Rightarrow> int \<Rightarrow> u64 \<Rightarrow> bool \<Rightarrow> 'j \<Rightarrow> api_handler" where
  "api_processRequest E now random spurious jRequest st =
     (case parseRequestId (ap_json E) jRequest (jset ''jsonrpc'' (JStr ''2.0'') JNull) of
        Threw \<Rightarrow> (Threw, st)
      | Crashed \<Rightarrow> (Crashed, st)
      | Ok (False, jResponse) \<Rightarrow> (Ok jResponse, st)
      | Ok (True, jResponse) \<Rightarrow>
          asking (request_method (ap_json E) jRequest jResponse) (\<lambda>method st.
            if \<not> as_authenticated st \<or> method = ''api_authorize'' then
              if method \<noteq> ''api_authorize'' then (Ok (api_error (-403) ''Authorization needed'' jResponse), st)
              else api_authorize E jRequest jResponse st
            else call_method E now random spurious method jRequest jResponse st) st)"

section \<open>Transmissions\<close>

definition send_text :: "string \<Rightarrow> bool \<Rightarrow> api_state \<Rightarrow> api_state" where
  "send_text s disc st = (if as_open st then st\<lparr>as_sent := as_sent st @ [(s, disc)]\<rparr> else st)"

definition send_json :: "'j api_env \<Rightarrow> jvalue \<Rightarrow> api_state \<Rightarrow> api_state" where
  "send_json E j st = (if as_open st then send_text (j_write (ap_json E) j @ nl) False st else st)"

definition onSendSocketDataCompleted_api :: "bool \<Rightarrow> bool \<Rightarrow> api_state \<Rightarrow> bool \<times> api_state" where
  "onSendSocketDataCompleted_api ec disc st = (if ec \<or> disc then api_disconnect st else (True, st))"

definition failure_response :: "string \<Rightarrow> string \<Rightarrow> jvalue" where
  "failure_response code message =
     jset2 ''error'' ''message'' (JStr message) (jset2 ''error'' ''errorcode'' (JStr code)
       (jset ''id'' JNull (jset ''jsonrpc'' (JStr ''2.0'') JNull)))"

text \<open>\<open>ap_what\<close> stands for the texts of the exceptions and of the reader.\<close>

definition api_line :: "'j api_env \<Rightarrow> int \<Rightarrow> u64 \<Rightarrow> bool \<Rightarrow> string \<Rightarrow> api_state \<Rightarrow> bool \<times> api_state" where
  "api_line E now random spurious line st =
     (let line = (if line = [] then [] else ap_trim E line)
      in if line = [] then (True, st)
         else case j_parse (ap_json E) line of
                None \<Rightarrow> (True, send_json E (failure_response ''-32700'' (''Json parse error : '' @ ap_what E)) st)
              | Some jMsg \<Rightarrow>
                  (case api_processRequest E now random spurious jMsg st of
                     (Ok jRes, st) \<Rightarrow> (True, send_json E jRes st)
                   | (Threw, st) \<Rightarrow> (True, send_json E (failure_response ''500'' (ap_what E)) st)
                   | (Crashed, st) \<Rightarrow> (False, st)))"

function api_lines :: "'j api_env \<Rightarrow> int \<Rightarrow> u64 \<Rightarrow> bool \<Rightarrow> api_state \<Rightarrow> bool \<times> api_state" where
  "api_lines E now random spurious st =
     (case break_line (as_message st) of
        None \<Rightarrow> (True, st)
      | Some (line, rest) \<Rightarrow>
          (case api_line E now random spurious line st of (ok, st') \<Rightarrow>
             if ok then api_lines E now random spurious (st'\<lparr>as_message := rest\<rparr>) else (False, st')))"
  by pat_completeness auto
termination
  by (relation "measure (\<lambda>(E, now, random, spurious, st). length (as_message st))") (auto dest: break_line_shorter)

declare api_lines.simps [simp del]

text \<open>An HTTP request at the start of the text: method, path, version, and the rest.\<close>

definition http_pattern :: "re_item list" where
  "http_pattern =
     [Grp [] (\<lambda>c. 65 \<le> (of_char c :: nat) \<and> (of_char c :: nat) \<le> 90) 1 (Some 6), Lit (CHR '' ''),
      Grp ''/'' (\<lambda>c. \<not> is_space c) 0 None, Lit (CHR '' ''), Grp ''HTTP/1.'' is_digit 1 (Some 1), Grp [] (\<lambda>c. True) 0 None]"

definition http_response :: "'j api_env \<Rightarrow> string \<Rightarrow> string \<Rightarrow> string \<Rightarrow> string \<Rightarrow> string" where
  "http_response E ver status content_type body =
     ver @ '' '' @ status @ crlf @ ''Server: '' @ ap_project E @ crlf @ ''Content-Type: '' @ content_type @ crlf @
     ''Content-Length: '' @ to_string (length body) @ crlf @ crlf @ body @ crlf"

definition http_request :: "'j api_env \<Rightarrow> int \<Rightarrow> string \<Rightarrow> string \<Rightarrow> string \<Rightarrow> api_state \<Rightarrow> bool \<times> api_state" where
  "http_request E now method path ver st =
     (let reply = (\<lambda>text. (True, (send_text text True st)\<lparr>as_message := []\<rparr>))
      in if method \<noteq> ''GET'' then
           reply (http_response E ver ''405 Method not allowed'' ''text/plain'' (''Method '' @ method @ '' not allowed''))
         else if path \<noteq> ''/'' \<and> path \<noteq> ''/getstat1'' then
           reply (http_response E ver ''404 Not Found'' ''text/plain''
             (''The requested resource '' @ path @ '' not found on this server''))
         else case getHttpMinerStatDetail E now (as_pool st) of
                Ok body \<Rightarrow> reply (http_response E ver ''200 Ok Error'' ''text/html; charset=utf-8'' body)
              | Threw \<Rightarrow> reply (http_response E ver ''500 Internal Server Error'' ''text/plain'' (''Internal error : '' @ ap_what E))
              | Crashed \<Rightarrow> (False, st))"

text \<open>\<open>rx\<close> is the text received, None for an error. The result is whether the program goes on.\<close>

definition onRecvSocketDataCompleted_api ::
  "'j api_env \<Rightarrow> int \<Rightarrow> u64 \<Rightarrow> bool \<Rightarrow> string option \<Rightarrow> api_state \<Rightarrow> bool \<times> api_state" where
  "onRecvSocketDataCompleted_api E now random spurious rx st =
     (case rx of
        None \<Rightarrow> api_disconnect st
      | Some rx_message \<Rightarrow>
          if rx_message = [] then api_disconnect st
          else
            let st = st\<lparr>as_message := as_message st @ rx_message\<rparr>
            in if length (as_message st) < 4 then (True, st)
               else case match_re http_pattern (as_message st) of
                      Some [method, path, ver, _] \<Rightarrow> http_request E now method path ver st
                    | _ \<Rightarrow>
                      (case api_lines E now random spurious st of (ok, st) \<Rightarrow>
                         if \<not> ok then (False, st) else (True, if as_open st then recvSocketData st else st)))"

section \<open>The server\<close>

record api_server =
  sv_password :: string
  sv_readonly :: bool
  sv_portnumber :: u16
  sv_running :: bool
  sv_lastSessionId :: nat
  sv_sessions :: "nat list"
  sv_accepting :: "nat option"

definition ApiServer_new :: "int \<Rightarrow> string \<Rightarrow> api_server" where
  "ApiServer_new portnum password =
     \<lparr>sv_password = password, sv_readonly = (portnum < 0), sv_portnumber = of_int (if portnum < 0 then - portnum else portnum),
      sv_running = False, sv_lastSessionId = 0, sv_sessions = [], sv_accepting = None\<rparr>"

definition begin_accept :: "api_server \<Rightarrow> api_server" where
  "begin_accept sv =
     (if \<not> sv_running sv then sv
      else sv\<lparr>sv_lastSessionId := sv_lastSessionId sv + 1, sv_accepting := Some (sv_lastSessionId sv + 1)\<rparr>)"

text \<open>
  The outcomes of binding the port: the address has no valid form, the acceptor cannot be opened, it can be opened but
  not bound, or it listens. In the first two cases an exception leaves \<open>start\<close>, in the second one from the handler that
  asks the closed acceptor for its port. \<open>early\<close> says whether the new thread runs before the server is marked as
  running.
\<close>

datatype bind_outcome = BadAddress | NotOpened | NotBound | Listening

definition api_start :: "bind_outcome \<Rightarrow> bool \<Rightarrow> api_server \<Rightarrow> api_server attempt" where
  "api_start outcome early sv =
     (if sv_portnumber sv = 0 then Ok sv
      else case outcome of
             BadAddress \<Rightarrow> Threw
           | NotOpened \<Rightarrow> Threw
           | NotBound \<Rightarrow> Ok sv
           | Listening \<Rightarrow> Ok (if early then (begin_accept sv)\<lparr>sv_running := True\<rparr> else begin_accept (sv\<lparr>sv_running := True\<rparr>)))"

text \<open>A pending accept completes with an error after the acceptor is closed.\<close>

definition api_stop :: "api_server \<Rightarrow> api_server" where
  "api_stop sv = (if \<not> sv_running sv then sv else sv\<lparr>sv_running := False, sv_sessions := []\<rparr>)"

text \<open>\<open>peer\<close> says whether the other end is still there when its address is logged, which throws otherwise.\<close>

definition handle_accept :: "nat \<Rightarrow> bool \<Rightarrow> bool \<Rightarrow> api_server \<Rightarrow> api_server attempt" where
  "handle_accept session ec peer sv =
     (let sv = sv\<lparr>sv_accepting := None\<rparr>
      in if ec then Ok (begin_accept sv)
         else if peer then Ok (begin_accept (sv\<lparr>sv_sessions := sv_sessions sv @ [session]\<rparr>)) else Threw)"

definition session_disconnected :: "nat \<Rightarrow> api_server \<Rightarrow> api_server" where
  "session_disconnected i sv = sv\<lparr>sv_sessions := remove1 i (sv_sessions sv)\<rparr>"

section \<open>Notions\<close>

text \<open>
  Members of a request that are texts and objects, and its identification.
\<close>

definition text_member :: "'j json_ops \<Rightarrow> 'j \<Rightarrow> string \<Rightarrow> string \<Rightarrow> bool" where
  "text_member J v k s \<longleftrightarrow> isMember J v k = Some True \<and>
     (\<exists>x. get_value J v k = Some x \<and> j_isString J x \<and> \<not> j_empty J x \<and> j_asString J x = Some s)"

definition object_member :: "'j json_ops \<Rightarrow> 'j \<Rightarrow> string \<Rightarrow> 'j \<Rightarrow> bool" where
  "object_member J v k x \<longleftrightarrow> isMember J v k = Some True \<and> get_value J v k = Some x \<and> j_isObject J x \<and> \<not> j_empty J x"

definition has_id :: "'j json_ops \<Rightarrow> 'j \<Rightarrow> bool" where
  "has_id J v \<longleftrightarrow> isMember J v ''id'' = Some True \<and>
     (\<exists>x. get_value J v ''id'' = Some x \<and> \<not> j_empty J x \<and>
        (if j_isUInt J x then j_asUInt J x \<noteq> None else j_isString J x \<and> j_asString J x \<noteq> None))"

text \<open>
  A request with an identification, the right version and a method; an authorisation with its password.
\<close>

definition requests :: "'j json_ops \<Rightarrow> 'j \<Rightarrow> string \<Rightarrow> bool" where
  "requests J jRequest method \<longleftrightarrow>
     has_id J jRequest \<and> text_member J jRequest ''jsonrpc'' ''2.0'' \<and> text_member J jRequest ''method'' method"

definition authorizing :: "'j json_ops \<Rightarrow> 'j \<Rightarrow> string \<Rightarrow> bool" where
  "authorizing J jRequest psw \<longleftrightarrow> requests J jRequest ''api_authorize'' \<and>
     (\<exists>p. object_member J jRequest ''params'' p \<and> text_member J p ''psw'' psw)"

text \<open>
  Texts without trailing zeros, cut after 500 characters.
\<close>

definition significant :: "string \<Rightarrow> string" where
  "significant s = rev (dropWhile (\<lambda>c. c = CHR 0x00) (rev (take 500 s)))"

text \<open>
  What a connection can change outside of itself.
\<close>

definition controlled :: "api_state \<Rightarrow> pool_manager \<times> nat \<times> nat \<times> nat" where
  "controlled st = (as_pool st, as_verbosity st, as_restarts st, as_reboots st)"

text \<open>
  The events of a connection: receptions, completed transmissions and the start of a read.
\<close>

inductive api_step :: "'j api_env \<Rightarrow> api_state \<Rightarrow> api_state \<Rightarrow> bool" for E where
  received: "onRecvSocketDataCompleted_api E now random spurious rx st = (True, st') \<Longrightarrow> api_step E st st'"
| sent: "onSendSocketDataCompleted_api ec disc st = (True, st') \<Longrightarrow> api_step E st st'"
| reading: "api_step E st (recvSocketData st)"

text \<open>
  The response after the identification has been read, one with an error and one with a result.
\<close>

definition started :: "jvalue \<Rightarrow> bool" where
  "started r \<longleftrightarrow> jmember ''jsonrpc'' r = Some (JStr ''2.0'') \<and> jmember ''id'' r \<noteq> None \<and>
     jmember ''result'' r = None \<and> jmember ''error'' r = None"

definition refused :: "jvalue \<Rightarrow> bool" where
  "refused r \<longleftrightarrow> jmember ''jsonrpc'' r = Some (JStr ''2.0'') \<and> jmember ''id'' r \<noteq> None \<and>
     jmember ''result'' r = None \<and> jmember ''error'' r \<noteq> None"

definition granted :: "jvalue \<Rightarrow> bool" where
  "granted r \<longleftrightarrow> jmember ''jsonrpc'' r = Some (JStr ''2.0'') \<and> jmember ''id'' r \<noteq> None \<and>
     jmember ''result'' r \<noteq> None \<and> jmember ''error'' r = None"

text \<open>
  Every answer of a handler has either a result or an error.
\<close>

definition settles :: "api_handler \<Rightarrow> bool" where
  "settles h \<longleftrightarrow> (\<forall>st j st'. h st = (Ok j, st') \<longrightarrow> granted j \<or> refused j)"

text \<open>
  How a request goes on once its method is known.
\<close>

definition dispatch :: "'j api_env \<Rightarrow> int \<Rightarrow> u64 \<Rightarrow> bool \<Rightarrow> string \<Rightarrow> 'j \<Rightarrow> jvalue \<Rightarrow> api_handler" where
  "dispatch E now random spurious method jRequest jResponse st =
     (if method = ''api_authorize'' then api_authorize E jRequest jResponse st
      else if as_authenticated st then call_method E now random spurious method jRequest jResponse st
      else (Ok (api_error (-403) ''Authorization needed'' jResponse), st))"

text \<open>
  A read-only connection under which nothing has changed.
\<close>

definition read_only :: "pool_manager \<times> nat \<times> nat \<times> nat \<Rightarrow> api_state \<Rightarrow> bool" where
  "read_only c st \<longleftrightarrow> as_readonly st \<and> controlled st = c"

text \<open>
  An authorisation on a connection with a password, of a server whose pool has no client yet, or has one.
\<close>

definition example_api :: "jvalue api_env" where
  "example_api = \<lparr>ap_json = example_json (\<lambda>_. None), ap_trim = (\<lambda>s. s), ap_what = [], ap_real = (\<lambda>_. ''0''), ap_project = ''miner'',
     ap_hostname = None, ap_boost = example_boost, ap_iequals = (=), ap_reboot = False, ap_dev_build = False\<rparr>"

definition authorize_request :: jvalue where
  "authorize_request = JObj [(''id'', JUInt 1), (''jsonrpc'', JStr ''2.0''), (''method'', JStr ''api_authorize''),
     (''params'', JObj [(''psw'', JStr ''secret'')])]"

definition protected_connection :: "bool \<Rightarrow> api_state" where
  "protected_connection readonly = ApiConnection_new readonly ''secret'' example_pool 0"

definition authorize_answer :: jvalue where
  "authorize_answer = jset ''id'' (JUInt 1) (jset ''jsonrpc'' (JStr ''2.0'') JNull)"

definition served_connection :: api_state where
  "served_connection = ApiConnection_new False ''secret'' (example_pool\<lparr>pm_client :=
     Some \<lparr>pc_family = STRATUM, pc_conn = Some 0, pc_isConnected = True, pc_endpoint = []\<rparr>\<rparr>) 0"

section \<open>Responses\<close>

inductive_cases api_stepE: "api_step E st st'"

lemma jmember_jset [simp]: "jmember k (jset k' v j) = (if k = k' then Some v else jmember k j)"
  by (cases j) (auto simp: map_of_map_assign)

lemma jmember_jset2 [simp]:
  "jmember k (jset2 k1 k2 v j) = (if k = k1 then Some (jset k2 v (case jmember k1 j of Some x \<Rightarrow> x | None \<Rightarrow> JNull)) else jmember k j)"
  by (simp add: jset2_def)

lemma jmember_api_error: "k \<noteq> ''error'' \<Longrightarrow> jmember k (api_error c s j) = jmember k j"
  by (simp add: api_error_def)

lemma jmember_api_error_error: "\<exists>y. jmember ''error'' (api_error c s j) = Some y"
  by (simp add: api_error_def)

lemma get_text_iff: "get_text J k v False r = Ok (True, x, r') \<longleftrightarrow> r' = r \<and> (\<exists>s. x = Some s \<and> text_member J v k s)"
  by (auto simp: get_text_def getRequestValue_def text_member_def split: if_splits)

lemma get_object_iff: "get_object J k v False r = Ok (True, x, r') \<longleftrightarrow> r' = r \<and> (\<exists>p. x = Some p \<and> object_member J v k p)"
  by (auto simp: get_object_def getRequestValue_def object_member_def split: if_splits)

lemma request_method_iff:
  "request_method J v r = Ok (True, x, r') \<longleftrightarrow>
     r' = r \<and> (\<exists>m. x = Some m \<and> text_member J v ''jsonrpc'' ''2.0'' \<and> text_member J v ''method'' m)"
  by (auto simp: request_method_def get_text_iff split: if_splits prod.splits)

lemma parseRequestId_has_id: "parseRequestId J v r = Ok (True, r') \<Longrightarrow> has_id J v"
  by (auto simp: parseRequestId_def has_id_def split: if_splits)

lemma has_id_parseRequestId: "has_id J v \<Longrightarrow> \<exists>x. parseRequestId J v r = Ok (True, jset ''id'' x r)"
proof -
  assume "has_id J v"
  then obtain x where "isMember J v ''id'' = Some True" "get_value J v ''id'' = Some x" "\<not> j_empty J x"
    and "if j_isUInt J x then j_asUInt J x \<noteq> None else j_isString J x \<and> j_asString J x \<noteq> None"
    by (auto simp: has_id_def)
  then show ?thesis
    by (cases "j_isUInt J x") (auto simp: parseRequestId_def or_threw_def)
qed

lemma refused_api_error [intro]: "started r \<or> refused r \<Longrightarrow> refused (api_error c s r)"
  by (auto simp: started_def refused_def jmember_api_error jmember_api_error_error)

lemma granted_result [intro]: "started r \<Longrightarrow> granted (result v r)"
  by (simp add: started_def granted_def result_def)

lemma parseRequestId_response:
  "parseRequestId J v (jset ''jsonrpc'' (JStr ''2.0'') JNull) = Ok (b, r) \<Longrightarrow> if b then started r else refused r"
  by (auto simp: parseRequestId_def started_def refused_def jmember_api_error jmember_api_error_error simp del: jset.simps split: if_splits)

lemma getRequestValue_response:
  "getRequestValue J ok rd k v False r = Ok (b, x, r') \<Longrightarrow> started r \<Longrightarrow> if b then r' = r \<and> x \<noteq> None else refused r'"
  by (auto simp: getRequestValue_def split: if_splits)

lemma getRequestValue_u64_response:
  "getRequestValue_u64 J k v False r = Ok (b, x, r') \<Longrightarrow> started r \<Longrightarrow> if b then r' = r \<and> x \<noteq> None else refused r'"
  by (auto simp: getRequestValue_u64_def started_def refused_def jmember_api_error jmember_api_error_error split: if_splits option.splits)

lemma settlesI: "(\<And>st j st'. h st = (Ok j, st') \<Longrightarrow> granted j \<or> refused j) \<Longrightarrow> settles h"
  by (simp add: settles_def)

lemma settlesD: "settles h \<Longrightarrow> h st = (Ok j, st') \<Longrightarrow> granted j \<or> refused j"
  unfolding settles_def by blast

lemma settles_answer [intro]: "granted j \<or> refused j \<Longrightarrow> settles (\<lambda>st. (Ok j, f st))"
  by (simp add: settles_def)

lemma settles_asking:
  assumes "\<And>b x r'. q = Ok (b, x, r') \<Longrightarrow> if b then x \<noteq> None else refused r'" and "\<And>x. settles (h x)"
  shows "settles (asking q h)"
proof (rule settlesI)
  fix st j st' assume h: "asking q h st = (Ok j, st')"
  show "granted j \<or> refused j"
  proof (cases q)
    case (Ok y)
    obtain b x r' where "y = (b, x, r')" by (cases y)
    then show ?thesis
      using Ok h assms(1) [of b x r'] assms(2)
      by (cases b; cases x) (auto simp: asking_def settles_def)
  qed (use h in \<open>auto simp: asking_def\<close>)
qed

lemma settles_writing: "started r \<Longrightarrow> settles h \<Longrightarrow> settles (writing r h)"
  by (auto simp: settles_def writing_def checkApiWriteAccess_def split: if_splits)

text \<open>What the overloads of \<open>getRequestValue\<close> have in common.\<close>

locale request_reader =
  fixes get :: "'j json_ops \<Rightarrow> string \<Rightarrow> 'j \<Rightarrow> bool \<Rightarrow> jvalue \<Rightarrow> (bool \<times> 'a option \<times> jvalue) attempt"
  assumes response: "get J k v False r = Ok (b, x, r') \<Longrightarrow> started r \<Longrightarrow> if b then r' = r \<and> x \<noteq> None else refused r'"
begin

lemma settles_get: "started r \<Longrightarrow> (\<And>x. settles (h x)) \<Longrightarrow> settles (asking (get J k v False r) h)"
  by (rule settles_asking) (auto dest!: response split: if_splits)

lemma settles_or_invalid:
  "started r \<Longrightarrow> (\<And>x. settles (h x)) \<Longrightarrow> settles (asking (or_invalid r (get J k v False r)) h)"
  by (rule settles_asking) (auto simp: or_invalid_def dest!: response split: if_splits)

end

interpretation objects: request_reader get_object
  by unfold_locales (unfold get_object_def, rule getRequestValue_response)

interpretation texts: request_reader get_text
  by unfold_locales (unfold get_text_def, rule getRequestValue_response)

interpretation numbers: request_reader get_unsigned
  by unfold_locales (unfold get_unsigned_def, rule getRequestValue_response)

interpretation booleans: request_reader get_boolean
  by unfold_locales (unfold get_boolean_def, rule getRequestValue_response)

interpretation numbers64: request_reader getRequestValue_u64
  by unfold_locales (rule getRequestValue_u64_response)

lemma pool_failure_refused: "started r \<Longrightarrow> pool_failure e r = Ok j \<Longrightarrow> refused j"
  by (auto simp: pool_failure_def)

lemma settles_switched: "started r \<Longrightarrow> settles (\<lambda>st. switched r (f st) st)"
  by (auto simp: settles_def switched_def pool_failure_refused split: prod.splits option.splits)

lemma settles_addconnection: "started r \<Longrightarrow> settles (miner_addconnection E v r)"
  unfolding miner_addconnection_def Let_def
  by (intro objects.settles_get texts.settles_get) (auto simp: settles_def split: sum.splits)

lemma settles_setactive: "started r \<Longrightarrow> settles (miner_setactiveconnection E spurious v r)"
  unfolding miner_setactiveconnection_def Let_def
  apply (intro objects.settles_get)
   apply assumption
  apply (rule settlesI)
  using numbers.settles_or_invalid [OF _ settles_switched] texts.settles_or_invalid [OF _ settles_switched]
  by (fastforce simp: settles_def split: option.splits bool.splits)

lemma settles_removeconnection: "started r \<Longrightarrow> settles (miner_removeconnection E v r)"
  unfolding miner_removeconnection_def Let_def
  by (intro objects.settles_get numbers.settles_get) (auto simp: settles_def pool_failure_refused split: sum.splits)

lemma settles_pausegpu: "started r \<Longrightarrow> settles (miner_pausegpu E v r)"
  unfolding miner_pausegpu_def Let_def
  by (intro objects.settles_get numbers.settles_get booleans.settles_get) (auto simp: settles_def pause_miner_def split: if_splits)

lemma settles_setverbosity: "started r \<Longrightarrow> settles (miner_setverbosity E v r)"
  unfolding miner_setverbosity_def Let_def
  by (intro objects.settles_get numbers.settles_get) (auto simp: settles_def split: if_splits)

lemma settles_set_scrambler: "started r \<Longrightarrow> settles (set_scrambler r n w)"
  by (auto simp: settles_def set_scrambler_def)

lemma settles_scrambler_width: "started r \<Longrightarrow> settles (scrambler_width E v r b n)"
  using numbers.settles_get [of r "set_scrambler r n"] settles_set_scrambler
  by (fastforce simp: settles_def scrambler_width_def Let_def split: option.splits bool.splits if_splits)

lemma scrambler_nonce_response:
  "started r \<Longrightarrow> scrambler_nonce E v r = Ok (b, x, r') \<Longrightarrow> if b then x \<noteq> None else refused r'"
  using numbers64.response [of "ap_json E" "''noncescrambler''" v r b x r']
  by (auto simp: scrambler_nonce_def Let_def split: if_splits option.splits)

lemma settles_setscramblerinfo: "started r \<Longrightarrow> settles (miner_setscramblerinfo E v r)"
  unfolding miner_setscramblerinfo_def Let_def
  apply (intro objects.settles_get)
   apply assumption
  apply (rule settlesI)
  using settles_asking [OF scrambler_nonce_response settles_scrambler_width] settles_scrambler_width
  by (fastforce simp: settles_def split: option.splits bool.splits)

lemmas settles_methods = settles_addconnection settles_setactive settles_removeconnection settles_pausegpu
  settles_setverbosity settles_setscramblerinfo

lemma settles_if: "settles f \<Longrightarrow> settles g \<Longrightarrow> settles (\<lambda>st. if c then f st else g st)"
  by (simp add: settles_def)

lemma settles_reporting: "started r \<Longrightarrow> settles (\<lambda>st. reporting r (f st) st)"
  by (auto simp: settles_def reporting_def)

lemma settles_result: "started r \<Longrightarrow> settles (\<lambda>st. (Ok (result (f st) r), g st))"
  by (auto simp: settles_def)

lemma settles_call_method: "started r \<Longrightarrow> settles (call_method E now random spurious method v r)"
  unfolding call_method_def [abs_def]
  by (intro settles_if settles_writing settles_reporting settles_result settles_methods settles_answer) auto

lemma compare_authorize:
  "api_authorize E v r st =
     (if \<exists>psw p. object_member (ap_json E) v ''params'' p \<and> text_member (ap_json E) p ''psw'' psw \<and>
         compare_passwords psw (as_password st) = 0
      then (Ok r, st\<lparr>as_authenticated := True\<rparr>)
      else (fst (api_authorize E v r st), st\<lparr>as_authenticated := False\<rparr>))"
proof -
  have uniq: "p = p' \<and> psw = psw'" if "object_member J v k p" "object_member J v k p'" "text_member J p k' psw" "text_member J p' k' psw'"
    for J :: "'a json_ops" and k k' p p' psw psw'
    using that by (auto simp: object_member_def text_member_def)
  show ?thesis
  proof (cases "\<exists>psw p. object_member (ap_json E) v ''params'' p \<and> text_member (ap_json E) p ''psw'' psw")
    case True
    then obtain psw p where *: "object_member (ap_json E) v ''params'' p" "text_member (ap_json E) p ''psw'' psw" by blast
    then have "get_object (ap_json E) ''params'' v False r = Ok (True, Some p, r)"
      "get_text (ap_json E) ''psw'' p False r = Ok (True, Some psw, r)"
      by (simp_all add: get_object_iff get_text_iff)
    with * show ?thesis by (auto simp: api_authorize_def asking_def dest: uniq)
  next
    case False
    then show ?thesis
      by (auto simp: api_authorize_def asking_def get_object_iff get_text_iff Let_def split: attempt.splits bool.splits option.splits prod.splits)
  qed
qed

lemma authorize_refused:
  "started r \<Longrightarrow> api_authorize E v r st = (Ok j, st') \<Longrightarrow> \<not> as_authenticated st' \<Longrightarrow> refused j"
  by (auto simp: api_authorize_def asking_def Let_def dest!: objects.response texts.response
      split: attempt.splits bool.splits option.splits prod.splits if_splits)

lemma authorize_granted:
  "api_authorize E v r st = (Ok j, st') \<Longrightarrow> as_authenticated st' \<Longrightarrow> j = r"
  by (subst (asm) compare_authorize) (auto split: if_splits)

lemma request_method_response:
  "request_method J v r = Ok (b, x, r') \<Longrightarrow> started r \<Longrightarrow> if b then r' = r \<and> x \<noteq> None else refused r'"
  by (auto simp: request_method_def invalid_request_def dest!: texts.response split: if_splits)

lemma request_cases:
  obtains (bad) j where "(\<And>m. \<not> requests (ap_json E) v m)" "api_processRequest E now random spurious v st = (j, st)"
      "\<And>r. j = Ok r \<Longrightarrow> refused r"
  | (good) m r where "requests (ap_json E) v m" "started r"
      "api_processRequest E now random spurious v st = dispatch E now random spurious m v r st"
proof -
  let ?p = "parseRequestId (ap_json E) v (jset ''jsonrpc'' (JStr ''2.0'') JNull)"
  consider (id) r where "?p = Ok (True, r)" "has_id (ap_json E) v" "started r"
    | (refused) r where "?p = Ok (False, r)" "\<not> has_id (ap_json E) v" "refused r"
    | (failed) "\<forall>b r. ?p \<noteq> Ok (b, r)" "\<not> has_id (ap_json E) v"
  proof (cases ?p)
    case (Ok y)
    obtain b r where y: "y = (b, r)" by (cases y)
    have "b \<longleftrightarrow> has_id (ap_json E) v"
      using Ok y parseRequestId_has_id [of "ap_json E" v] has_id_parseRequestId [of "ap_json E" v "jset ''jsonrpc'' (JStr ''2.0'') JNull"]
      by (cases b) auto
    then show ?thesis using Ok y parseRequestId_response [of "ap_json E" v b r] id refused by (cases b) auto
  qed (use failed has_id_parseRequestId [of "ap_json E" v "jset ''jsonrpc'' (JStr ''2.0'') JNull"] in auto)
  then show ?thesis
  proof cases
    case id
    show ?thesis
    proof (cases "\<exists>m. requests (ap_json E) v m")
      case True
      then obtain m where m: "requests (ap_json E) v m" by blast
      then have "request_method (ap_json E) v r = Ok (True, Some m, r)" by (simp add: request_method_iff requests_def)
      then show ?thesis
        using id by (intro good [OF m id(3)]) (auto simp: api_processRequest_def dispatch_def asking_def)
    next
      case False
      have "request_method (ap_json E) v r \<noteq> Ok (True, x, r')" for x r'
        using False id(2) by (auto simp: request_method_iff requests_def)
      then show ?thesis
        using False id request_method_response [OF _ id(3), of "ap_json E" v]
        by (intro bad [of "fst (api_processRequest E now random spurious v st)"]) (auto simp: api_processRequest_def asking_def split: attempt.splits bool.splits prod.splits)
    qed
  next
    case refused
    then show ?thesis by (intro bad [of "fst (api_processRequest E now random spurious v st)"]) (auto simp: api_processRequest_def requests_def)
  next
    case failed
    then show ?thesis
      by (intro bad [of "fst (api_processRequest E now random spurious v st)"]) (auto simp: api_processRequest_def requests_def split: attempt.splits bool.splits prod.splits)
  qed
qed

text \<open>
  C27: every response that is not an exception is an object with the version and an identification, and never has both a
  result and an error. It has neither of them exactly when the request has authenticated the connection, where a result
  is documented.
\<close>
theorem api_response_shape:
  assumes "api_processRequest E now random spurious jRequest st = (Ok j, st')"
  shows "jmember ''jsonrpc'' j = Some (JStr ''2.0'') \<and> jmember ''id'' j \<noteq> None \<and>
    \<not> (jmember ''result'' j \<noteq> None \<and> jmember ''error'' j \<noteq> None) \<and>
    (jmember ''result'' j = None \<and> jmember ''error'' j = None \<longleftrightarrow>
     requests (ap_json E) jRequest ''api_authorize'' \<and> as_authenticated st')"
  using request_cases [of E jRequest now random spurious st]
proof cases
  case (bad x)
  then show ?thesis using assms by (auto simp: refused_def)
next
  case (good m r)
  have uniq: "requests (ap_json E) jRequest m' \<longleftrightarrow> m' = m" for m'
    using good(1) by (auto simp: requests_def text_member_def)
  consider "m = ''api_authorize''" "as_authenticated st'" "j = r" | "m = ''api_authorize''" "\<not> as_authenticated st'" "refused j"
    | "m \<noteq> ''api_authorize''" "granted j \<or> refused j"
  proof (cases "m = ''api_authorize''")
    case True
    then have a: "api_authorize E jRequest r st = (Ok j, st')" using good(3) assms by (simp add: dispatch_def)
    show ?thesis using that(1,2) True authorize_refused [OF good(2) a] authorize_granted [OF a] by (cases "as_authenticated st'") simp_all
  next
    case False
    have d: "dispatch E now random spurious m jRequest r st = (Ok j, st')" using good(3) assms by simp
    have "granted j \<or> refused j"
    proof (cases "as_authenticated st")
      case True
      with False d have "call_method E now random spurious m jRequest r st = (Ok j, st')" by (simp add: dispatch_def)
      then show ?thesis by (rule settlesD [OF settles_call_method [OF good(2)]])
    next
      case unauth: False
      with False d have "j = api_error (-403) ''Authorization needed'' r" by (simp add: dispatch_def)
      then show ?thesis using good(2) by (simp add: refused_api_error)
    qed
    then show ?thesis using that(3) False by blast
  qed
  then show ?thesis
    using good(2) by cases (auto simp: uniq started_def refused_def granted_def)
qed

section \<open>Access\<close>

lemma or_zero_iff: "or a b = 0 \<longleftrightarrow> a = 0 \<and> b = (0 :: 'a :: len word)"
  by (auto simp: bit_eq_iff bit_or_iff)

lemma xor_zero_iff: "xor a b = 0 \<longleftrightarrow> a = (b :: 'a :: len word)"
  by (auto simp: bit_eq_iff bit_xor_iff)

lemma char_int_eq [simp]: "char_int a = char_int b \<longleftrightarrow> a = b"
proof
  assume eq: "char_int a = char_int b"
  have s: "sint (char_int c) = sint (of_nat (of_char c) :: u8)" for c
    unfolding char_int_def by (rule sint_up_scast) (simp add: is_up)
  have "sint (of_nat (of_char a) :: u8) = sint (of_nat (of_char b) :: u8)" using eq s [of a] s [of b] by simp
  then have "(of_nat (of_char a) :: u8) = of_nat (of_char b)" by (rule signed_word_eqI)
  then have "unat (of_nat (of_char a) :: u8) = unat (of_nat (of_char b) :: u8)" by simp
  then have "(of_char a :: nat) = of_char b" by (simp only: unat_of_nat) simp
  then show "a = b" by simp
qed simp

lemma compare_fold:
  "fold (\<lambda>(a, b) r. or r (xor (char_int a) (char_int b))) (zip xs ys) r = 0 \<longleftrightarrow> r = 0 \<and> (\<forall>(a, b) \<in> set (zip xs ys). a = b)"
  by (induction xs ys arbitrary: r rule: list_induct2') (auto simp: or_zero_iff xor_zero_iff)

lemma length_copy_chars [simp]: "length (copy_chars s) = 500"
  by (simp add: copy_chars_def)

lemma zip_all_equal: "length xs = length ys \<Longrightarrow> (\<forall>(a, b) \<in> set (zip xs ys). a = b) \<longleftrightarrow> xs = ys"
  by (induction xs ys rule: list_induct2) auto

lemma compare_passwords_copies: "compare_passwords a b = 0 \<longleftrightarrow> copy_chars a = copy_chars b"
  by (simp add: compare_passwords_def compare_fold zip_all_equal del: split_paired_All)

lemma significant_copy: "significant s = rev (dropWhile (\<lambda>c. c = CHR 0x00) (rev (copy_chars s)))"
  by (simp add: significant_def copy_chars_def dropWhile_append)

lemma copy_significant: "copy_chars s = significant s @ replicate (500 - length (significant s)) (CHR 0x00)"
proof -
  let ?z = "\<lambda>c. c = CHR 0x00" and ?r = "rev (copy_chars s)"
  have "takeWhile ?z ?r = replicate (length (takeWhile ?z ?r)) (CHR 0x00)"
    by (metis (full_types) replicate_length_same set_takeWhileD)
  moreover have "length (takeWhile ?z ?r) + length (dropWhile ?z ?r) = 500"
    by (metis length_append length_copy_chars length_rev takeWhile_dropWhile_id)
  ultimately have "?r = replicate (500 - length (significant s)) (CHR 0x00) @ rev (significant s)"
    by (metis add_diff_cancel_right' length_rev rev_rev_ident significant_copy takeWhile_dropWhile_id)
  then show ?thesis by (metis rev_append rev_replicate rev_rev_ident)
qed

lemma compare_passwords_iff: "compare_passwords a b = 0 \<longleftrightarrow> significant a = significant b"
  by (metis compare_passwords_copies copy_significant significant_copy)

text \<open>
  C19: a request on a connection that is not authenticated leaves pool, farm, verbosity, restarts and reboots as they are,
  and afterwards the connection is authenticated exactly when the request is an authorisation with the password of the
  server, compared without trailing zeros up to the 500th character.
\<close>
theorem api_access:
  assumes "\<not> as_authenticated st"
  shows "controlled (snd (api_processRequest E now random spurious jRequest st)) = controlled st \<and>
    (as_authenticated (snd (api_processRequest E now random spurious jRequest st)) \<longleftrightarrow>
     (\<exists>psw. authorizing (ap_json E) jRequest psw \<and> significant psw = significant (as_password st)))"
  using request_cases [of E jRequest now random spurious st]
proof cases
  case (bad j)
  then show ?thesis using assms by (auto simp: authorizing_def)
next
  case (good m r)
  have uniq: "requests (ap_json E) jRequest m' \<longleftrightarrow> m' = m" for m'
    using good(1) by (auto simp: requests_def text_member_def)
  show ?thesis
  proof (cases "m = ''api_authorize''")
    case True
    have "snd (api_authorize E jRequest r st) = st\<lparr>as_authenticated :=
        (\<exists>psw. authorizing (ap_json E) jRequest psw \<and> significant psw = significant (as_password st))\<rparr>"
      by (subst compare_authorize) (auto simp: compare_passwords_iff authorizing_def uniq True intro!: arg_cong [where f = "\<lambda>b. st\<lparr>as_authenticated := b\<rparr>"])
    then show ?thesis using good(3) by (simp add: dispatch_def True controlled_def)
  next
    case False
    then show ?thesis using good(3) assms by (auto simp: dispatch_def authorizing_def uniq)
  qed
qed

lemma writing_readonly: "as_readonly st \<Longrightarrow> snd (writing r h st) = st"
  by (simp add: writing_def checkApiWriteAccess_def)

lemma snd_if: "snd x = st \<Longrightarrow> snd y = st \<Longrightarrow> snd (if c then x else y) = st"
  by simp

lemma call_method_readonly: "as_readonly st \<Longrightarrow> snd (call_method E now random spurious method v r st) = st"
  unfolding call_method_def reporting_def by (intro snd_if writing_readonly snd_conv)

lemma request_readonly:
  assumes "as_readonly st"
  shows "\<exists>b. snd (api_processRequest E now random spurious v st) = st\<lparr>as_authenticated := b\<rparr>"
  using request_cases [of E v now random spurious st]
proof cases
  case (bad j)
  then show ?thesis by (auto intro: exI [of _ "as_authenticated st"])
next
  case (good m r)
  have "\<exists>b. snd (api_authorize E v r st) = st\<lparr>as_authenticated := b\<rparr>"
    by (subst compare_authorize) auto
  moreover have "\<exists>b. st = st\<lparr>as_authenticated := b\<rparr>" by (auto intro: exI [of _ "as_authenticated st"])
  ultimately show ?thesis using good(3) assms by (auto simp: dispatch_def call_method_readonly)
qed

lemma read_only_updates [simp]:
  "read_only c (st\<lparr>as_authenticated := b\<rparr>) = read_only c st" "read_only c (st\<lparr>as_message := m\<rparr>) = read_only c st"
  "read_only c (st\<lparr>as_open := b\<rparr>) = read_only c st" "read_only c (st\<lparr>as_sent := s\<rparr>) = read_only c st"
  "read_only c (st\<lparr>as_reads := n\<rparr>) = read_only c st"
  by (simp_all add: read_only_def controlled_def)

lemma read_only_send [simp]: "read_only c (send_text s d st) = read_only c st" "read_only c (send_json E j st) = read_only c st"
  by (simp_all add: send_text_def send_json_def)

lemma read_only_request:
  assumes "read_only c st" "api_processRequest E now random spurious v st = (j, st')" shows "read_only c st'"
  using assms request_readonly [of st E now random spurious v] by (auto simp: read_only_def controlled_def)

lemma read_only_line:
  assumes "read_only c st" shows "read_only c (snd (api_line E now random spurious line st))"
proof -
  have "read_only c (snd (case api_processRequest E now random spurious v st of
      (Ok jRes, st) \<Rightarrow> (True, send_json E jRes st) | (Threw, st) \<Rightarrow> (True, send_json E j st) | (Crashed, st) \<Rightarrow> (False, st)))" for v j
    using read_only_request [OF assms]
    by (cases "api_processRequest E now random spurious v st"; cases "fst (api_processRequest E now random spurious v st)") simp_all
  then show ?thesis using assms by (simp add: api_line_def Let_def split: option.split)
qed

lemma read_only_lines: "read_only c st \<Longrightarrow> read_only c (snd (api_lines E now random spurious st))"
proof (induction E now random spurious st rule: api_lines.induct)
  case (1 E now random spurious st)
  show ?case
  proof (cases "break_line (as_message st)")
    case None
    then show ?thesis using 1(2) by (subst api_lines.simps) simp
  next
    case (Some lr)
    obtain line rest where lr: "lr = (line, rest)" by (cases lr)
    obtain ok st' where st': "api_line E now random spurious line st = (ok, st')" by (cases "api_line E now random spurious line st")
    then have "read_only c st'" using read_only_line [OF 1(2), of E now random spurious line] by simp
    then show ?thesis using 1(1) [OF Some lr [symmetric] st' [symmetric]] Some lr st' by (subst api_lines.simps) simp
  qed
qed

lemma read_only_http: "read_only c st \<Longrightarrow> read_only c (snd (http_request E now m p v st))"
  by (simp add: http_request_def Let_def split: attempt.splits)

lemma read_only_recv: "read_only c st \<Longrightarrow> read_only c (snd (onRecvSocketDataCompleted_api E now random spurious rx st))"
proof -
  assume ro: "read_only c st"
  have "read_only c st'" if "api_lines E now random spurious (st\<lparr>as_message := m\<rparr>) = (b, st')" for m b st'
    using read_only_lines [of c "st\<lparr>as_message := m\<rparr>" E now random spurious] that ro by simp
  then show ?thesis
    using ro by (auto simp: onRecvSocketDataCompleted_api_def Let_def api_disconnect_def recvSocketData_def read_only_http
        split: option.splits list.splits prod.splits)
qed

lemma read_only_sent: "read_only c st \<Longrightarrow> read_only c (snd (onSendSocketDataCompleted_api ec disc st))"
  by (simp add: onSendSocketDataCompleted_api_def api_disconnect_def)

lemma read_only_step:
  assumes "api_step E st st'" and "read_only c st" shows "read_only c st'"
  using assms(1)
proof (cases rule: api_step.cases)
  case (received now random spurious rx)
  then show ?thesis using read_only_recv [OF assms(2), of E now random spurious rx] by simp
next
  case (sent ec disc)
  then show ?thesis using read_only_sent [OF assms(2), of ec disc] by simp
next
  case reading
  then show ?thesis using assms(2) by (simp add: recvSocketData_def)
qed

text \<open>
  C20: whatever a connection of a read-only server receives, in whatever transmissions and with or without a password,
  the pools, the farm, the verbosity and the requested restarts and reboots stay as they were.
\<close>
theorem api_readonly_session:
  assumes "sv_readonly (ApiServer_new portnum password)"
    and "(api_step E)\<^sup>*\<^sup>* (ApiConnection_new (sv_readonly (ApiServer_new portnum password)) password pm verbosity) st"
  shows "as_pool st = pm \<and> as_verbosity st = verbosity \<and> as_restarts st = 0 \<and> as_reboots st = 0"
proof -
  have "read_only (pm, verbosity, 0, 0) st"
    using assms(2)
  proof induction
    case base
    then show ?case using assms(1) by (simp add: read_only_def controlled_def ApiConnection_new_def)
  next
    case (step y z)
    then show ?case using read_only_step by blast
  qed
  then show ?thesis by (simp add: read_only_def controlled_def)
qed

section \<open>The page\<close>

lemma longest_first_hit: "f n = Some x \<Longrightarrow> lo \<le> n \<Longrightarrow> longest_first f lo n = Some x"
  by (cases n) auto

lemma match_group:
  assumes "n = (case hi of None \<Rightarrow> length (takeWhile P t) | Some h \<Rightarrow> min h (length (takeWhile P t)))" and "lo \<le> n"
    and "match_re r (drop n t) = Some gs"
  shows "match_re (Grp pre P lo hi # r) (pre @ t) = Some ((pre @ take n t) # gs)"
  using assms by (auto simp: starts_with_def Let_def intro!: longest_first_hit split: option.splits)

lemma http_get_root: "match_re http_pattern (''GET / HTTP/1.1'' @ rest) = Some [''GET'', ''/'', ''HTTP/1.1'', rest]"
proof -
  have all: "takeWhile (\<lambda>c. True) s = s" for s :: string by (simp add: takeWhile_eq_all_conv)
  let ?r1 = "[Grp [] (\<lambda>c. True) 0 None]"
  have 1: "match_re ?r1 ([] @ rest) = Some [[] @ take (length rest) rest]" by (rule match_group) (simp_all add: all)
  have 2: "match_re (Grp ''HTTP/1.'' is_digit 1 (Some 1) # ?r1) (''HTTP/1.'' @ ''1'' @ rest) = Some [''HTTP/1.'' @ take 1 (''1'' @ rest), rest]"
    by (rule match_group) (use 1 in \<open>simp_all add: is_digit_def del: match_re.simps\<close>)
  let ?r2 = "Lit (CHR '' '') # Grp ''HTTP/1.'' is_digit 1 (Some 1) # ?r1"
  have 3: "match_re ?r2 ('' '' @ ''HTTP/1.'' @ ''1'' @ rest) = Some [''HTTP/1.1'', rest]"
    using 2 by (simp del: match_re.simps(3))
  have 4: "match_re (Grp ''/'' (\<lambda>c. \<not> is_space c) 0 None # ?r2) (''/'' @ '' HTTP/1.1'' @ rest) =
      Some [''/'' @ take 0 ('' HTTP/1.1'' @ rest), ''HTTP/1.1'', rest]"
    by (rule match_group) (use 3 in \<open>simp_all add: is_space_def del: match_re.simps\<close>)
  let ?r3 = "Lit (CHR '' '') # Grp ''/'' (\<lambda>c. \<not> is_space c) 0 None # ?r2"
  have 5: "match_re ?r3 ('' '' @ ''/'' @ '' HTTP/1.1'' @ rest) = Some [''/'', ''HTTP/1.1'', rest]"
    using 4 by (simp del: match_re.simps(3))
  have "match_re (Grp [] (\<lambda>c. 65 \<le> (of_char c :: nat) \<and> (of_char c :: nat) \<le> 90) 1 (Some 6) # ?r3) ([] @ ''GET / HTTP/1.1'' @ rest) =
      Some [[] @ take 3 (''GET / HTTP/1.1'' @ rest), ''/'', ''HTTP/1.1'', rest]"
    by (rule match_group) (use 5 in \<open>simp_all del: match_re.simps\<close>)
  then show ?thesis by (simp add: http_pattern_def del: match_re.simps)
qed

lemma no_client_crashes: "pm_client pm = None \<Longrightarrow> getHttpMinerStatDetail E now pm = Crashed"
  by (cases "active_uri pm") (auto simp: getHttpMinerStatDetail_def getMinerStatDetail_def Let_def active_uri_def split: option.splits)

text \<open>
  C33: a request for the page is answered without authentication, whatever the password of the server, and is fatal as
  long as there is no client of a pool.
\<close>
theorem http_page_unprotected:
  assumes "as_message st @ rx = ''GET / HTTP/1.1'' @ rest" and "rx \<noteq> []" and "as_open st"
  shows "(pm_client (as_pool st) = None \<longrightarrow> \<not> fst (onRecvSocketDataCompleted_api E now random spurious (Some rx) st)) \<and>
    (\<forall>page. getHttpMinerStatDetail E now (as_pool st) = Ok page \<longrightarrow>
      onRecvSocketDataCompleted_api E now random spurious (Some rx) st =
        (True, st\<lparr>as_sent := as_sent st @ [(http_response E ''HTTP/1.1'' ''200 Ok Error'' ''text/html; charset=utf-8'' page, True)],
          as_message := []\<rparr>))"
proof -
  have l: "\<not> length (as_message st @ rx) < 4" using arg_cong [OF assms(1), of length] by simp
  have m: "match_re http_pattern (as_message st @ rx) = Some [''GET'', ''/'', ''HTTP/1.1'', rest]"
    unfolding assms(1) by (rule http_get_root)
  have "onRecvSocketDataCompleted_api E now random spurious (Some rx) st =
      http_request E now ''GET'' ''/'' ''HTTP/1.1'' (st\<lparr>as_message := as_message st @ rx\<rparr>)"
    using assms(2) l m by (simp add: onRecvSocketDataCompleted_api_def Let_def)
  then show ?thesis
    using assms(3) by (auto simp: http_request_def Let_def no_client_crashes send_text_def)
qed

lemma page_total_nil: "\<exists>s. page_total E [] = Ok s"
  by (simp add: page_total_def Let_def getFormattedHashes_def getScaledSize_def scale_loop.simps or_crashed_def)

lemma page_available:
  assumes "f_miners (pm_farm pm) = []" "getActiveConnection pm = Some r" "pm_client pm = Some c" "getCurrentDifficulty pm = Some d"
  shows "\<exists>page. getHttpMinerStatDetail E now pm = Ok page"
  using assms page_total_nil [of E]
  by (auto simp: getHttpMinerStatDetail_def getMinerStatDetail_def Let_def active_uri_def jat_def jobject_def)

section \<open>Examples\<close>

lemma example_json_simps [simp]:
  "isMember (example_json parse) (JObj m) k = Some (map_of m k \<noteq> None)"
  "get_value (example_json parse) (JObj m) k = Some (case map_of m k of Some v \<Rightarrow> v | None \<Rightarrow> JNull)"
  by (simp_all add: isMember_def get_value_def example_json_def split: option.split)

lemma authorizing_example: "authorizing (ap_json example_api) authorize_request ''secret''"
  by (simp add: authorizing_def requests_def has_id_def text_member_def object_member_def example_api_def authorize_request_def)
    (simp add: example_json_def)

lemma authorize_example:
  "api_processRequest example_api 0 0 False authorize_request (protected_connection readonly) =
     (Ok authorize_answer, (protected_connection readonly)\<lparr>as_authenticated := True\<rparr>)"
proof -
  have "j_empty (ap_json example_api) (JUInt 1) = False" "j_isUInt (ap_json example_api) (JUInt 1)"
    "j_asUInt (ap_json example_api) (JUInt 1) = Some 1"
    by (simp_all add: example_api_def example_json_def)
  then have p: "parseRequestId (ap_json example_api) authorize_request (jset ''jsonrpc'' (JStr ''2.0'') JNull) = Ok (True, authorize_answer)"
    by (simp add: parseRequestId_def authorize_request_def authorize_answer_def example_api_def or_threw_def del: and_then_Ok)
  have m: "request_method (ap_json example_api) authorize_request authorize_answer = Ok (True, Some ''api_authorize'', authorize_answer)"
    using authorizing_example by (simp add: request_method_iff authorizing_def requests_def)
  have "\<exists>psw p. object_member (ap_json example_api) authorize_request ''params'' p \<and> text_member (ap_json example_api) p ''psw'' psw \<and>
      compare_passwords psw (as_password (protected_connection readonly)) = 0"
    using authorizing_example
    by (auto simp: authorizing_def compare_passwords_iff protected_connection_def ApiConnection_new_def)
  then show ?thesis
    using p m compare_authorize [of example_api authorize_request authorize_answer "protected_connection readonly"]
    by (simp add: api_processRequest_def asking_def)
qed

theorem api_response_witness:
  "jmember ''jsonrpc'' authorize_answer = Some (JStr ''2.0'') \<and> jmember ''id'' authorize_answer \<noteq> None \<and>
    jmember ''result'' authorize_answer = None \<and> jmember ''error'' authorize_answer = None"
  using api_response_shape [OF authorize_example [of False]] authorizing_example by (simp add: authorizing_def)

theorem api_access_witness:
  "controlled (snd (api_processRequest example_api 0 0 False authorize_request (protected_connection False))) =
     controlled (protected_connection False) \<and>
   as_authenticated (snd (api_processRequest example_api 0 0 False authorize_request (protected_connection False)))"
proof -
  have "\<not> as_authenticated (protected_connection False)" "as_password (protected_connection False) = ''secret''"
    by (simp_all add: protected_connection_def ApiConnection_new_def)
  then show ?thesis using api_access [of "protected_connection False"] authorizing_example by metis
qed

theorem api_readonly_witness:
  "as_pool ((protected_connection True)\<lparr>as_reads := 1, as_message := ''{}''\<rparr>) = example_pool \<and>
   as_verbosity ((protected_connection True)\<lparr>as_reads := 1, as_message := ''{}''\<rparr>) = 0"
proof -
  have ro: "sv_readonly (ApiServer_new (-3333) ''secret'')" by (simp add: ApiServer_new_def)
  have "api_step example_api (protected_connection True) ((protected_connection True)\<lparr>as_reads := 1\<rparr>)"
    using api_step.reading [of example_api "protected_connection True"]
    by (simp add: recvSocketData_def protected_connection_def ApiConnection_new_def)
  moreover have "api_step example_api ((protected_connection True)\<lparr>as_reads := 1\<rparr>) ((protected_connection True)\<lparr>as_reads := 1, as_message := ''{}''\<rparr>)"
    by (rule api_step.received [where rx = "Some ''{}''"])
      (simp add: onRecvSocketDataCompleted_api_def protected_connection_def ApiConnection_new_def)
  ultimately have "(api_step example_api)\<^sup>*\<^sup>* (protected_connection True) ((protected_connection True)\<lparr>as_reads := 1, as_message := ''{}''\<rparr>)"
    by (rule converse_rtranclp_into_rtranclp [OF _ r_into_rtranclp])
  then show ?thesis
    using api_readonly_session [OF ro, of example_api example_pool 0] ro by (simp add: protected_connection_def)
qed

lemma served_page: "\<exists>page. getHttpMinerStatDetail example_api 0 (as_pool served_connection) = Ok page"
  by (rule page_available [where r = 0 and d = 0])
    (simp_all add: served_connection_def ApiConnection_new_def example_pool_def pool_start_def pool_new_def example_farm_def farm_new_def
      getActiveConnection_def example_settings_def getCurrentDifficulty_def WorkPackage_bool_def WorkPackage_default_def
      h256_zero_def h256_eq_def)

theorem http_page_witness:
  "\<not> fst (onRecvSocketDataCompleted_api example_api 0 0 False (Some ''GET / HTTP/1.1'') (protected_connection False)) \<and>
   (\<exists>page. onRecvSocketDataCompleted_api example_api 0 0 False (Some ''GET / HTTP/1.1'') served_connection =
      (True, served_connection\<lparr>as_sent := [(http_response example_api ''HTTP/1.1'' ''200 Ok Error'' ''text/html; charset=utf-8'' page, True)],
        as_message := []\<rparr>))"
proof
  have m: "as_message (protected_connection False) @ ''GET / HTTP/1.1'' = ''GET / HTTP/1.1'' @ []"
    "as_message served_connection @ ''GET / HTTP/1.1'' = ''GET / HTTP/1.1'' @ []"
    by (simp_all add: protected_connection_def served_connection_def ApiConnection_new_def)
  have o: "as_open (protected_connection False)" "as_open served_connection" "as_sent served_connection = []"
    "pm_client (as_pool (protected_connection False)) = None"
    by (simp_all add: protected_connection_def served_connection_def ApiConnection_new_def example_pool_def pool_start_def pool_new_def)
  show "\<not> fst (onRecvSocketDataCompleted_api example_api 0 0 False (Some ''GET / HTTP/1.1'') (protected_connection False))"
    using http_page_unprotected [OF m(1) _ o(1)] o(4) by blast
  show "\<exists>page. onRecvSocketDataCompleted_api example_api 0 0 False (Some ''GET / HTTP/1.1'') served_connection =
      (True, served_connection\<lparr>as_sent := [(http_response example_api ''HTTP/1.1'' ''200 Ok Error'' ''text/html; charset=utf-8'' page, True)],
        as_message := []\<rparr>)"
    using http_page_unprotected [OF m(2) _ o(2), of example_api 0 0 False] served_page o(3) by auto
qed

end
