(* ===== verification/Getwork.thy ===== *)
theory Getwork
  imports PoolClient Json
begin

text \<open>
  The getwork client, \<open>src/libpoolprotocols/getwork/EthGetworkClient.h\<close> and \<open>EthGetworkClient.cpp\<close>: it asks a node for
  work with one HTTP request per connection of the socket, again and again by a timer, and submits hash rates and
  solutions the same way. The asynchronous operations that are outstanding and the waiting timer are part of the state.
  An error of an operation is None for success, and Some whether the operation was aborted. The JSON library is a
  parameter, and \<open>spurious\<close> is a spurious failure of a weak exchange.
\<close>

section \<open>State\<close>

datatype gw_async = Resolving | Connecting | Writing | Reading

text \<open>The timer is None when nothing waits for it, else its milliseconds.\<close>

record 'j getwork =
  gw_conn :: URI
  gw_connected :: bool
  gw_connecting :: bool
  gw_session :: "Session option"
  gw_txPending :: bool
  gw_txQueue :: "string list"
  gw_open :: bool
  gw_endpoints :: "string list"
  gw_endpoint :: string
  gw_request :: string
  gw_pendingJReq :: 'j
  gw_pending_tstamp :: int
  gw_timer :: "nat option"
  gw_farmRecheckPeriod :: nat
  gw_worktimeout :: int
  gw_current :: WorkPackage
  gw_current_tstamp :: int
  gw_max_id :: nat
  gw_async :: "gw_async list"
  gw_events :: "client_event list"

text \<open>The members of a request; \<open>m_solution_submitted_max_id\<close> is not initialised, \<open>junk\<close> is what it holds.\<close>

definition gw_request_json :: "nat \<Rightarrow> string \<Rightarrow> string list \<Rightarrow> jvalue" where
  "gw_request_json i method params =
     jset ''params'' (JArr (map JStr params)) (jset ''method'' (JStr method) (jset ''jsonrpc'' (JStr ''2.0'') (jset ''id'' (JUInt i) JNull)))"

definition jsonGetWork :: "'j json_ops \<Rightarrow> string" where
  "jsonGetWork J = j_write J (gw_request_json 1 ''eth_getWork'' [])"

definition getwork_new :: "'j json_ops \<Rightarrow> URI \<Rightarrow> int \<Rightarrow> nat \<Rightarrow> nat \<Rightarrow> 'j getwork" where
  "getwork_new J u worktimeout farmRecheckPeriod junk =
     \<lparr>gw_conn = u, gw_connected = False, gw_connecting = False, gw_session = None, gw_txPending = False, gw_txQueue = [],
      gw_open = False, gw_endpoints = [], gw_endpoint = [], gw_request = [], gw_pendingJReq = j_value J JNull,
      gw_pending_tstamp = 0, gw_timer = None, gw_farmRecheckPeriod = farmRecheckPeriod, gw_worktimeout = worktimeout,
      gw_current = WorkPackage_default, gw_current_tstamp = 0, gw_max_id = junk, gw_async = [], gw_events = []\<rparr>"

definition gw_report :: "client_event \<Rightarrow> 'j getwork \<Rightarrow> 'j getwork" where
  "gw_report e st = st\<lparr>gw_events := gw_events st @ [e]\<rparr>"

definition gw_start :: "gw_async \<Rightarrow> 'j getwork \<Rightarrow> 'j getwork" where
  "gw_start op st = st\<lparr>gw_async := gw_async st @ [op]\<rparr>"

definition gw_wait :: "nat \<Rightarrow> 'j getwork \<Rightarrow> 'j getwork" where
  "gw_wait ms st = st\<lparr>gw_timer := Some ms\<rparr>"

section \<open>Connecting\<close>

definition getwork_disconnect :: "int \<Rightarrow> 'j getwork \<Rightarrow> 'j getwork attempt" where
  "getwork_disconnect now st =
     (case gw_session st of
        None \<Rightarrow> Crashed
      | Some s \<Rightarrow> Ok (gw_report Disconnected (st\<lparr>gw_connected := False, gw_conn := URI_addDuration (Session_duration now s) (gw_conn st),
          gw_session := None, gw_connecting := False, gw_txPending := False, gw_timer := None, gw_txQueue := [], gw_request := []\<rparr>)))"

definition begin_connect :: "int \<Rightarrow> 'j getwork \<Rightarrow> 'j getwork attempt" where
  "begin_connect now st =
     (case gw_endpoints st of
        [] \<Rightarrow> getwork_disconnect now st
      | e # _ \<Rightarrow> Ok (gw_start Connecting (st\<lparr>gw_endpoint := e, gw_open := True\<rparr>)))"

definition getwork_send :: "int \<Rightarrow> bool \<Rightarrow> string \<Rightarrow> 'j getwork \<Rightarrow> 'j getwork attempt" where
  "getwork_send now spurious sReq st =
     (let st = st\<lparr>gw_txQueue := gw_txQueue st @ [sReq]\<rparr>
      in if gw_txPending st \<or> spurious then Ok st else begin_connect now (st\<lparr>gw_txPending := True\<rparr>))"

text \<open>\<open>address\<close> is the endpoint of a host that is an address.\<close>

definition getwork_connect :: "'j json_ops \<Rightarrow> int \<Rightarrow> bool \<Rightarrow> bool \<Rightarrow> string option \<Rightarrow> 'j getwork \<Rightarrow> 'j getwork attempt" where
  "getwork_connect J now spurious spurious' address st =
     (if gw_connecting st \<or> spurious then Ok st
      else
        let st = st\<lparr>gw_connecting := True, gw_timer := None, gw_endpoints := [], gw_endpoint := []\<rparr>
        in if u_hostType (gw_conn st) = HostDns \<or> u_hostType (gw_conn st) = HostBasic then Ok (gw_start Resolving st)
           else and_then (or_threw address) (\<lambda>a. getwork_send now spurious' (jsonGetWork J) (st\<lparr>gw_endpoints := [a]\<rparr>)))"

text \<open>The endpoints found, None for an error.\<close>

definition handle_resolve :: "'j json_ops \<Rightarrow> int \<Rightarrow> bool \<Rightarrow> string list option \<Rightarrow> 'j getwork \<Rightarrow> 'j getwork attempt" where
  "handle_resolve J now spurious endpoints st =
     (case endpoints of
        None \<Rightarrow> getwork_disconnect now st
      | Some es \<Rightarrow> getwork_send now spurious (jsonGetWork J) (st\<lparr>gw_endpoints := gw_endpoints st @ es\<rparr>))"

text \<open>The endpoint does not respond: it is dropped and the next one tried. Popping an empty queue is undefined.\<close>

definition next_endpoint :: "int \<Rightarrow> 'j getwork \<Rightarrow> 'j getwork attempt" where
  "next_endpoint now st = (case gw_endpoints st of [] \<Rightarrow> Crashed | _ # es \<Rightarrow> begin_connect now (st\<lparr>gw_endpoints := es\<rparr>))"

definition gw_session_started :: "int \<Rightarrow> 'j getwork \<Rightarrow> 'j getwork" where
  "gw_session_started now st =
     (if gw_connecting st
      then (gw_report Connected (st\<lparr>gw_connected := True,
              gw_session := Some ((Session_new now)\<lparr>ss_subscribed := True, ss_authorized := True\<rparr>), gw_connecting := False\<rparr>))
             \<lparr>gw_current_tstamp := now\<rparr>
      else st)"

definition post_request :: "URI \<Rightarrow> string \<Rightarrow> string" where
  "post_request u line =
     ''POST '' @ (if u_path u = [] then ''/'' else u_path u) @ '' HTTP/1.0'' @ crlf @
     ''Host: '' @ u_host u @ crlf @
     ''Content-Type: application/json'' @ crlf @
     ''Content-Length: '' @ to_string (length line) @ crlf @
     ''Connection: close'' @ crlf @ crlf @ line"

text \<open>The first line that is not empty; the lines are written by the client itself and can be read back.\<close>

definition submit_first :: "'j json_ops \<Rightarrow> int \<Rightarrow> 'j getwork \<Rightarrow> 'j getwork" where
  "submit_first J now st =
     (case dropWhile (\<lambda>l. l = []) (gw_txQueue st) of
        [] \<Rightarrow> st\<lparr>gw_txQueue := []\<rparr>
      | line # rest \<Rightarrow> gw_start Writing (st\<lparr>gw_txQueue := rest,
          gw_pendingJReq := (case j_parse J line of Some v \<Rightarrow> v | None \<Rightarrow> j_value J JNull), gw_pending_tstamp := now,
          gw_request := gw_request st @ post_request (gw_conn st) line\<rparr>))"

definition handle_connect :: "'j json_ops \<Rightarrow> int \<Rightarrow> bool option \<Rightarrow> 'j getwork \<Rightarrow> 'j getwork attempt" where
  "handle_connect J now ec st =
     (if ec = None \<and> gw_open st then
        let st = gw_session_started now st
        in if gw_txQueue st \<noteq> [] then Ok (submit_first J now st) else Ok (st\<lparr>gw_txPending := False\<rparr>)
      else if ec = Some True then Ok st
      else next_endpoint now st)"

definition handle_write :: "int \<Rightarrow> bool option \<Rightarrow> 'j getwork \<Rightarrow> 'j getwork attempt" where
  "handle_write now ec st =
     (case ec of
        None \<Rightarrow> Ok (gw_start Reading (st\<lparr>gw_request := []\<rparr>))
      | Some aborted \<Rightarrow> if aborted then Ok st else next_endpoint now st)"

section \<open>Responses\<close>

definition new_work :: "'j json_ops \<Rightarrow> 'j \<Rightarrow> WorkPackage attempt" where
  "new_work J JPrm =
     and_then (or_threw (Option.bind (at_string J JPrm 0 []) h256)) (\<lambda>header.
     and_then (or_threw (Option.bind (at_string J JPrm 1 []) h256)) (\<lambda>seed.
     and_then (or_threw (Option.bind (at_string J JPrm 2 []) h256)) (\<lambda>boundary.
     and_then (or_threw (at_string J JPrm 3 [])) (\<lambda>block.
       Ok (WorkPackage_default\<lparr>wp_header := header, wp_seed := seed, wp_boundary := boundary,
         wp_block := to_int (strtoul block 0), wp_job := hash_hex header PrefixDontAdd\<rparr>)))))"

definition getwork_job :: "'j json_ops \<Rightarrow> int \<Rightarrow> 'j \<Rightarrow> 'j getwork \<Rightarrow> 'j getwork attempt" where
  "getwork_job J now JRes st =
     and_then (or_threw (isMember J JRes ''result'')) (\<lambda>m.
       if \<not> m then Ok st
       else
         and_then (or_threw (get_value J JRes ''result'')) (\<lambda>JPrm. and_then (new_work J JPrm) (\<lambda>newWp.
           let st = (if \<not> h256_eq (wp_header (gw_current st)) (wp_header newWp)
                     then gw_report (WorkReceived newWp) (st\<lparr>gw_current := newWp, gw_current_tstamp := now\<rparr>) else st)
           in Ok (gw_wait (gw_farmRecheckPeriod st) st))))"

definition getwork_verdict :: "'j json_ops \<Rightarrow> bool \<Rightarrow> 'j \<Rightarrow> bool attempt" where
  "getwork_verdict J isSuccess JRes =
     (if \<not> isSuccess then Ok False
      else and_then (or_threw (get_value J JRes ''result'')) (\<lambda>r.
        if j_isConvertibleTo J r BooleanValue then or_threw (j_asBool J r) else Ok True))"

definition getwork_solution :: "'j json_ops \<Rightarrow> int \<Rightarrow> nat \<Rightarrow> bool \<Rightarrow> 'j \<Rightarrow> 'j getwork \<Rightarrow> 'j getwork attempt" where
  "getwork_solution J now i isSuccess JRes st =
     and_then (getwork_verdict J isSuccess JRes) (\<lambda>ok.
       let delay = cdiv (now - gw_pending_tstamp st) 1000
       in Ok (gw_report (if ok then SolutionAccepted delay (i - 40) False else SolutionRejected delay (i - 40)) st))"

definition getwork_response :: "'j json_ops \<Rightarrow> int \<Rightarrow> 'j \<Rightarrow> 'j getwork \<Rightarrow> 'j getwork attempt" where
  "getwork_response J now JRes st =
     and_then (or_threw (isMember J JRes ''id'')) (\<lambda>m.
       if \<not> m then Ok st
       else
         and_then (or_threw (get_uint J (gw_pendingJReq st) ''id'' 0)) (\<lambda>i.
         and_then (or_threw (get_value J JRes ''error'')) (\<lambda>e.
         and_then (if j_empty J e then Ok [] else or_threw (processError J JRes)) (\<lambda>errReason.
           if i = 0 \<or> i = 1 then if j_empty J e then getwork_job J now JRes st else Ok (gw_wait 30000 st)
           else if i = 9 then Ok st
           else if 40 \<le> i \<and> i \<le> gw_max_id st then getwork_solution J now i (j_empty J e) JRes st
           else Ok st))))"

definition status_ok :: "string \<Rightarrow> bool" where
  "status_ok line \<longleftrightarrow> take 7 line = ''HTTP/1.'' \<and>
     (case string_find line '' '' of None \<Rightarrow> False | Some k \<Rightarrow> take 3 (drop (k + 1) line) = ''200'')"

definition body_line :: "'j json_ops \<Rightarrow> int \<Rightarrow> string \<Rightarrow> 'j getwork \<Rightarrow> 'j getwork attempt" where
  "body_line J now line st = (case j_parse J line of Some jRes \<Rightarrow> getwork_response J now jRes st | None \<Rightarrow> Ok st)"

text \<open>The lines of the response; the result is whether the handler goes on after them.\<close>

function response_lines :: "'j json_ops \<Rightarrow> int \<Rightarrow> nat \<Rightarrow> bool \<Rightarrow> string \<Rightarrow> 'j getwork \<Rightarrow> (bool \<times> 'j getwork) attempt" where
  "response_lines J now linenum isHeader rx_message st =
     (case break_crlf rx_message of
        None \<Rightarrow> Ok (True, st)
      | Some (line, rest) \<Rightarrow>
          if line = [] then
            if break_crlf rest \<noteq> None then response_lines J now (linenum + 1) False rest st
            else and_then (body_line J now (filter (\<lambda>c. c \<noteq> CHR 0x0A) rest) st) (\<lambda>st. Ok (True, st))
          else if isHeader \<and> linenum = 0 \<and> \<not> status_ok line then and_then (getwork_disconnect now st) (\<lambda>st. Ok (False, st))
          else if isHeader then response_lines J now (linenum + 1) True rest st
          else and_then (body_line J now line st) (response_lines J now (linenum + 1) False rest))"
  by pat_completeness auto
termination
  by (relation "measure (\<lambda>(J, now, linenum, isHeader, rx_message, st). length rx_message)") (auto dest: break_crlf_shorter)

declare response_lines.simps [simp del]

definition handle_read :: "'j json_ops \<Rightarrow> int \<Rightarrow> bool option \<Rightarrow> string \<Rightarrow> 'j getwork \<Rightarrow> 'j getwork attempt" where
  "handle_read J now ec rx_message st =
     (case ec of
        Some aborted \<Rightarrow> if aborted then Ok st else getwork_disconnect now st
      | None \<Rightarrow>
          let st = st\<lparr>gw_open := False\<rparr>
          in if rx_message = [] then getwork_disconnect now st
             else and_then (response_lines J now 0 True rx_message st) (\<lambda>(go_on, st).
               if \<not> go_on then Ok st
               else if gw_txQueue st \<noteq> [] then begin_connect now st
               else Ok (st\<lparr>gw_txPending := False\<rparr>)))"

section \<open>Submissions\<close>

definition getwork_submitHashrate :: "'j json_ops \<Rightarrow> int \<Rightarrow> bool \<Rightarrow> u64 \<Rightarrow> string \<Rightarrow> 'j getwork \<Rightarrow> 'j getwork attempt" where
  "getwork_submitHashrate J now spurious rate i st =
     (if gw_session st = None then Ok st
      else getwork_send now spurious (j_write J (gw_request_json 9 ''eth_submitHashrate'' [toHex_u64 rate PrefixAdd 16, i])) st)"

definition getwork_submitSolution :: "'j json_ops \<Rightarrow> int \<Rightarrow> bool \<Rightarrow> Solution \<Rightarrow> 'j getwork \<Rightarrow> 'j getwork attempt" where
  "getwork_submitSolution J now spurious sol st =
     (if gw_session st = None then Ok st
      else
        let i = 40 + sol_midx sol
        in getwork_send now spurious (j_write J (gw_request_json i ''eth_submitWork''
               [''0x'' @ toHex_u64 (sol_nonce sol) PrefixDontAdd 16, ''0x'' @ hash_hex (wp_header (sol_work sol)) PrefixDontAdd,
                ''0x'' @ hash_hex (sol_mixHash sol) PrefixDontAdd]))
             (st\<lparr>gw_max_id := max (gw_max_id st) i\<rparr>))"

definition getwork_timer_elapsed :: "'j json_ops \<Rightarrow> int \<Rightarrow> bool \<Rightarrow> bool \<Rightarrow> 'j getwork \<Rightarrow> 'j getwork attempt" where
  "getwork_timer_elapsed J now spurious ec st =
     (if ec then Ok st
      else if gw_worktimeout st < cdiv (now - gw_current_tstamp st) 1000000 then
        (case gw_endpoints st of [] \<Rightarrow> Crashed | _ # es \<Rightarrow> getwork_disconnect now (st\<lparr>gw_endpoints := es\<rparr>))
      else getwork_send now spurious (jsonGetWork J) st)"

section \<open>Steps\<close>

text \<open>The completion of an outstanding operation, and the expiry of the timer: what the client does on its own.\<close>

inductive getwork_step :: "'j json_ops \<Rightarrow> 'j getwork \<Rightarrow> 'j getwork attempt \<Rightarrow> bool" for J where
  resolved: "Resolving \<in> set (gw_async st) \<Longrightarrow>
    getwork_step J st (handle_resolve J now spurious es (st\<lparr>gw_async := remove1 Resolving (gw_async st)\<rparr>))"
| connected: "Connecting \<in> set (gw_async st) \<Longrightarrow>
    getwork_step J st (handle_connect J now ec (st\<lparr>gw_async := remove1 Connecting (gw_async st)\<rparr>))"
| written: "Writing \<in> set (gw_async st) \<Longrightarrow>
    getwork_step J st (handle_write now ec (st\<lparr>gw_async := remove1 Writing (gw_async st)\<rparr>))"
| read: "Reading \<in> set (gw_async st) \<Longrightarrow>
    getwork_step J st (handle_read J now ec rx (st\<lparr>gw_async := remove1 Reading (gw_async st)\<rparr>))"
| timer: "gw_timer st \<noteq> None \<Longrightarrow> getwork_step J st (getwork_timer_elapsed J now spurious False (st\<lparr>gw_timer := None\<rparr>))"

inductive_cases getwork_stepE: "getwork_step J st r"

section \<open>Notions\<close>

text \<open>
  An answer of the node: header lines, the first with a good status, an empty line and a body. A client that waits for the
  answer to its request for work.
\<close>

definition plain_text :: "string \<Rightarrow> bool" where
  "plain_text s \<longleftrightarrow> list_all (\<lambda>c. c \<noteq> CHR 0x0D) s"

definition http_answer :: "string list \<Rightarrow> string \<Rightarrow> string \<Rightarrow> bool" where
  "http_answer hs body rx \<longleftrightarrow> rx = concat (map (\<lambda>l. l @ crlf) hs) @ crlf @ body \<and> list_all plain_text hs \<and> list_all (\<lambda>l. l \<noteq> []) hs \<and>
     plain_text body \<and> hs \<noteq> [] \<and> status_ok (hd hs)"

definition awaiting_work :: "'j json_ops \<Rightarrow> 'j getwork \<Rightarrow> bool" where
  "awaiting_work J st \<longleftrightarrow> gw_connected st \<and> gw_session st \<noteq> None \<and> gw_async st = [Reading] \<and> gw_timer st = None \<and> gw_txQueue st = [] \<and>
     get_uint J (gw_pendingJReq st) ''id'' 0 = Some 1"

text \<open>
  Bodies with a job, and bodies without one that report no error either.
\<close>

definition job_answer :: "'j json_ops \<Rightarrow> string \<Rightarrow> WorkPackage \<Rightarrow> bool" where
  "job_answer J b w \<longleftrightarrow> (\<exists>r e p. j_parse J b = Some r \<and> isMember J r ''id'' = Some True \<and> get_value J r ''error'' = Some e \<and> j_empty J e \<and>
     isMember J r ''result'' = Some True \<and> get_value J r ''result'' = Some p \<and> new_work J p = Ok w)"

definition useless_answer :: "'j json_ops \<Rightarrow> string \<Rightarrow> bool" where
  "useless_answer J b \<longleftrightarrow> j_parse J b = None \<or>
     (\<exists>r. j_parse J b = Some r \<and> (isMember J r ''id'' = Some False \<or>
        isMember J r ''id'' = Some True \<and> (\<exists>e. get_value J r ''error'' = Some e \<and> j_empty J e) \<and> isMember J r ''result'' = Some False))"

text \<open>
  A client that waits, and answers of a node.
\<close>

definition getwork_json :: "jvalue json_ops" where
  "getwork_json = example_json (\<lambda>s. if s = ''job'' then Some (JObj [(''id'', JUInt 1), (''result'', JArr [JStr (hash_hex (replicate 32 7) PrefixAdd),
     JStr (hash_hex (replicate 32 2) PrefixAdd), JStr (hash_hex (replicate 32 3) PrefixAdd), JStr ''0x10''])]) else None)"

definition asking_client :: "jvalue getwork" where
  "asking_client = (getwork_new getwork_json (URI_init ''http://node'') 180 500 0)\<lparr>gw_connected := True, gw_session := Some (Session_new 0),
     gw_async := [Reading], gw_txPending := True, gw_open := True, gw_pendingJReq := JObj [(''id'', JUInt 1)]\<rparr>"

definition ok_answer :: "string \<Rightarrow> string" where
  "ok_answer body = ''HTTP/1.1 200 OK'' @ crlf @ crlf @ body"

section \<open>Answers to requests for work\<close>

lemma body_lines:
  assumes "plain_text body"
  shows "response_lines J now n h (crlf @ body) st = and_then (body_line J now (filter (\<lambda>c. c \<noteq> CHR 0x0A) body) st) (\<lambda>st. Ok (True, st))"
  using break_crlf_line [of "[]" body] break_crlf_None [of body] assms
  by (subst response_lines.simps) (simp add: plain_text_def)

lemma header_lines:
  assumes "list_all plain_text hs" "list_all (\<lambda>l. l \<noteq> []) hs" "plain_text body" "n = 0 \<longrightarrow> hs \<noteq> [] \<and> status_ok (hd hs)"
  shows "response_lines J now n True (concat (map (\<lambda>l. l @ crlf) hs) @ crlf @ body) st =
    and_then (body_line J now (filter (\<lambda>c. c \<noteq> CHR 0x0A) body) st) (\<lambda>st. Ok (True, st))"
  using assms
proof (induction hs arbitrary: n)
  case Nil
  then show ?case using body_lines by simp
next
  case (Cons l hs)
  then have "break_crlf (l @ crlf @ concat (map (\<lambda>l. l @ crlf) hs) @ crlf @ body) = Some (l, concat (map (\<lambda>l. l @ crlf) hs) @ crlf @ body)"
    by (intro break_crlf_line) (simp add: plain_text_def)
  then show ?case using Cons by (subst response_lines.simps) auto
qed

lemma read_answer:
  assumes "http_answer hs body rx" "body_line J now (filter (\<lambda>c. c \<noteq> CHR 0x0A) body) (st\<lparr>gw_open := False\<rparr>) = Ok st'" "gw_txQueue st' = []"
  shows "handle_read J now None rx st = Ok (st'\<lparr>gw_txPending := False\<rparr>)"
proof -
  have "rx \<noteq> []" using assms(1) by (auto simp: http_answer_def crlf_def)
  moreover have "response_lines J now 0 True rx (st\<lparr>gw_open := False\<rparr>) = Ok (True, st')"
    using assms(1,2) header_lines [of hs body 0 J now "st\<lparr>gw_open := False\<rparr>"] by (simp add: http_answer_def)
  ultimately show ?thesis using assms(3) by (simp add: handle_read_def Let_def del: and_then_Ok)
qed

text \<open>
  C29: a job in the answer to a request for work is reported unless its header is the current one, and the timer is set for the
  next request. An answer without a job that reports no error leaves the client connected with no outstanding operation
  and no timer, so that it never does anything on its own again.
\<close>
theorem getwork_answers:
  assumes "awaiting_work J st" and "http_answer hs body rx" and "b = filter (\<lambda>c. c \<noteq> CHR 0x0A) body"
  shows "(job_answer J b w \<longrightarrow>
      (\<exists>st'. handle_read J now None rx (st\<lparr>gw_async := []\<rparr>) = Ok st' \<and> gw_timer st' = Some (gw_farmRecheckPeriod st) \<and>
        h256_eq (wp_header (gw_current st')) (wp_header w) \<and>
        gw_events st' = gw_events st @ (if h256_eq (wp_header (gw_current st)) (wp_header w) then [] else [WorkReceived w]))) \<and>
    (useless_answer J b \<longrightarrow>
      (\<exists>st'. handle_read J now None rx (st\<lparr>gw_async := []\<rparr>) = Ok st' \<and> gw_connected st' \<and> gw_events st' = gw_events st \<and>
        (\<forall>r. \<not> getwork_step J st' r)))"
proof -
  let ?st = "st\<lparr>gw_async := [], gw_open := False\<rparr>"
  have r: "handle_read J now None rx (st\<lparr>gw_async := []\<rparr>) = Ok (st'\<lparr>gw_txPending := False\<rparr>)"
    if "body_line J now b ?st = Ok st'" "gw_txQueue st' = []" for st'
    using read_answer [OF assms(2)] that assms(3) by simp
  show ?thesis
  proof (intro conjI impI)
    assume "job_answer J b w"
    then have "body_line J now b ?st = Ok (gw_wait (gw_farmRecheckPeriod st)
        (if \<not> h256_eq (wp_header (gw_current st)) (wp_header w) then gw_report (WorkReceived w) (?st\<lparr>gw_current := w, gw_current_tstamp := now\<rparr>) else ?st))"
      using assms(1) by (auto simp: body_line_def job_answer_def getwork_response_def getwork_job_def awaiting_work_def gw_report_def Let_def)
    from r [OF this] show "\<exists>st'. handle_read J now None rx (st\<lparr>gw_async := []\<rparr>) = Ok st' \<and> gw_timer st' = Some (gw_farmRecheckPeriod st) \<and>
        h256_eq (wp_header (gw_current st')) (wp_header w) \<and>
        gw_events st' = gw_events st @ (if h256_eq (wp_header (gw_current st)) (wp_header w) then [] else [WorkReceived w])"
      using assms(1) by (auto simp: gw_wait_def gw_report_def awaiting_work_def h256_eq_def)
  next
    assume "useless_answer J b"
    then have "body_line J now b ?st = Ok ?st"
      using assms(1) by (auto simp: body_line_def useless_answer_def getwork_response_def getwork_job_def awaiting_work_def)
    then have "handle_read J now None rx (st\<lparr>gw_async := []\<rparr>) = Ok (?st\<lparr>gw_txPending := False\<rparr>)"
      using r assms(1) by (simp add: awaiting_work_def)
    moreover have "\<not> getwork_step J (?st\<lparr>gw_txPending := False\<rparr>) r" for r
      using assms(1) by (auto simp: awaiting_work_def elim!: getwork_stepE)
    ultimately show "\<exists>st'. handle_read J now None rx (st\<lparr>gw_async := []\<rparr>) = Ok st' \<and> gw_connected st' \<and> gw_events st' = gw_events st \<and>
        (\<forall>r. \<not> getwork_step J st' r)"
      using assms(1) by (auto simp: awaiting_work_def)
  qed
qed

lemma ok_answer_http: "plain_text body \<Longrightarrow> http_answer [''HTTP/1.1 200 OK''] body (ok_answer body)"
  by (simp add: http_answer_def ok_answer_def plain_text_def status_ok_def string_find_def starts_with_def)

lemma asking_client_awaits: "awaiting_work getwork_json asking_client"
  by (simp add: awaiting_work_def asking_client_def getwork_new_def get_uint_def getwork_json_def example_json_def)

lemma example_job_answer: "\<exists>w. job_answer getwork_json ''job'' w \<and> wp_header w = replicate 32 7"
  by (simp add: job_answer_def getwork_json_def example_json_def isMember_def get_value_def new_work_def at_string_def h256_hash_hex)

theorem getwork_answers_witness:
  "(\<exists>w st'. handle_read getwork_json 5 None (ok_answer ''job'') (asking_client\<lparr>gw_async := []\<rparr>) = Ok st' \<and> gw_timer st' = Some 500 \<and>
      gw_events st' = [WorkReceived w]) \<and>
   (\<exists>st'. handle_read getwork_json 5 None (ok_answer ''{'') (asking_client\<lparr>gw_async := []\<rparr>) = Ok st' \<and> gw_connected st' \<and>
      (\<forall>r. \<not> getwork_step getwork_json st' r))"
proof
  obtain w where w: "job_answer getwork_json ''job'' w" "wp_header w = replicate 32 7" using example_job_answer by blast
  have "\<not> h256_eq (wp_header (gw_current asking_client)) (wp_header w)"
    by (simp add: w(2) asking_client_def getwork_new_def WorkPackage_default_def h256_zero_def h256_eq_iff hash_empty_def)
  moreover have "gw_farmRecheckPeriod asking_client = 500" "gw_events asking_client = []" by (simp_all add: asking_client_def getwork_new_def)
  moreover have "http_answer [''HTTP/1.1 200 OK''] ''job'' (ok_answer ''job'')" by (rule ok_answer_http) (simp add: plain_text_def)
  ultimately show "\<exists>w st'. handle_read getwork_json 5 None (ok_answer ''job'') (asking_client\<lparr>gw_async := []\<rparr>) = Ok st' \<and>
      gw_timer st' = Some 500 \<and> gw_events st' = [WorkReceived w]"
    using getwork_answers [OF asking_client_awaits, of _ _ _ "''job''" w 5] w(1) by fastforce
next
  have "http_answer [''HTTP/1.1 200 OK''] ''{'' (ok_answer ''{'')" by (rule ok_answer_http) (simp add: plain_text_def)
  moreover have "useless_answer getwork_json ''{''" by (simp add: useless_answer_def getwork_json_def example_json_def)
  ultimately show "\<exists>st'. handle_read getwork_json 5 None (ok_answer ''{'') (asking_client\<lparr>gw_async := []\<rparr>) = Ok st' \<and> gw_connected st' \<and>
      (\<forall>r. \<not> getwork_step getwork_json st' r)"
    using getwork_answers [OF asking_client_awaits, of _ _ _ "''{''" WorkPackage_default 5] by fastforce
qed

end
