(* ===== verification/Spec2Isabelle.thy ===== *)
theory Spec2Isabelle
  imports Managed KernelGen StratumMessages Api Getwork
begin

text \<open>
  Verification of the quai GPU miner, the C++ program under \<open>src/\<close>.

  \<^bold>\<open>The program.\<close> \<open>libethash\<close> computes the proof of work: Keccak, the Ethash light cache and dataset, the ProgPoW hash, and
  the contexts that threads share. \<open>libprogpow\<close> generates the kernels that compute the same hash on a device. A farm
  (\<open>libethcore/Farm\<close>) owns the miners, gives each a segment of the nonces of a job, verifies the solutions they find and
  keeps their accounts. The pool manager (\<open>libpoolprotocols/PoolManager\<close>) chooses an endpoint from a list of URIs, creates
  the client of its protocol, passes the jobs of the client to the farm and the solutions of the farm to the client, and
  returns verdicts to the accounts. The programming interface (\<open>libapicore\<close>) reports on farm and pools and changes them on
  request.

  \<^bold>\<open>How it is modelled.\<close> Machine integers are words of their width, hashes are lists of bytes or words, structs and classes
  are records, and a member function is a function from the old to the new state. Exceptions and uses of null pointers are
  values: a sum or option, \<open>outcome\<close> in the stratum client, \<open>attempt\<close> in the getwork client and the interface. Threads,
  timers and network events are interleaved steps of inductive relations. Third-party code (Boost, JSON, sockets, memory
  allocation) is an argument; what a theorem needs of it is a hypothesis, and the examples instantiate it. Floating-point
  numbers are reals, without rounding.

  \<^bold>\<open>Theories, with the files they model.\<close>

  \<^item> \<open>Prelude\<close>: words, slices of lists, C division, big-endian values. \<open>CppString\<close>: operations of \<open>std::string\<close>.
  \<^item> \<open>BitOps\<close> (\<open>bit_manipulation.h\<close>, \<open>builtins.h\<close>, \<open>kiss99.hpp\<close>, \<open>endianness.hpp\<close>), \<open>Keccak\<close> (\<open>keccak.c\<close>, \<open>keccakf800.c\<close>,
    \<open>keccakf1600.c\<close>) and \<open>Primes\<close> (\<open>primes.c\<close>): permutations and sponge agree with the reference definitions, the prime
    search is correct.
  \<^item> \<open>Ethash\<close> (\<open>ethash.cpp\<close>) and \<open>Progpow\<close> (\<open>progpow.cpp\<close>): one operation per function. The locale \<open>dataset_lookup\<close> is the
    contract of a lookup in the dataset, interpreted by the light and the lazily filled lookup of both item sizes;
    \<open>pow_hash\<close> is that of a hash that the search calls. The lemmas show that full and light contexts agree, that the search
    is sound and complete, that the light cache is that of the specification, and the bounds of the sizes.
  \<^item> \<open>Managed\<close> (\<open>managed.cpp\<close>, \<open>EthashAux.cpp\<close>): shared and thread-local contexts under every interleaving.
  \<^item> \<open>KernelGen\<close> (\<open>ProgPow.cpp\<close>, and of \<open>CLMiner_kernel.cl\<close> the fill of the registers, the main loop, the reduction and
    \<open>fast_mod\<close>): the text is the print of a program, and the kernel, run by the lanes of a group on a seed, computes the
    mix hash of the verifier. That device memory holds the dataset and the cache is a hypothesis.
  \<^item> \<open>CommonData\<close> (\<open>CommonData.h\<close>, \<open>CommonData.cpp\<close>) and \<open>FixedHash\<close> (\<open>FixedHash.h\<close>): hexadecimal text, big-endian numbers,
    targets, units; comparison and arithmetic of hashes.
  \<^item> \<open>Worker\<close> (\<open>Worker.cpp\<close>), \<open>Miner\<close> (\<open>Miner.h\<close>, \<open>Miner.cpp\<close>) and \<open>Farm\<close> (\<open>Farm.h\<close>, \<open>Farm.cpp\<close>): control of threads with its
    liveness, pausing, serialised loading; nonce segments, verification and accounts, and the invariant of the farm.
  \<^item> \<open>PoolURI\<close> (\<open>PoolURI.cpp\<close>), \<open>PoolClient\<close> (\<open>PoolClient.h\<close>) and \<open>PoolManager\<close> (\<open>PoolManager.cpp\<close>): parsing of endpoints, the
    events of a client, and the manager on top of the farm, with its invariant over all interleavings of events.
  \<^item> \<open>Json\<close>: the JSON operations used, numeric conversions of the standard library, results, lines.
  \<^item> \<open>Stratum\<close> (\<open>EthStratumClient.cpp\<close>) has the handlers; \<open>StratumInvariant\<close> the invariant, with the locale
    \<open>handler_invariant\<close> that carries a predicate through every handler, and the termination of the detection of the
    protocol; \<open>StratumMessages\<close> the behaviour on messages.
  \<^item> \<open>Getwork\<close> (\<open>EthGetworkClient.cpp\<close>): the client, and its behaviour on answers of a node.
  \<^item> \<open>Api\<close> (\<open>ApiServer.cpp\<close>): server, connections, methods, figures and page; access control and the shape of responses. The
    locale \<open>request_reader\<close> is the contract of the overloads of \<open>getRequestValue\<close>.
  \<^item> This theory: a solution travels from the client back to the account of its miner, and the nonce the pool sees is the
    one that was found.

  \<^bold>\<open>Bounds.\<close> There is no fuel: every function ends, and loops that may wait forever are steps of a relation. Theorems on
  epochs hold up to 32639, where the sizes of the dataset still fit. The segment theorems assume that the segments fit into
  the 64 bits of a nonce. The counters of the accounts wrap around as in the code.

  \<^bold>\<open>Not modelled.\<close>

  \<^item> \<open>libethash-cl/CL/opencl.hpp\<close> is the third-party C++ binding of OpenCL.
  \<^item> The device code in CUDA and OpenCL (\<open>keccak.cuh\<close>, \<open>cuda_helper.h\<close>, \<open>dagger_shuffled.cuh\<close>, the \<open>.cu\<close> files,
    \<open>kernels/cl/ethash.cl\<close>, and of \<open>CLMiner_kernel.cl\<close> the Keccak functions, the DAG generation, the load of the cache, the
    exchange between lanes through local memory and the result buffer) would need a semantics of these languages.
  \<^item> \<open>CLMiner\<close> and \<open>CUDAMiner\<close> mostly call the device drivers, whose behaviour would be assumed. \<open>CPUMiner\<close> is modelled only
    in \<open>kick_miner\<close>: the rest binds threads, reads processor information and calls the search of \<open>Ethash\<close>.
  \<^item> \<open>SimulateClient\<close> is a client for benchmarks that judges solutions itself.
  \<^item> \<open>libhwmon\<close> wraps vendor libraries and the file system; the farm gets the readings as arguments.
  \<^item> \<open>main.cpp\<close> parses the command line with a third-party library and starts the components.
  \<^item> \<open>Log\<close>, \<open>Terminal\<close>, \<open>DBusInt\<close>, \<open>Guards.h\<close>, \<open>Exceptions.h\<close>, \<open>vector_ref.h\<close>: output, locks, error types and array views without
    behaviour of their own that the properties depend on.
  \<^item> Rounding of floating-point numbers, log output, the Windows and macOS variants, and the memory model below the
    atomic operations.
\<close>

section \<open>Definitions\<close>

text \<open>
  The handlers the pool manager sets for the verdicts of a client.
\<close>

definition deliver :: "int \<Rightarrow> client_event \<Rightarrow> pool_manager \<Rightarrow> pool_manager" where
  "deliver now ev pm =
     (case ev of
        SolutionAccepted _ minerIdx _ \<Rightarrow> snd (on_solution_accepted now minerIdx pm)
      | SolutionRejected _ minerIdx \<Rightarrow> on_solution_rejected minerIdx pm
      | _ \<Rightarrow> pm)"

text \<open>The hexadecimal digits of a number in a given width.\<close>

fun hexes :: "nat \<Rightarrow> nat \<Rightarrow> string" where
  "hexes 0 n = []"
| "hexes (Suc k) n = hexes k (n div 16) @ [digit_char (n mod 16)]"

text \<open>A client that may submit, a solution of the second miner and the reply that accepts it; a client with a part of the nonce.\<close>

definition authorized_client :: stratum where
  "authorized_client = listening_client\<lparr>sc_session := Some ((Session_new 0)\<lparr>ss_subscribed := True, ss_authorized := True\<rparr>)\<rparr>"

definition second_solution :: Solution where
  "second_solution = \<lparr>sol_nonce = 7, sol_mixHash = h256_zero, sol_work = WorkPackage_default, sol_tstamp = 0, sol_midx = 1\<rparr>"

definition accepting_reply :: jvalue where
  "accepting_reply = JObj [(''id'', JUInt 41), (''result'', JBool True)]"

definition subscribed_client :: stratum where
  "subscribed_client = listening_client\<lparr>sc_conn := (sc_conn listening_client)\<lparr>u_stratumMode := 2\<rparr>\<rparr>"

section \<open>Credited solutions\<close>

lemma submit_max_id:
  assumes "submitSolution E now sol st = (Returned, st')" "isAuthorized (sc_session st)"
  shows "40 + sol_midx sol \<le> sc_max_id st'"
  using assms by (auto simp: submitSolution_def isAuthorized_def reading_def returning_def split: option.splits)

lemma accepted_counters:
  assumes "m < length (te_miners (f_telemetry (pm_farm pm)))"
  shows "sa_accepted (getSolutions t i (pm_farm (snd (on_solution_accepted now m pm)))) =
      sa_accepted (getSolutions t i (pm_farm pm)) + (if i = m then 1 else 0) \<and>
    sa_accepted (getSolutions_farm (pm_farm (snd (on_solution_accepted now m pm)))) = sa_accepted (getSolutions_farm (pm_farm pm)) + 1"
  using assms
  by (auto simp: on_solution_accepted_def accountSolution_def Let_def getSolutions_def getSolutions_farm_def account_in_def account_def nth_list_update)

text \<open>
  C11: a submitted solution is credited to the miner that found it: the reply to it makes the client report a verdict on the
  miner, and the handler of the pool manager adds one accepted solution to the account of that miner and of the farm,
  and to no other; a rejection changes no account.
\<close>
theorem solution_credited:
  assumes "submitSolution E now sol st = (Returned, st1)" and "isAuthorized (sc_session st)"
    and "sc_max_id st1 \<le> sc_max_id st2"
    and "reply (en_json E) (40 + sol_midx sol) msg" and "get_value (en_json E) msg ''result'' = Some r"
    and "solution_verdict (en_json E) (conn_mode st2) (reply_ok (en_json E) msg) r msg = Some (ok, stale)"
    and "sol_midx sol < length (te_miners (f_telemetry (pm_farm pm)))"
  shows "\<exists>ev. processResponse E now' msg st2 = (Returned, emit (Report ev) (snd (dequeue_response_plea now' st2))) \<and>
    sa_accepted (getSolutions t i (pm_farm (deliver t ev pm))) =
      sa_accepted (getSolutions t i (pm_farm pm)) + (if ok \<and> i = sol_midx sol then 1 else 0) \<and>
    sa_accepted (getSolutions_farm (pm_farm (deliver t ev pm))) = sa_accepted (getSolutions_farm (pm_farm pm)) + (if ok then 1 else 0)"
proof -
  have "40 + sol_midx sol \<le> sc_max_id st2" using submit_max_id [OF assms(1,2)] assms(3) by simp
  from solution_reply [OF assms(4) this assms(5,6), of now'] obtain delay where
    "processResponse E now' msg st2 = (Returned, emit (Report (if ok then SolutionAccepted delay (sol_midx sol) stale
       else SolutionRejected delay (sol_midx sol))) (snd (dequeue_response_plea now' st2)))" by blast
  then show ?thesis
    using accepted_counters [OF assms(7), of t i t] by (cases ok) (auto simp: deliver_def on_solution_rejected_def)
qed

section \<open>The nonce\<close>

lemma length_hexes [simp]: "length (hexes k n) = k"
  by (induction k arbitrary: n) auto

lemma hexes_zero: "hexes k 0 = replicate k (CHR ''0'')"
  by (induction k) (simp_all add: digit_char_0 replicate_append_same)

lemma setw_snoc: "setw_fill (Suc k) (s @ [c]) = setw_fill k s @ [c]"
  by (simp add: setw_fill_def)

lemma setw_hexes: "0 < k \<Longrightarrow> n < 16 ^ k \<Longrightarrow> setw_fill k (nat_to_base 16 n) = hexes k n"
proof (induction k arbitrary: n)
  case (Suc k)
  show ?case
  proof (cases "n < 16")
    case True
    then show ?thesis
      using setw_snoc [of k "[]" "digit_char n"] by (simp add: nat_to_base.simps [of 16 n] hexes_zero) (simp add: setw_fill_def)
  next
    case False
    then have "0 < k" using Suc.prems by (cases k) auto
    moreover have "n div 16 < 16 ^ k" using Suc.prems(2) by (simp add: less_mult_imp_div_less mult.commute)
    ultimately show ?thesis
      using False Suc.IH by (simp add: nat_to_base.simps [of 16 n] setw_snoc)
  qed
qed simp

lemma hexes_append: "t < 16 ^ k \<Longrightarrow> hexes (l + k) (a * 16 ^ k + t) = hexes l a @ hexes k t"
proof (induction k arbitrary: t)
  case (Suc k)
  have "t div 16 < 16 ^ k" using Suc.prems by (simp add: less_mult_imp_div_less mult.commute)
  moreover have "a * 16 ^ Suc k + t = t + a * 16 ^ k * 16" by simp
  then have "(a * 16 ^ Suc k + t) div 16 = a * 16 ^ k + t div 16" "(a * 16 ^ Suc k + t) mod 16 = t mod 16"
    by (simp_all only: div_mult_self1 mod_mult_self1)
  ultimately show ?case using Suc.IH by simp
qed simp

lemma digit_val_lower: "is_base_digit 16 c \<Longrightarrow> \<exists>d < 16. digit_val c = Some d \<and> digit_char d = to_lower_char c"
  by (auto simp: is_base_digit_def digit_val_def digit_char_def to_lower_char_def Let_def split: if_splits)

lemma digits_value_snoc: "digits_value b (s @ [c]) = b * digits_value b s + (case digit_val c of Some d \<Rightarrow> d | None \<Rightarrow> 0)"
  by (simp add: digits_value_def)

lemma hexes_digits_value: "list_all (is_base_digit 16) e \<Longrightarrow> hexes (length e) (digits_value 16 e) = to_lower e"
proof (induction e rule: rev_induct)
  case (snoc c e)
  then obtain d where "d < 16" "digit_val c = Some d" "digit_char d = to_lower_char c" using digit_val_lower [of c] by auto
  with snoc show ?case by (simp add: digits_value_snoc to_lower_def)
qed (simp add: to_lower_def)

lemma digits_value_zeros: "digits_value 16 (e @ replicate k (CHR ''0'')) = digits_value 16 e * 16 ^ k"
proof (induction k)
  case (Suc k)
  have "e @ replicate (Suc k) (CHR ''0'') = (e @ replicate k (CHR ''0'')) @ [CHR ''0'']"
    by (simp add: replicate_append_same)
  then show ?case using Suc by (simp only: digits_value_snoc) (simp add: digit_val_def)
qed simp

lemma digits_value_less: "list_all (is_base_digit 16) e \<Longrightarrow> digits_value 16 e < 16 ^ length e"
proof (induction e rule: rev_induct)
  case (snoc c e)
  then obtain d where "d < 16" "digit_val c = Some d" using digit_val_lower [of c] by auto
  with snoc show ?case by (simp add: digits_value_snoc)
qed (simp add: digits_value_def)

lemma stoul_digits:
  assumes "list_all (is_base_digit 16) s" "s \<noteq> []" "length s \<le> 16"
  shows "stoul s 16 = Some (digits_value 16 s)"
proof -
  have not: "\<not> is_space c \<and> c \<noteq> CHR ''-'' \<and> c \<noteq> CHR ''+'' \<and> c \<noteq> CHR ''x'' \<and> c \<noteq> CHR ''X''" if "is_base_digit 16 c" for c
    using that by (auto simp: is_base_digit_def digit_val_def is_space_def Let_def split: if_splits)
  have tw: "takeWhile (is_base_digit 16) s = s" by (rule takeWhile_all [OF assms(1)])
  have "\<not> hex_prefixed s"
    using assms(1) not [of "CHR ''x''"] not [of "CHR ''X''"] by (auto simp: hex_prefixed_def split: list.splits)
  moreover have "dropWhile is_space s = s" "hd s \<noteq> CHR ''-''" "hd s \<noteq> CHR ''+''" using assms(1,2) not by (cases s; simp)+
  moreover have "digits_value 16 s < 2 ^ 64"
  proof -
    have "(16 :: nat) ^ length s \<le> 16 ^ 16" using assms(3) by (intro power_increasing) simp_all
    then show ?thesis using digits_value_less [OF assms(1)] by simp
  qed
  ultimately show ?thesis using assms(2) by (simp add: stoul_def parse_number_def unsigned_long_def Let_def tw)
qed

lemma extranonce_value:
  assumes "list_all (is_base_digit 16) e" "0 < length e" "length e \<le> 16"
    and "processExtranonce e st = (Returned, st')" "sc_session st' = Some s"
  shows "ss_extraNonce s = of_nat (digits_value 16 e * 16 ^ (16 - length e))" "ss_extraNonceSizeBytes s = length e"
proof -
  have z: "is_base_digit 16 (CHR ''0'')" by (simp add: is_base_digit_def digit_val_def)
  have "stoul (take 16 e @ replicate (16 - length e) (CHR ''0'')) 16 = Some (digits_value 16 e * 16 ^ (16 - length e))"
    using assms(1-3) z by (subst stoul_digits) (auto simp: list_all_iff digits_value_zeros)
  then show "ss_extraNonce s = of_nat (digits_value 16 e * 16 ^ (16 - length e))" "ss_extraNonceSizeBytes s = length e"
    using assms(4,5)
    by (auto simp: processExtranonce_def with_session_def set_session_def reading_def returning_def Let_def split: option.splits)
qed

lemma segment_offset:
  assumes "farm_setWork calloc tid random wp f = Inr f'" and "i < length (f_miners f)" and "\<not> miner_paused (f_miners f ! i)"
    and "wp_exSizeBytes wp \<noteq> 0" and "unat (wp_exSizeBytes wp) \<le> 16"
    and "length (f_miners f) \<le> 2 ^ (64 - unat (wp_exSizeBytes wp) * 4)" and "a < 2 ^ f_nonce_segment_with f'"
  obtains t where "t < 2 ^ (64 - unat (wp_exSizeBytes wp) * 4)"
    "wp_startNonce (mi_work (f_miners f' ! i)) + of_nat a = wp_startNonce wp + of_nat t"
    "wp_exSizeBytes (mi_work (f_miners f' ! i)) = wp_exSizeBytes wp" "wp_job (mi_work (f_miners f' ! i)) = wp_job wp"
proof -
  let ?n = "length (f_miners f)" and ?w = "f_nonce_segment_with f'" and ?k = "64 - unat (wp_exSizeBytes wp) * 4"
  obtain s where s: "mi_work (f_miners f' ! i) = with_nonce s ?w i wp" "s = wp_startNonce wp"
      "segment_width (wp_exSizeBytes wp) ?n = Some ?w"
    using farm_setWork_miners [OF assms(1,2)] assms(2-4) by (metis word_neq_0_conv)
  have n: "0 < ?n" "unat (wp_exSizeBytes wp) * 4 \<le> 64" "0 < unat (wp_exSizeBytes wp)"
    using assms(2,4,5) by (auto simp: unat_gt_0)
  with segment_width_spec assms(6) s(3) have le: "?n * 2 ^ ?w \<le> 2 ^ ?k" by (metis option.inject)
  have "(2 :: nat) ^ ?w \<le> 2 ^ ?k" using le n(1) by (metis le_trans mult_le_mono1 nat_mult_1 One_nat_def Suc_leI)
  then have "?w \<le> ?k" by (simp add: power_le_imp_le_exp)
  then have w: "?w < 64" using n(3) by linarith
  show ?thesis
  proof (rule that)
    show "i * 2 ^ ?w + a < 2 ^ ?k" using offset_less [OF assms(2,7)] le by linarith
    show "wp_startNonce (mi_work (f_miners f' ! i)) + of_nat a = wp_startNonce wp + of_nat (i * 2 ^ ?w + a)"
      unfolding s(1) segment_nonce [OF w] s(2) ..
  qed (simp_all add: s(1) with_nonce_def)
qed

lemma prefix_kept:
  assumes "list_all (is_base_digit 16) e" "0 < length e" "length e \<le> 16" "t < 2 ^ (64 - length e * 4)"
  shows "toHex_u64 (of_nat (digits_value 16 e * 16 ^ (16 - length e)) + of_nat t) PrefixDontAdd 16 =
    to_lower e @ hexes (16 - length e) t"
proof -
  let ?k = "16 - length e"
  have "64 - length e * 4 = 4 * ?k" by simp
  then have t: "t < 16 ^ ?k" using assms(4) by (simp add: power_mult)
  have l: "digits_value 16 e * 16 ^ ?k + t < 16 ^ 16"
  proof -
    have "digits_value 16 e * 16 ^ ?k + t < (digits_value 16 e + 1) * 16 ^ ?k" using t by simp
    also have "\<dots> \<le> 16 ^ length e * 16 ^ ?k" using digits_value_less [OF assms(1)] by (intro mult_le_mono1) simp
    also have "\<dots> = 16 ^ 16" using assms(3) by (simp flip: power_add)
    finally show ?thesis .
  qed
  have "unat (of_nat (digits_value 16 e * 16 ^ ?k) + of_nat t :: u64) = digits_value 16 e * 16 ^ ?k + t"
    using l by (simp only: of_nat_add [symmetric] unat_of_nat take_bit_nat_eq_self) (simp add: take_bit_nat_eq_self_iff)
  then show ?thesis
    using setw_hexes [OF _ l] hexes_append [OF t, of "length e" "digits_value 16 e"] hexes_digits_value [OF assms(1)] assms(3)
    by (simp add: toHex_u64_def add_prefix_def)
qed

text \<open>
  C10: the part of the nonce the pool assigns and the part the client submits make up the nonce that was found: for every
  nonce of the segment of a miner, the text of the first part followed by the submitted text is the nonce in hexadecimal.
\<close>
theorem extranonce_kept:
  assumes "list_all (is_base_digit 16) e" and "0 < length e" and "length e \<le> 16"
    and "processExtranonce e st = (Returned, st')" and "sc_session st' = Some s"
    and "wp_startNonce wp = ss_extraNonce s" and "wp_exSizeBytes wp = of_nat (ss_extraNonceSizeBytes s)"
    and "farm_setWork calloc tid random wp f = Inr f'" and "i < length (f_miners f)" and "\<not> miner_paused (f_miners f ! i)"
    and "length (f_miners f) \<le> 2 ^ (64 - length e * 4)" and "a < 2 ^ f_nonce_segment_with f'"
    and "sol_work sol = mi_work (f_miners f' ! i)" and "sol_nonce sol = wp_startNonce (sol_work sol) + of_nat a"
    and "conn_mode st2 = mode_ETHEREUMSTRATUM"
  shows "\<exists>n. to_lower e @ n = toHex_u64 (sol_nonce sol) PrefixDontAdd 16 \<and>
    submit_request st2 s2 sol = Some (append_texts [URI_UserDotWorker (sc_conn st2), wp_job wp, n]
      (request_params (40 + sol_midx sol) ''mining.submit''))"
proof -
  note v = extranonce_value [OF assms(1-5)]
  have u: "unat (wp_exSizeBytes wp) = length e" using assms(3,7) v(2) by (simp add: unat_of_nat take_bit_nat_eq_self_iff)
  have z: "wp_exSizeBytes wp \<noteq> 0" using u assms(2) by auto
  obtain t where t: "t < 2 ^ (64 - length e * 4)" "sol_nonce sol = ss_extraNonce s + of_nat t"
    "wp_exSizeBytes (sol_work sol) = wp_exSizeBytes wp" "wp_job (sol_work sol) = wp_job wp"
    using segment_offset [OF assms(8-10) z _ _ assms(12)] u assms(3,6,11,13,14) by metis
  have "toHex_u64 (sol_nonce sol) PrefixDontAdd 16 = to_lower e @ hexes (16 - length e) t"
    unfolding t(2) v(1) by (rule prefix_kept [OF assms(1-3) t(1)])
  then show ?thesis
    using assms(15) t(3,4) u by (simp add: submit_request_def Let_def substr_from_def to_lower_def mode_STRATUM_def mode_ETHPROXY_def mode_ETHEREUMSTRATUM_def)
qed

section \<open>Examples\<close>

lemma authorized_submits:
  "\<exists>st1. submitSolution job_env 0 second_solution authorized_client = (Returned, st1) \<and> sc_conn st1 = sc_conn authorized_client"
  by (simp add: submitSolution_def authorized_client_def listening_client_def submit_request_def second_solution_def stratum_modes
      returning_def Let_def)

lemma accepting_reply_ok:
  "reply (en_json job_env) 41 accepting_reply" "get_value (en_json job_env) accepting_reply ''result'' = Some (JBool True)"
  "conn_mode st = mode_STRATUM \<Longrightarrow>
    solution_verdict (en_json job_env) (conn_mode st) (reply_ok (en_json job_env) accepting_reply) (JBool True) accepting_reply = Some (True, False)"
  by (auto simp: reply_def reply_ok_def job_env_def accepting_reply_def example_env_def example_json_def isMember_def get_value_def
      get_uint_def get_string_def valid_version_def solution_verdict_def result_success_def stratum_modes)

theorem solution_credited_witness:
  "\<exists>st1 ev. submitSolution job_env 0 second_solution authorized_client = (Returned, st1) \<and>
     processResponse job_env 5 accepting_reply st1 = (Returned, emit (Report ev) (snd (dequeue_response_plea 5 st1))) \<and>
     sa_accepted (getSolutions 5 1 (pm_farm (deliver 5 ev working_pool))) = 1"
proof -
  obtain st1 where st1: "submitSolution job_env 0 second_solution authorized_client = (Returned, st1)" "sc_conn st1 = sc_conn authorized_client"
    using authorized_submits by blast
  have m: "conn_mode st1 = mode_STRATUM"
    using st1(2) by (simp add: authorized_client_def listening_client_def stratum_modes)
  have a: "isAuthorized (sc_session authorized_client)" by (simp add: authorized_client_def isAuthorized_def)
  have r: "reply (en_json job_env) (40 + sol_midx second_solution) accepting_reply"
    using accepting_reply_ok(1) by (simp add: second_solution_def)
  have l: "sol_midx second_solution < length (te_miners (f_telemetry (pm_farm working_pool)))"
    by (simp add: second_solution_def working_pool_def two_miners_def)
  have "sa_accepted (getSolutions 5 1 (pm_farm working_pool)) = 0"
    by (simp add: getSolutions_def working_pool_def two_miners_def TelemetryAccount_new_def SolutionAccount_new_def)
  then show ?thesis
    using solution_credited [OF st1(1) a order_refl r accepting_reply_ok(2) accepting_reply_ok(3) [OF m] l, of 5 5 1] st1(1)
    by (auto simp: second_solution_def)
qed

theorem extranonce_kept_witness:
  "\<exists>st' s f' n. processExtranonce ''aB'' subscribed_client = (Returned, st') \<and> sc_session st' = Some s \<and>
     farm_setWork (\<lambda>_. True) 0 0 (WorkPackage_default\<lparr>wp_startNonce := ss_extraNonce s,
       wp_exSizeBytes := of_nat (ss_extraNonceSizeBytes s)\<rparr>) two_miners = Inr f' \<and>
     ''ab'' @ n = toHex_u64 (wp_startNonce (mi_work (f_miners f' ! 1))) PrefixDontAdd 16"
proof -
  have h: "list_all (is_base_digit 16) ''aB''" by (simp add: is_base_digit_def digit_val_def)
  have "stoul (''aB'' @ replicate 14 (CHR ''0'')) 16 \<noteq> None"
    by (subst stoul_digits) (simp_all add: is_base_digit_def digit_val_def list_all_iff)
  then obtain st' s where st': "processExtranonce ''aB'' subscribed_client = (Returned, st')" "sc_session st' = Some s"
    by (auto simp: processExtranonce_def with_session_def set_session_def subscribed_client_def listening_client_def reading_def
        returning_def Let_def)
  have e: "of_nat (ss_extraNonceSizeBytes s) = (2 :: u16)" using extranonce_value [OF h _ _ st'] by simp
  let ?wp = "WorkPackage_default\<lparr>wp_startNonce := ss_extraNonce s, wp_exSizeBytes := of_nat (ss_extraNonceSizeBytes s)\<rparr>"
  obtain w where w: "segment_width 2 2 = Some w" using segment_width_spec [of 2 2] by (auto simp: unat_numeral)
  have "\<exists>f'. farm_setWork (\<lambda>_. True) 0 0 ?wp two_miners = Inr f'"
    unfolding farm_setWork_def e
    by (simp add: w [unfolded numeral_2_eq_2] two_miners_def farm_new_def WorkPackage_default_def Let_def)
  then obtain f' where f': "farm_setWork (\<lambda>_. True) 0 0 ?wp two_miners = Inr f'" by blast
  have p: "1 < length (f_miners two_miners)" "\<not> miner_paused (f_miners two_miners ! 1)" "length (f_miners two_miners) \<le> 2 ^ (64 - length ''aB'' * 4)"
    by (simp_all add: two_miners_def miner_new_def miner_paused_def pause_reasons_def)
  let ?sol = "\<lparr>sol_nonce = wp_startNonce (mi_work (f_miners f' ! 1)), sol_mixHash = h256_zero, sol_work = mi_work (f_miners f' ! 1),
    sol_tstamp = 0, sol_midx = 1\<rparr>"
  have "\<exists>n. to_lower ''aB'' @ n = toHex_u64 (sol_nonce ?sol) PrefixDontAdd 16 \<and>
      submit_request subscribed_client s ?sol = Some (append_texts [URI_UserDotWorker (sc_conn subscribed_client), wp_job ?wp, n]
        (request_params (40 + sol_midx ?sol) ''mining.submit''))"
    by (rule extranonce_kept [OF h _ _ st' _ _ f' p, of 0])
      (simp_all add: subscribed_client_def listening_client_def stratum_modes)
  moreover have "to_lower ''aB'' = ''ab''" by code_simp
  ultimately show ?thesis using st' f' by auto
qed

end
